(* ===== verification/Net_Prelude.thy ===== *)
theory Net_Prelude
  imports Main "HOL-Library.Word"
begin

text \<open>
  The prelude of the development: the machine types of the program, the failures a run
  can end in, the two composition operators the models are written with (one for pure
  computations that may fail, one for steps that also change the state), the decimal text
  of numbers (\<open>std::to_string\<close>, stream output of integers) and its reader \<open>atoi\<close>, and the
  generic list and word lemmas that the components share.
\<close>

unbundle bit_operations_syntax

type_synonym u8 = "8 word"
type_synonym u32 = "32 word"
type_synonym u64 = "64 word"

named_theorems result_simps \<open>evaluation of composed fallible steps\<close>

section \<open>Failures\<close>

text \<open>
  How a run of the program can stop before its end: an exception that unwinds (the code
  tells the exceptions of margo, other subclasses of \<open>std::exception\<close>, and anything else
  apart), the end of the process with an exit code, or undefined behaviour of C++
  (a read out of range, a null dereference, signed overflow).
\<close>

datatype exn = Margo_exn | Std_exn | Other_exn

datatype failure = Throws exn | Exits int | Undef

section \<open>Composition of fallible steps\<close>

definition rbind :: "'e + 'a \<Rightarrow> ('a \<Rightarrow> 'e + 'b) \<Rightarrow> 'e + 'b" where
  "rbind m f = (case m of Inl e \<Rightarrow> Inl e | Inr x \<Rightarrow> f x)"

lemma rbind_Inl [simp, result_simps]: "rbind (Inl e) f = Inl e"
  by (simp add: rbind_def)

lemma rbind_Inr [simp, result_simps]: "rbind (Inr x) f = f x"
  by (simp add: rbind_def)

lemma rbind_Inr_right [simp]: "rbind m Inr = m"
  by (cases m) simp_all

lemma rbind_assoc: "rbind (rbind m f) g = rbind m (\<lambda>x. rbind (f x) g)"
  by (cases m) simp_all

lemma rbind_eq_Inr: "rbind m f = Inr y \<longleftrightarrow> (\<exists>x. m = Inr x \<and> f x = Inr y)"
  by (cases m) simp_all

lemma rbind_eq_Inl: "rbind m f = Inl e \<longleftrightarrow> m = Inl e \<or> (\<exists>x. m = Inr x \<and> f x = Inl e)"
  by (cases m) simp_all

lemma rbind_split:
  "P (rbind m f) \<longleftrightarrow> (\<forall>e. m = Inl e \<longrightarrow> P (Inl e)) \<and> (\<forall>x. m = Inr x \<longrightarrow> P (f x))"
  by (cases m) simp_all

text \<open>A loop that appends one computed element per input to a vector, stopping at a failure.\<close>

fun rmap :: "('a \<Rightarrow> 'e + 'b) \<Rightarrow> 'a list \<Rightarrow> 'e + 'b list" where
  "rmap f [] = Inr []"
| "rmap f (x # xs) = rbind (f x) (\<lambda>y. rbind (rmap f xs) (\<lambda>ys. Inr (y # ys)))"

lemma rmap_Inr_length: "rmap f xs = Inr ys \<Longrightarrow> length ys = length xs"
  by (induction xs arbitrary: ys) (auto simp: rbind_eq_Inr)

lemma rmap_Inr_nth: "rmap f xs = Inr ys \<Longrightarrow> i < length xs \<Longrightarrow> f (xs ! i) = Inr (ys ! i)"
  by (induction xs arbitrary: ys i) (auto simp: rbind_eq_Inr nth_Cons split: nat.splits)

lemma rmap_Inr_all: "(\<And>x. x \<in> set xs \<Longrightarrow> f x = Inr (g x)) \<Longrightarrow> rmap f xs = Inr (map g xs)"
  by (induction xs) auto

text \<open>A step over a state: it returns a failure or a value, and the new state.\<close>

type_synonym ('s, 'a) step = "'s \<Rightarrow> (failure + 'a) \<times> 's"

definition sbind :: "('s, 'a) step \<Rightarrow> ('a \<Rightarrow> ('s, 'b) step) \<Rightarrow> ('s, 'b) step" where
  "sbind m f s = (case m s of (Inl e, t) \<Rightarrow> (Inl e, t) | (Inr x, t) \<Rightarrow> f x t)"

definition sret :: "'a \<Rightarrow> ('s, 'a) step" where
  "sret x s = (Inr x, s)"

definition sfail :: "failure \<Rightarrow> ('s, 'a) step" where
  "sfail e s = (Inl e, s)"

definition slift :: "failure + 'a \<Rightarrow> ('s, 'a) step" where
  "slift r s = (r, s)"

text \<open>\<open>try { m } catch\<close> with a handler that decides, by the exception, to handle or rethrow.\<close>

definition scatch :: "('s, 'a) step \<Rightarrow> (exn \<Rightarrow> ('s, 'a) step option) \<Rightarrow> ('s, 'a) step" where
  "scatch m h s = (case m s of
     (Inl (Throws x), t) \<Rightarrow> (case h x of None \<Rightarrow> (Inl (Throws x), t) | Some k \<Rightarrow> k t)
   | r \<Rightarrow> r)"

lemma sbind_fail [result_simps]: "m s = (Inl e, t) \<Longrightarrow> sbind m f s = (Inl e, t)"
  by (simp add: sbind_def)

lemma sbind_ok [result_simps]: "m s = (Inr x, t) \<Longrightarrow> sbind m f s = f x t"
  by (simp add: sbind_def)

lemma sbind_sret [simp]: "sbind (sret x) f = f x"
  by (simp add: sbind_def sret_def fun_eq_iff)

lemma sbind_sfail [simp]: "sbind (sfail e) f = sfail e"
  by (simp add: sbind_def sfail_def fun_eq_iff)

lemma sbind_slift_Inr [simp]: "sbind (slift (Inr x)) f = f x"
  by (simp add: sbind_def slift_def fun_eq_iff)

lemma sbind_slift_Inl [simp]: "sbind (slift (Inl e)) f = sfail e"
  by (simp add: sbind_def slift_def sfail_def fun_eq_iff)

lemma sbind_assoc: "sbind (sbind m f) g = sbind m (\<lambda>x. sbind (f x) g)"
  by (auto simp: sbind_def fun_eq_iff split: prod.splits sum.splits)

lemma scatch_ok [result_simps]: "m s = (Inr x, t) \<Longrightarrow> scatch m h s = (Inr x, t)"
  by (simp add: scatch_def)

lemma scatch_throw [result_simps]:
  "m s = (Inl (Throws x), t) \<Longrightarrow> scatch m h s = (case h x of None \<Rightarrow> (Inl (Throws x), t) | Some k \<Rightarrow> k t)"
  by (simp add: scatch_def)

lemma scatch_stop [result_simps]:
  "m s = (Inl (Exits c), t) \<Longrightarrow> scatch m h s = (Inl (Exits c), t)"
  "m s = (Inl Undef, t) \<Longrightarrow> scatch m h s = (Inl Undef, t)"
  by (simp_all add: scatch_def)

section \<open>Decimal text\<close>

text \<open>The decimal digits of a number, most significant first: \<open>std::to_string\<close> and \<open>os << n\<close>.\<close>

definition digit_char :: "nat \<Rightarrow> char" where
  "digit_char d = char_of (48 + d)"

definition is_digit :: "char \<Rightarrow> bool" where
  "is_digit c \<longleftrightarrow> 48 \<le> (of_char c :: nat) \<and> (of_char c :: nat) \<le> 57"

definition digit_val :: "char \<Rightarrow> nat" where
  "digit_val c = of_char c - 48"

fun decimal :: "nat \<Rightarrow> string" where
  "decimal n = (if n < 10 then [digit_char n] else decimal (n div 10) @ [digit_char (n mod 10)])"

declare decimal.simps [simp del]

definition read_decimal :: "string \<Rightarrow> nat" where
  "read_decimal cs = foldl (\<lambda>acc c. 10 * acc + digit_val c) 0 cs"

lemma of_char_digit_char [simp]: "d < 10 \<Longrightarrow> of_char (digit_char d) = 48 + d"
  by (simp add: digit_char_def)

lemma is_digit_digit_char [simp]: "d < 10 \<Longrightarrow> is_digit (digit_char d)"
  by (simp add: is_digit_def)

lemma digit_val_digit_char [simp]: "d < 10 \<Longrightarrow> digit_val (digit_char d) = d"
  by (simp add: digit_val_def)

lemma decimal_digits: "c \<in> set (decimal n) \<Longrightarrow> is_digit c"
proof (induction n rule: decimal.induct)
  case (1 n)
  then show ?case
    by (cases "n < 10") (auto simp: decimal.simps[of n])
qed

lemma decimal_Nil [simp]: "decimal n \<noteq> []"
  by (subst decimal.simps) simp

lemma read_decimal_decimal [simp]: "read_decimal (decimal n) = n"
proof (induction n rule: decimal.induct)
  case (1 n)
  then show ?case
    by (cases "n < 10") (auto simp: decimal.simps[of n] read_decimal_def)
qed

lemma decimal_inject [simp]: "decimal m = decimal n \<longleftrightarrow> m = n"
  by (metis read_decimal_decimal)

lemma length_decimal: "n < 10 ^ k \<Longrightarrow> 0 < k \<Longrightarrow> length (decimal n) \<le> k"
proof (induction n arbitrary: k rule: decimal.induct)
  case (1 n)
  show ?case
  proof (cases "n < 10")
    case True
    with 1 show ?thesis by (simp add: decimal.simps[of n])
  next
    case False
    obtain j where j: "k = Suc j" "0 < j"
    proof (cases k)
      case 0
      with "1.prems" show thesis by simp
    next
      case (Suc i)
      with "1.prems" False show thesis
        by (cases "i = 0") (auto intro: that)
    qed
    with "1.prems" have "n div 10 < 10 ^ j"
      by (simp add: less_mult_imp_div_less mult.commute)
    with "1.IH"[OF False this \<open>0 < j\<close>] False j show ?thesis
      by (simp add: decimal.simps[of n])
  qed
qed

definition to_string_u32 :: "u32 \<Rightarrow> string" where
  "to_string_u32 w = decimal (unat w)"

definition to_string_u64 :: "u64 \<Rightarrow> string" where
  "to_string_u64 w = decimal (unat w)"

definition to_string_int :: "int \<Rightarrow> string" where
  "to_string_int i = (if i < 0 then CHR ''-'' # decimal (nat (- i)) else decimal (nat i))"

text \<open>
  \<open>atoi\<close>: skip white space, an optional sign, then the longest prefix of digits; a value
  that an \<open>int\<close> cannot hold is undefined behaviour.
\<close>

definition is_space :: "char \<Rightarrow> bool" where
  "is_space c \<longleftrightarrow> (of_char c :: nat) = 32 \<or> (9 \<le> (of_char c :: nat) \<and> (of_char c :: nat) \<le> 13)"

definition signed_value :: "string \<Rightarrow> int" where
  "signed_value cs =
     (case cs of
        [] \<Rightarrow> 0
      | c # ds \<Rightarrow> if c = CHR ''-'' then - int (read_decimal (takeWhile is_digit ds))
                  else if c = CHR ''+'' then int (read_decimal (takeWhile is_digit ds))
                  else int (read_decimal (takeWhile is_digit cs)))"

definition atoi :: "string \<Rightarrow> failure + int" where
  "atoi cs = (let v = signed_value (dropWhile is_space cs)
              in if - (2 ^ 31) \<le> v \<and> v < 2 ^ 31 then Inr v else Inl Undef)"

lemma is_digit_not_special:
  "is_digit c \<Longrightarrow> \<not> is_space c \<and> c \<noteq> CHR ''-'' \<and> c \<noteq> CHR ''+'' \<and> c \<noteq> CHR ''.'' \<and> c \<noteq> CHR '':'' \<and> c \<noteq> CHR ''/''"
  by (auto simp: is_digit_def is_space_def)

lemma takeWhile_decimal [simp]: "takeWhile is_digit (decimal n) = decimal n"
  by (simp add: takeWhile_eq_all_conv decimal_digits)

lemma signed_value_decimal: "signed_value (decimal n) = int n"
proof -
  obtain c cs where d: "decimal n = c # cs"
    by (cases "decimal n") auto
  then have "is_digit c"
    using decimal_digits[of c n] by simp
  then have "signed_value (c # cs) = int (read_decimal (takeWhile is_digit (c # cs)))"
    using is_digit_not_special[of c] by (simp add: signed_value_def)
  then show ?thesis
    using takeWhile_decimal[of n] read_decimal_decimal[of n] by (simp only: d)
qed

lemma dropWhile_decimal: "dropWhile is_space (decimal n) = decimal n"
proof -
  obtain c cs where d: "decimal n = c # cs"
    by (cases "decimal n") auto
  then have "is_digit c"
    using decimal_digits[of c n] by simp
  then show ?thesis
    using d by (simp add: is_digit_not_special)
qed

lemma atoi_to_string_int:
  assumes "- (2 ^ 31) \<le> i" and "i < 2 ^ 31"
  shows "atoi (to_string_int i) = Inr i"
proof (cases "i < 0")
  case True
  then have "dropWhile is_space (to_string_int i) = CHR ''-'' # decimal (nat (- i))"
    by (simp add: to_string_int_def is_space_def)
  with True assms show ?thesis
    by (simp add: atoi_def signed_value_def)
next
  case False
  with assms show ?thesis
    by (simp add: atoi_def to_string_int_def dropWhile_decimal signed_value_decimal)
qed

lemma atoi_range: "atoi cs = Inr v \<Longrightarrow> - (2 ^ 31) \<le> v \<and> v < 2 ^ 31"
  by (auto simp: atoi_def Let_def split: if_splits)

lemma to_string_u32_inject [simp]: "to_string_u32 a = to_string_u32 b \<longleftrightarrow> a = b"
  by (simp add: to_string_u32_def word_unat_eq_iff)

lemma to_string_u64_inject [simp]: "to_string_u64 a = to_string_u64 b \<longleftrightarrow> a = b"
  by (simp add: to_string_u64_def word_unat_eq_iff)

lemma to_string_u32_digits: "c \<in> set (to_string_u32 a) \<Longrightarrow> is_digit c"
  by (simp add: to_string_u32_def decimal_digits)

lemma to_string_u64_digits: "c \<in> set (to_string_u64 a) \<Longrightarrow> is_digit c"
  by (simp add: to_string_u64_def decimal_digits)

text \<open>Text with a separator that occurs in neither left part splits in one way.\<close>

lemma append_sep_inject:
  assumes "sep \<notin> set as" and "sep \<notin> set bs" and "as @ sep # cs = bs @ sep # ds"
  shows "as = bs \<and> cs = ds"
proof -
  have "takeWhile (\<lambda>c. c \<noteq> sep) (as @ sep # cs) = as"
    using assms(1) by (induction as) auto
  moreover have "takeWhile (\<lambda>c. c \<noteq> sep) (bs @ sep # ds) = bs"
    using assms(2) by (induction bs) auto
  ultimately have "as = bs" using assms(3) by simp
  with assms(3) show ?thesis by simp
qed

section \<open>Words and lists\<close>

lemma unat_of_nat_u64: "n < 2 ^ 64 \<Longrightarrow> unat (of_nat n :: u64) = n"
  by (simp add: unsigned_of_nat take_bit_nat_eq_self)

lemma unat_of_nat_u32: "n < 2 ^ 32 \<Longrightarrow> unat (of_nat n :: u32) = n"
  by (simp add: unsigned_of_nat take_bit_nat_eq_self)

lemma unat_u32_less: "unat (w :: u32) < 2 ^ 32"
  using unsigned_less[of w] by simp

lemma unat_u8_less: "unat (w :: u8) < 256"
proof -
  have "unat w < 2 ^ LENGTH(8)"
    by (rule unsigned_less)
  then show ?thesis
    by simp
qed

lemma unat_ucast_u32_u64: "unat (ucast (w :: u32) :: u64) = unat w"
proof -
  have "unat w < 2 ^ LENGTH(32)"
    by (rule unsigned_less)
  then show ?thesis
    by (simp add: unsigned_ucast_eq take_bit_nat_eq_self)
qed

text \<open>The node ids \<open>1 .. n\<close>, as the loops over all nodes visit them.\<close>

definition node_ids :: "nat \<Rightarrow> u32 list" where
  "node_ids n = map (\<lambda>k. of_nat (k + 1)) [0..<n]"

lemma length_node_ids [simp]: "length (node_ids n) = n"
  by (simp add: node_ids_def)

lemma node_ids_nth: "i < n \<Longrightarrow> node_ids n ! i = of_nat (i + 1)"
  by (simp add: node_ids_def)

lemma in_node_idsE:
  assumes "i \<in> set (node_ids n)" and "n < 2 ^ 32"
  obtains k where "k < n" and "i = of_nat (k + 1)" and "unat i = k + 1"
proof -
  obtain k where k: "k < n" "i = of_nat (k + 1)"
    using assms(1) by (auto simp: node_ids_def)
  moreover have "unat i = k + 1"
    using k assms(2) by (simp only: k(2), intro unat_of_nat_u32) simp
  ultimately show thesis
    by (rule that)
qed

lemma set_node_ids: "n < 2 ^ 32 \<Longrightarrow> i \<in> set (node_ids n) \<longleftrightarrow> 1 \<le> unat i \<and> unat i \<le> n"
proof
  assume "n < 2 ^ 32" and "i \<in> set (node_ids n)"
  then show "1 \<le> unat i \<and> unat i \<le> n"
    by (auto elim: in_node_idsE)
next
  assume r: "1 \<le> unat i \<and> unat i \<le> n"
  have "i = of_nat ((unat i - 1) + 1)"
    using r by simp
  moreover have "unat i - 1 \<in> set [0..<n]"
    using r by auto
  ultimately show "i \<in> set (node_ids n)"
    unfolding node_ids_def by (metis (no_types, lifting) image_eqI list.set_map)
qed

lemma distinct_node_ids: "n < 2 ^ 32 \<Longrightarrow> distinct (node_ids n)"
proof (unfold distinct_conv_nth, intro allI impI)
  fix i j
  assume n: "n < 2 ^ 32" and ij: "i < length (node_ids n)" "j < length (node_ids n)" "i \<noteq> j"
  then have "unat (of_nat (i + 1) :: u32) = i + 1" "unat (of_nat (j + 1) :: u32) = j + 1"
    by (simp_all only: length_node_ids, (intro unat_of_nat_u32, simp)+)
  with ij show "node_ids n ! i \<noteq> node_ids n ! j"
    by (metis add_right_cancel length_node_ids node_ids_nth)
qed

end
