(* ===== verification/Chi_Ids.thy ===== *)
theory Chi_Ids
  imports Net_Prelude
begin

text \<open>
  Identifiers of \<open>include/test_networks/chimaera_types.h\<close>: \<open>UniqueId\<close> (pool, queue and task
  ids), \<open>SubDomainId\<close> and \<open>DomainId\<close>, with their comparison, hash and print operators. The
  interface \<open>keyed_type\<close> states what a container keyed by such a type needs, and is
  interpreted on the three types. \<open>std::hash\<close> of the built-in integers is
  implementation-defined, so it is an argument (\<open>h32\<close>, \<open>h64\<close>) of every hash.
\<close>

section \<open>The interface of a key\<close>

text \<open>
  What \<open>std::unordered_map\<close> and \<open>std::unordered_set\<close> ask of a key type: \<open>operator==\<close> is an
  equivalence and equal keys have equal hashes. \<open>printed_key\<close> adds that the printed
  form determines the key up to \<open>operator==\<close>, as logs and file names need.
\<close>

locale keyed_type =
  fixes eq :: "'a \<Rightarrow> 'a \<Rightarrow> bool" and hash :: "'a \<Rightarrow> u64"
  assumes eq_refl: "eq a a"
    and eq_sym: "eq a b \<Longrightarrow> eq b a"
    and eq_trans: "eq a b \<Longrightarrow> eq b c \<Longrightarrow> eq a c"
    and eq_hash: "eq a b \<Longrightarrow> hash a = hash b"
begin

lemma eq_cong: "eq a b \<Longrightarrow> eq a c = eq b c"
  using eq_sym eq_trans by blast

lemma eq_bucket: "eq a b \<Longrightarrow> unat (hash a) mod n = unat (hash b) mod n"
  by (simp add: eq_hash)

lemma find_cong: "eq a b \<Longrightarrow> find (\<lambda>kv. eq a (fst kv)) kvs = find (\<lambda>kv. eq b (fst kv)) kvs"
  by (induction kvs) (simp_all add: eq_cong)

end

locale printed_key = keyed_type eq hash
  for eq :: "'a \<Rightarrow> 'a \<Rightarrow> bool" and hash :: "'a \<Rightarrow> u64" +
  fixes text_of :: "'a \<Rightarrow> string"
  assumes text_of_eq: "text_of a = text_of b \<longleftrightarrow> eq a b"
begin

lemma same_text_same_hash: "text_of a = text_of b \<Longrightarrow> hash a = hash b"
  by (simp add: text_of_eq eq_hash)

lemma inj_on_text: "(\<And>a b. a \<in> A \<Longrightarrow> b \<in> A \<Longrightarrow> eq a b \<Longrightarrow> a = b) \<Longrightarrow> inj_on text_of A"
  by (auto simp: inj_on_def text_of_eq)

end

section \<open>UniqueId\<close>

text \<open>
  \<open>node_id_\<close> shares its storage with \<open>prio_\<close> (a union of two \<open>u32\<close>), so one field stands for
  both.
\<close>

record unique_id =
  uid_node :: u32
  uid_hash :: u32
  uid_unique :: u64

type_synonym pool_id = unique_id
type_synonym queue_id = unique_id
type_synonym task_id = unique_id

definition uid_make :: "u32 \<Rightarrow> u64 \<Rightarrow> unique_id" where
  "uid_make node unique = \<lparr>uid_node = node, uid_hash = 0, uid_unique = unique\<rparr>"

definition uid_make_hash :: "u32 \<Rightarrow> u32 \<Rightarrow> u64 \<Rightarrow> unique_id" where
  "uid_make_hash node h unique = \<lparr>uid_node = node, uid_hash = h, uid_unique = unique\<rparr>"

definition uid_copy :: "unique_id \<Rightarrow> unique_id" where
  "uid_copy other =
     \<lparr>uid_node = uid_node other, uid_hash = uid_hash other, uid_unique = uid_unique other\<rparr>"

definition uid_is_null :: "unique_id \<Rightarrow> bool" where
  "uid_is_null x \<longleftrightarrow> uid_node x = 0"

definition uid_get_null :: unique_id where
  "uid_get_null = uid_make 0 0"

definition uid_set_null :: "unique_id \<Rightarrow> unique_id" where
  "uid_set_null x = x\<lparr>uid_node := 0, uid_hash := 0, uid_unique := 0\<rparr>"

definition uid_get_node_id :: "unique_id \<Rightarrow> u32" where
  "uid_get_node_id x = uid_node x"

definition uid_eq :: "unique_id \<Rightarrow> unique_id \<Rightarrow> bool" where
  "uid_eq a b \<longleftrightarrow> uid_unique a = uid_unique b \<and> uid_node a = uid_node b"

definition uid_neq :: "unique_id \<Rightarrow> unique_id \<Rightarrow> bool" where
  "uid_neq a b \<longleftrightarrow> uid_unique a \<noteq> uid_unique b \<or> uid_node a \<noteq> uid_node b"

definition uid_print :: "unique_id \<Rightarrow> string" where
  "uid_print x = to_string_u32 (uid_node x) @ ''.'' @ to_string_u64 (uid_unique x)"

definition uid_hash_code :: "(u32 \<Rightarrow> u64) \<Rightarrow> (u64 \<Rightarrow> u64) \<Rightarrow> unique_id \<Rightarrow> u64" where
  "uid_hash_code h32 h64 x = h64 (uid_unique x) + h32 (uid_node x)"

lemma uid_copy_id [simp]: "uid_copy x = x"
  by (simp add: uid_copy_def)

lemma uid_neq_iff: "uid_neq a b \<longleftrightarrow> \<not> uid_eq a b"
  by (auto simp: uid_neq_def uid_eq_def)

lemma uid_set_null_get_null: "uid_set_null x = uid_get_null"
  by (simp add: uid_set_null_def uid_get_null_def uid_make_def)

lemma dot_notin_u32 [simp]: "CHR ''.'' \<notin> set (to_string_u32 w)"
  using to_string_u32_digits is_digit_not_special by blast

lemma dot_notin_u64 [simp]: "CHR ''.'' \<notin> set (to_string_u64 w)"
  using to_string_u64_digits is_digit_not_special by blast

lemma uid_print_eq: "uid_print a = uid_print b \<longleftrightarrow> uid_eq a b"
proof
  assume "uid_print a = uid_print b"
  then have "to_string_u32 (uid_node a) = to_string_u32 (uid_node b)
      \<and> to_string_u64 (uid_unique a) = to_string_u64 (uid_unique b)"
    by (intro append_sep_inject[where sep = "CHR ''.''"]) (simp_all add: uid_print_def)
  then show "uid_eq a b"
    by (simp add: uid_eq_def)
next
  assume "uid_eq a b"
  then show "uid_print a = uid_print b"
    by (simp add: uid_eq_def uid_print_def)
qed

interpretation uid: printed_key uid_eq "uid_hash_code h32 h64" uid_print
  for h32 h64
  by unfold_locales (auto simp: uid_eq_def uid_hash_code_def uid_print_eq)

section \<open>SubDomainId\<close>

record subdomain_id =
  sd_major :: u32
  sd_minor :: u32

definition kPhysicalNode :: u32 where "kPhysicalNode = 0"
definition kContainerSet :: u32 where "kContainerSet = 1"
definition kGlobalContainers :: u32 where "kGlobalContainers = 1"
definition kLocalContainers :: u32 where "kLocalContainers = 3"
definition kContainerCache :: u32 where "kContainerCache = 4"
definition kLast :: u32 where "kLast = 5"

definition sd_make :: "u32 \<Rightarrow> u32 \<Rightarrow> subdomain_id" where
  "sd_make major minor = \<lparr>sd_major = major, sd_minor = minor\<rparr>"

definition sd_make_major :: "u32 \<Rightarrow> subdomain_id" where
  "sd_make_major major = \<lparr>sd_major = major, sd_minor = 0\<rparr>"

definition sd_copy :: "subdomain_id \<Rightarrow> subdomain_id" where
  "sd_copy other = \<lparr>sd_major = sd_major other, sd_minor = sd_minor other\<rparr>"

definition sd_is_physical :: "subdomain_id \<Rightarrow> bool" where
  "sd_is_physical x \<longleftrightarrow> sd_major x = kPhysicalNode"

definition sd_is_major :: "subdomain_id \<Rightarrow> bool" where
  "sd_is_major x \<longleftrightarrow> sd_minor x = 0"

definition sd_is_minor :: "subdomain_id \<Rightarrow> bool" where
  "sd_is_minor x \<longleftrightarrow> sd_minor x > 0"

definition sd_create_physical :: "u32 \<Rightarrow> subdomain_id" where
  "sd_create_physical minor = sd_make kPhysicalNode minor"

definition sd_eq :: "subdomain_id \<Rightarrow> subdomain_id \<Rightarrow> bool" where
  "sd_eq a b \<longleftrightarrow> sd_major a = sd_major b \<and> sd_minor a = sd_minor b"

definition sd_hash_code :: "(u32 \<Rightarrow> u64) \<Rightarrow> subdomain_id \<Rightarrow> u64" where
  "sd_hash_code h32 x = h32 (sd_major x) + h32 (sd_minor x)"

definition sd_print :: "subdomain_id \<Rightarrow> string" where
  "sd_print x = to_string_u32 (sd_major x) @ ''.'' @ to_string_u32 (sd_minor x)"

lemma sd_copy_id [simp]: "sd_copy x = x"
  by (simp add: sd_copy_def)

lemma sd_eq_iff: "sd_eq a b \<longleftrightarrow> a = b"
  by (auto simp: sd_eq_def)

lemma sd_print_eq: "sd_print a = sd_print b \<longleftrightarrow> sd_eq a b"
proof
  assume "sd_print a = sd_print b"
  then have "to_string_u32 (sd_major a) = to_string_u32 (sd_major b)
      \<and> to_string_u32 (sd_minor a) = to_string_u32 (sd_minor b)"
    by (intro append_sep_inject[where sep = "CHR ''.''"]) (simp_all add: sd_print_def)
  then show "sd_eq a b"
    by (simp add: sd_eq_def)
next
  assume "sd_eq a b"
  then show "sd_print a = sd_print b"
    by (simp add: sd_eq_def sd_print_def)
qed

interpretation sd: printed_key sd_eq "sd_hash_code h32" sd_print
  for h32
  by unfold_locales (auto simp: sd_eq_def sd_hash_code_def sd_print_eq)

section \<open>DomainId\<close>

record domain_id =
  dom_scope :: pool_id
  dom_sub :: subdomain_id

definition dom_make :: "pool_id \<Rightarrow> subdomain_id \<Rightarrow> domain_id" where
  "dom_make scope sub = \<lparr>dom_scope = uid_copy scope, dom_sub = sd_copy sub\<rparr>"

definition dom_make_group :: "pool_id \<Rightarrow> u32 \<Rightarrow> domain_id" where
  "dom_make_group scope grp = \<lparr>dom_scope = uid_copy scope, dom_sub = sd_make_major grp\<rparr>"

definition dom_make_minor :: "pool_id \<Rightarrow> u32 \<Rightarrow> u32 \<Rightarrow> domain_id" where
  "dom_make_minor scope grp minor = \<lparr>dom_scope = uid_copy scope, dom_sub = sd_make grp minor\<rparr>"

definition dom_copy :: "domain_id \<Rightarrow> domain_id" where
  "dom_copy other = \<lparr>dom_scope = uid_copy (dom_scope other), dom_sub = sd_copy (dom_sub other)\<rparr>"

definition dom_eq :: "domain_id \<Rightarrow> domain_id \<Rightarrow> bool" where
  "dom_eq a b \<longleftrightarrow> uid_eq (dom_scope a) (dom_scope b) \<and> sd_eq (dom_sub a) (dom_sub b)"

definition dom_hash_code :: "(u32 \<Rightarrow> u64) \<Rightarrow> (u64 \<Rightarrow> u64) \<Rightarrow> domain_id \<Rightarrow> u64" where
  "dom_hash_code h32 h64 x = uid_hash_code h32 h64 (dom_scope x) + sd_hash_code h32 (dom_sub x)"

definition dom_print :: "domain_id \<Rightarrow> string" where
  "dom_print x = uid_print (dom_scope x) @ ''.'' @ sd_print (dom_sub x)"

lemma dom_copy_id [simp]: "dom_copy x = x"
  by (simp add: dom_copy_def)

lemma dom_print_eq: "dom_print a = dom_print b \<longleftrightarrow> dom_eq a b"
proof
  assume eq: "dom_print a = dom_print b"
  then have head: "to_string_u32 (uid_node (dom_scope a)) = to_string_u32 (uid_node (dom_scope b))
      \<and> to_string_u64 (uid_unique (dom_scope a)) @ CHR ''.'' # sd_print (dom_sub a)
        = to_string_u64 (uid_unique (dom_scope b)) @ CHR ''.'' # sd_print (dom_sub b)"
    by (intro append_sep_inject[where sep = "CHR ''.''"]) (simp_all add: dom_print_def uid_print_def)
  then have "to_string_u64 (uid_unique (dom_scope a)) = to_string_u64 (uid_unique (dom_scope b))
      \<and> sd_print (dom_sub a) = sd_print (dom_sub b)"
    by (intro append_sep_inject[where sep = "CHR ''.''"]) simp_all
  with head show "dom_eq a b"
    by (simp add: dom_eq_def uid_eq_def sd_print_eq)
next
  assume "dom_eq a b"
  then show "dom_print a = dom_print b"
    by (simp add: dom_eq_def dom_print_def flip: uid_print_eq sd_print_eq)
qed

interpretation dom: printed_key dom_eq "dom_hash_code h32 h64" dom_print
  for h32 h64
proof
  show "dom_eq a a" for a
    by (simp add: dom_eq_def uid.eq_refl sd.eq_refl)
  show "dom_eq b a" if "dom_eq a b" for a b
    using that by (simp add: dom_eq_def uid.eq_sym sd.eq_sym)
  show "dom_eq a c" if "dom_eq a b" and "dom_eq b c" for a b c
    using that uid.eq_trans sd.eq_trans unfolding dom_eq_def by blast
  show "dom_hash_code h32 h64 a = dom_hash_code h32 h64 b" if "dom_eq a b" for a b
    using that by (simp add: dom_eq_def dom_hash_code_def uid_hash_code_def uid_eq_def sd_eq_def sd_hash_code_def)
  show "(dom_print a = dom_print b) = dom_eq a b" for a b
    by (rule dom_print_eq)
qed

section \<open>Properties\<close>

text \<open>
  C38: equality, text and hash of domain ids agree. \<open>operator==\<close> compares pool node, pool
  unique number, major and minor (the pool's \<open>hash_\<close> is not part of the identity); two ids print
  as the same text exactly when they are equal, and equal ids have the same hash, whatever
  \<open>std::hash\<close> computes on integers.
\<close>

theorem domain_id_text_identity:
  "(dom_eq a b \<longleftrightarrow>
      uid_node (dom_scope a) = uid_node (dom_scope b) \<and>
      uid_unique (dom_scope a) = uid_unique (dom_scope b) \<and>
      sd_major (dom_sub a) = sd_major (dom_sub b) \<and>
      sd_minor (dom_sub a) = sd_minor (dom_sub b)) \<and>
   (dom_print a = dom_print b \<longleftrightarrow> dom_eq a b) \<and>
   (dom_eq a b \<longrightarrow> dom_hash_code h32 h64 a = dom_hash_code h32 h64 b)"
  using dom.same_text_same_hash[of a b h32 h64]
  by (auto simp: dom.text_of_eq dom_eq_def uid_eq_def sd_eq_def)

theorem domain_id_text_identity_witness:
  "dom_eq (dom_make (uid_make_hash 2 7 9) (sd_make 1 4)) (dom_make (uid_make_hash 2 8 9) (sd_make 1 4)) \<and>
   dom_hash_code (\<lambda>w. ucast w * 31) (\<lambda>w. w) (dom_make (uid_make_hash 2 7 9) (sd_make 1 4)) =
   dom_hash_code (\<lambda>w. ucast w * 31) (\<lambda>w. w) (dom_make (uid_make_hash 2 8 9) (sd_make 1 4)) \<and>
   \<not> dom_eq (dom_make (uid_make_hash 2 7 9) (sd_make 1 4)) (dom_make (uid_make_hash 2 7 9) (sd_make 1 5))"
proof -
  let ?a = "dom_make (uid_make_hash 2 7 9) (sd_make 1 4)" and ?b = "dom_make (uid_make_hash 2 8 9) (sd_make 1 4)"
  have eq: "dom_eq ?a ?b" "\<not> dom_eq ?a (dom_make (uid_make_hash 2 7 9) (sd_make 1 5))"
    using domain_id_text_identity[of ?a ?b]
      domain_id_text_identity[of ?a "dom_make (uid_make_hash 2 7 9) (sd_make 1 5)"]
    by (simp_all add: dom_make_def uid_make_hash_def sd_make_def)
  then show ?thesis
    using domain_id_text_identity[of ?a ?b "\<lambda>w. ucast w * 31" "\<lambda>w. w"] by blast
qed

end
