(* ===== verification/Hshm_Lib.thy ===== *)
theory Hshm_Lib
  imports Net_Prelude
begin

text \<open>
  The git submodule \<open>cte-hermes-shm\<close> is not part of the sources, so what the program calls
  of it is a parameter: the record \<open>hshm\<close>, the first argument of every definition that uses
  it. Its fields are \<open>HELOG(kFatal, ..)\<close> (does it end the process, as its documentation
  says), the macro \<open>BIT_OPT\<close>, the class \<open>bitfield\<close>, \<open>Formatter::format\<close>, the three
  functions of \<open>ConfigParse\<close> and \<open>Unit::Kilobytes\<close>. Documented behaviour is stated by the predicates
  \<open>hshm_bits\<close> and \<open>fatal_exits\<close>, which theorems take as hypotheses. \<open>sample_hshm\<close> is one
  concrete library, for the witnesses only.
\<close>

record hshm =
  fatal_exits :: bool
  bit_opt :: "nat \<Rightarrow> u32"
  bf_default :: u32
  bf_set_bits :: "u32 \<Rightarrow> u32 \<Rightarrow> u32"
  bf_any :: "u32 \<Rightarrow> u32 \<Rightarrow> bool"
  format_args :: "string \<Rightarrow> string list \<Rightarrow> string"
  expand_path :: "string \<Rightarrow> string"
  parse_hostfile :: "string \<Rightarrow> string list"
  parse_size :: "string \<Rightarrow> u64"
  kilobytes :: "nat \<Rightarrow> u64"

text \<open>
  \<open>HELOG(kFatal, ..)\<close>: the process ends with code 1 when the library's fatal log level exits;
  otherwise the code after the statement (the second argument) runs.
\<close>

definition helog_fatal :: "hshm \<Rightarrow> failure + 'a \<Rightarrow> failure + 'a" where
  "helog_fatal H after = (if fatal_exits H then Inl (Exits 1) else after)"

lemma helog_fatal_exits [simp, result_simps]: "fatal_exits H \<Longrightarrow> helog_fatal H after = Inl (Exits 1)"
  by (simp add: helog_fatal_def)

text \<open>The documented behaviour of \<open>BIT_OPT\<close> and of \<open>bitfield\<close>.\<close>

definition hshm_bits :: "hshm \<Rightarrow> bool" where
  "hshm_bits H \<longleftrightarrow>
     (\<forall>n < 32. bit_opt H n = push_bit n 1) \<and>
     bf_default H = 0 \<and>
     (\<forall>b m. bf_set_bits H b m = b OR m) \<and>
     (\<forall>b m. bf_any H b m \<longleftrightarrow> b AND m \<noteq> 0)"

lemma hshm_bits_simps:
  assumes "hshm_bits H"
  shows "n < 32 \<Longrightarrow> bit_opt H n = push_bit n 1"
    and "bf_default H = 0"
    and "bf_set_bits H b m = b OR m"
    and "bf_any H b m \<longleftrightarrow> b AND m \<noteq> 0"
  using assms by (simp_all add: hshm_bits_def)

definition sample_hshm :: hshm where
  "sample_hshm =
     \<lparr>fatal_exits = True,
      bit_opt = (\<lambda>n. push_bit n 1),
      bf_default = 0,
      bf_set_bits = (\<lambda>b m. b OR m),
      bf_any = (\<lambda>b m. b AND m \<noteq> 0),
      format_args = (\<lambda>f xs. f @ concat xs),
      expand_path = (\<lambda>p. p),
      parse_hostfile = (\<lambda>p. [''10.0.0.1'', ''10.0.0.2'']),
      parse_size = (\<lambda>s. of_nat (read_decimal s)),
      kilobytes = (\<lambda>n. of_nat (1024 * n))\<rparr>"

lemma sample_hshm_bits: "hshm_bits sample_hshm"
  by (simp add: hshm_bits_def sample_hshm_def)

lemma sample_hshm_fatal: "fatal_exits sample_hshm"
  by (simp add: sample_hshm_def)

end
