(* ===== verification/Chi_Domain.thy ===== *)
theory Chi_Domain
  imports Chi_Ids Hshm_Lib
begin

text \<open>
  Domains and domain queries of \<open>include/test_networks/chimaera_types.h\<close>: the enumerations,
  \<open>CreateContext\<close>, \<open>DomainSelection\<close>, \<open>SubDomainIdRange\<close>, \<open>UpdateDomainInfo\<close>,
  \<open>DomainQuery\<close> with its factory functions and printer, and \<open>ResolvedDomainQuery\<close>. Memory
  that a constructor leaves uninitialised is an explicit argument (\<open>junk\<close>).
\<close>

section \<open>Enumerations and small records\<close>

datatype io_type = KRead | KWrite | KNone

datatype task_route_mode = KThisWorker | KLocalWorker | KRemoteWorker

datatype update_domain_op = KContract | KExpand

record create_context =
  cc_id :: pool_id
  cc_global_containers :: u32
  cc_local_containers_pn :: u32
  cc_lanes_per_container :: u32

definition cc_default :: create_context where
  "cc_default = \<lparr>cc_id = uid_get_null, cc_global_containers = 0,
     cc_local_containers_pn = 0, cc_lanes_per_container = 0\<rparr>"

record subdomain_id_range =
  sr_group :: u32
  sr_off :: u32
  sr_count :: u32

definition sr_make :: "u32 \<Rightarrow> u32 \<Rightarrow> u32 \<Rightarrow> subdomain_id_range" where
  "sr_make grp off count = \<lparr>sr_group = grp, sr_off = off, sr_count = count\<rparr>"

definition sr_copy :: "subdomain_id_range \<Rightarrow> subdomain_id_range" where
  "sr_copy other = \<lparr>sr_group = sr_group other, sr_off = sr_off other, sr_count = sr_count other\<rparr>"

record update_domain_info =
  ud_domain :: domain_id
  ud_op :: update_domain_op
  ud_range :: subdomain_id_range

section \<open>DomainSelection\<close>

text \<open>
  The union occupies eight bytes: \<open>hash_\<close>, \<open>id_\<close> and \<open>range_.off_\<close> are its first word,
  \<open>range_.count_\<close> the second, and \<open>int_\<close> is all of it (little-endian, as on the x86-64 and
  ARM64 machines the program is built for). Writing a four-byte member leaves the other
  word as it was.
\<close>

record domain_selection =
  sel_lo :: u32
  sel_hi :: u32

definition sel_int :: "domain_selection \<Rightarrow> u64" where
  "sel_int s = ucast (sel_lo s) OR push_bit 32 (ucast (sel_hi s))"

definition sel_set_int :: "u64 \<Rightarrow> domain_selection" where
  "sel_set_int v = \<lparr>sel_lo = ucast v, sel_hi = ucast (drop_bit 32 v)\<rparr>"

definition sel_set_id :: "u32 \<Rightarrow> domain_selection \<Rightarrow> domain_selection" where
  "sel_set_id v s = s\<lparr>sel_lo := v\<rparr>"

definition sel_set_hash :: "u32 \<Rightarrow> domain_selection \<Rightarrow> domain_selection" where
  "sel_set_hash v s = s\<lparr>sel_lo := v\<rparr>"

definition sel_set_range :: "u32 \<Rightarrow> u32 \<Rightarrow> domain_selection \<Rightarrow> domain_selection" where
  "sel_set_range off count s = s\<lparr>sel_lo := off, sel_hi := count\<rparr>"

definition sel_eq :: "domain_selection \<Rightarrow> domain_selection \<Rightarrow> bool" where
  "sel_eq a b \<longleftrightarrow> sel_int a = sel_int b"

lemma sel_set_int_int [simp]: "sel_set_int (sel_int s) = s"
proof -
  have "ucast (sel_int s) = sel_lo s"
    by (rule bit_eqI) (auto simp: sel_int_def bit_simps)
  moreover have "ucast (drop_bit 32 (sel_int s)) = sel_hi s"
    by (rule bit_eqI) (auto simp: sel_int_def bit_simps dest: bit_imp_le_length)
  ultimately show ?thesis
    by (simp add: sel_set_int_def)
qed

lemma sel_int_set_int [simp]: "sel_int (sel_set_int v) = v"
  by (rule bit_eqI) (auto simp: sel_int_def sel_set_int_def bit_simps not_le)

lemma sel_eq_iff: "sel_eq a b \<longleftrightarrow> sel_lo a = sel_lo b \<and> sel_hi a = sel_hi b"
proof -
  have "sel_eq a b \<longleftrightarrow> a = b"
    by (metis sel_eq_def sel_set_int_int)
  then show ?thesis
    by (auto intro: domain_selection.equality)
qed

section \<open>DomainQuery\<close>

record domain_query =
  dq_flags :: u32
  dq_sub :: u32
  dq_sel :: domain_selection

definition kLocal :: "hshm \<Rightarrow> u32" where "kLocal H = bit_opt H 1"
definition kDirect :: "hshm \<Rightarrow> u32" where "kDirect H = bit_opt H 2"
definition kGlobal :: "hshm \<Rightarrow> u32" where "kGlobal H = bit_opt H 3"
definition kId :: "hshm \<Rightarrow> u32" where "kId H = bit_opt H 4"
definition kHash :: "hshm \<Rightarrow> u32" where "kHash H = bit_opt H 5"
definition kRange :: "hshm \<Rightarrow> u32" where "kRange H = bit_opt H 6"
definition kBroadcast :: "hshm \<Rightarrow> u32" where "kBroadcast H = bit_opt H 15"
definition kRepUntilSuccess :: "hshm \<Rightarrow> u32" where "kRepUntilSuccess H = bit_opt H 18"
definition kChooseOne :: "hshm \<Rightarrow> u32" where "kChooseOne H = bit_opt H 19"
definition kForwardToLeader :: "hshm \<Rightarrow> u32" where "kForwardToLeader H = bit_opt H 17"

definition dq_get_iter_flags :: "hshm \<Rightarrow> domain_query \<Rightarrow> u32" where
  "dq_get_iter_flags H q =
     dq_flags q AND (kBroadcast H OR kRepUntilSuccess H OR kChooseOne H OR kForwardToLeader H)"

text \<open>
  The default constructor initialises \<open>flags_\<close> through the constructor of \<open>bitfield\<close> and
  nothing else: \<open>sub_id_\<close> and \<open>sel_\<close> keep what the memory held.
\<close>

definition dq_default :: "hshm \<Rightarrow> domain_query \<Rightarrow> domain_query" where
  "dq_default H junk = \<lparr>dq_flags = bf_default H, dq_sub = dq_sub junk, dq_sel = dq_sel junk\<rparr>"

definition dq_set_bits :: "hshm \<Rightarrow> u32 \<Rightarrow> domain_query \<Rightarrow> domain_query" where
  "dq_set_bits H m q = q\<lparr>dq_flags := bf_set_bits H (dq_flags q) m\<rparr>"

definition dq_copy :: "domain_query \<Rightarrow> domain_query" where
  "dq_copy other = \<lparr>dq_flags = dq_flags other, dq_sub = dq_sub other, dq_sel = dq_sel other\<rparr>"

definition dq_eq :: "domain_query \<Rightarrow> domain_query \<Rightarrow> bool" where
  "dq_eq a b \<longleftrightarrow> dq_flags a = dq_flags b \<and> dq_sub a = dq_sub b \<and> sel_eq (dq_sel a) (dq_sel b)"

definition dq_get_local_id :: "hshm \<Rightarrow> domain_query \<Rightarrow> u32 \<Rightarrow> u32 \<Rightarrow> domain_query" where
  "dq_get_local_id H junk sub_id i =
     (let q = dq_set_bits H (kLocal H OR kId H) (dq_default H junk);
          q = q\<lparr>dq_sub := sub_id\<rparr>
      in q\<lparr>dq_sel := sel_set_id i (dq_sel q)\<rparr>)"

definition dq_get_global :: "hshm \<Rightarrow> domain_query \<Rightarrow> u32 \<Rightarrow> u32 \<Rightarrow> domain_query" where
  "dq_get_global H junk sub_id iter_flags =
     (let q = dq_set_bits H (kGlobal H OR iter_flags) (dq_default H junk)
      in q\<lparr>dq_sub := sub_id\<rparr>)"

definition dq_get_range ::
    "hshm \<Rightarrow> domain_query \<Rightarrow> u32 \<Rightarrow> u32 \<Rightarrow> u32 \<Rightarrow> u32 \<Rightarrow> domain_query" where
  "dq_get_range H junk sub_id off count iter_flags =
     (let q = dq_set_bits H (kGlobal H OR kRange H OR iter_flags) (dq_default H junk);
          q = q\<lparr>dq_sub := sub_id\<rparr>
      in q\<lparr>dq_sel := sel_set_range off count (dq_sel q)\<rparr>)"

definition dq_get_global_bcast :: "hshm \<Rightarrow> domain_query \<Rightarrow> domain_query" where
  "dq_get_global_bcast H junk =
     (let q = dq_set_bits H (kGlobal H OR kBroadcast H) (dq_default H junk)
      in q\<lparr>dq_sub := kGlobalContainers\<rparr>)"

definition dq_get_direct_id :: "hshm \<Rightarrow> domain_query \<Rightarrow> u32 \<Rightarrow> u32 \<Rightarrow> u32 \<Rightarrow> domain_query" where
  "dq_get_direct_id H junk sub_id i iter_flags =
     (let q = dq_set_bits H (kDirect H OR kId H OR iter_flags) (dq_default H junk);
          q = q\<lparr>dq_sub := sub_id\<rparr>
      in q\<lparr>dq_sel := sel_set_id i (dq_sel q)\<rparr>)"

definition dq_get_direct_hash :: "hshm \<Rightarrow> domain_query \<Rightarrow> u32 \<Rightarrow> u32 \<Rightarrow> u32 \<Rightarrow> domain_query" where
  "dq_get_direct_hash H junk sub_id h iter_flags =
     (let q = dq_set_bits H (kDirect H OR kHash H OR iter_flags) (dq_default H junk);
          q = q\<lparr>dq_sub := sub_id\<rparr>
      in q\<lparr>dq_sel := sel_set_hash h (dq_sel q)\<rparr>)"

definition dq_hash_code :: "(u32 \<Rightarrow> u64) \<Rightarrow> (u64 \<Rightarrow> u64) \<Rightarrow> domain_query \<Rightarrow> u64" where
  "dq_hash_code h32 h64 q = h32 (dq_flags q) + h32 (dq_sub q) + h64 (sel_int (dq_sel q))"

text \<open>The printer: the four chosen words, then the whole text by the library's formatter.\<close>

definition dq_scope_text :: "hshm \<Rightarrow> domain_query \<Rightarrow> string" where
  "dq_scope_text H q =
     (if bf_any H (dq_flags q) (kLocal H) then ''local''
      else if bf_any H (dq_flags q) (kGlobal H) then ''global''
      else if bf_any H (dq_flags q) (kDirect H) then ''direct''
      else '''')"

definition dq_iter_text :: "hshm \<Rightarrow> domain_query \<Rightarrow> string" where
  "dq_iter_text H q =
     (if bf_any H (dq_flags q) (kBroadcast H) then ''broadcast''
      else if bf_any H (dq_flags q) (kRepUntilSuccess H) then ''rep_until_success''
      else if bf_any H (dq_flags q) (kChooseOne H) then ''choose_one''
      else if bf_any H (dq_flags q) (kForwardToLeader H) then ''forward_to_leader''
      else '''')"

definition dq_sel_text :: "hshm \<Rightarrow> domain_query \<Rightarrow> string" where
  "dq_sel_text H q =
     (if bf_any H (dq_flags q) (kId H) then ''id''
      else if bf_any H (dq_flags q) (kHash H) then ''hash''
      else if bf_any H (dq_flags q) (kRange H) then ''range''
      else '''')"

definition dq_range_text :: "hshm \<Rightarrow> domain_query \<Rightarrow> string" where
  "dq_range_text H q =
     (if bf_any H (dq_flags q) (kRange H)
      then to_string_u32 (sel_lo (dq_sel q)) @ '':'' @ to_string_u32 (sel_hi (dq_sel q))
      else if bf_any H (dq_flags q) (kId H) then to_string_u32 (sel_lo (dq_sel q))
      else if bf_any H (dq_flags q) (kHash H) then to_string_u32 (sel_lo (dq_sel q))
      else '''')"

definition dq_print :: "hshm \<Rightarrow> domain_query \<Rightarrow> string" where
  "dq_print H q =
     format_args H ''DomainQuery(iter_algo={}, scope={}, sel={}, range={}, subdom={})''
       [dq_iter_text H q, dq_scope_text H q, dq_sel_text H q, dq_range_text H q,
        to_string_u32 (dq_sub q)]"

interpretation dq: keyed_type dq_eq "dq_hash_code h32 h64"
  for h32 h64
  by unfold_locales (auto simp: dq_eq_def sel_eq_iff dq_hash_code_def sel_int_def)

section \<open>ResolvedDomainQuery\<close>

record resolved_domain_query =
  rq_node :: u32
  rq_dom :: domain_query

definition rq_make :: "u32 \<Rightarrow> domain_query \<Rightarrow> resolved_domain_query" where
  "rq_make node q = \<lparr>rq_node = node, rq_dom = dq_copy q\<rparr>"

definition rq_make_node :: "hshm \<Rightarrow> domain_query \<Rightarrow> u32 \<Rightarrow> resolved_domain_query" where
  "rq_make_node H junk node = \<lparr>rq_node = node, rq_dom = dq_default H junk\<rparr>"

definition rq_copy :: "resolved_domain_query \<Rightarrow> resolved_domain_query" where
  "rq_copy other = \<lparr>rq_node = rq_node other, rq_dom = dq_copy (rq_dom other)\<rparr>"

definition rq_print :: "hshm \<Rightarrow> resolved_domain_query \<Rightarrow> string" where
  "rq_print H r = to_string_u32 (rq_node r) @ '' / '' @ dq_print H (rq_dom r)"

section \<open>Flags of the queries the factories build\<close>

text \<open>With the documented \<open>BIT_OPT\<close>, the flag constants are these numbers.\<close>

lemma dq_flag_values:
  assumes "hshm_bits H"
  shows "kLocal H = 2" "kDirect H = 4" "kGlobal H = 8" "kId H = 16" "kHash H = 32"
    "kRange H = 64" "kBroadcast H = 32768" "kForwardToLeader H = 131072"
    "kRepUntilSuccess H = 262144" "kChooseOne H = 524288"
  using assms
  by (simp_all add: hshm_bits_simps kLocal_def kDirect_def kGlobal_def kId_def kHash_def kRange_def
      kBroadcast_def kForwardToLeader_def kRepUntilSuccess_def kChooseOne_def)

text \<open>An iteration choice: no bit outside the four iteration flags.\<close>

definition dq_iter_only :: "hshm \<Rightarrow> u32 \<Rightarrow> bool" where
  "dq_iter_only H it \<longleftrightarrow>
     it AND (kBroadcast H OR kRepUntilSuccess H OR kChooseOne H OR kForwardToLeader H) = it"

lemmas dq_factories =
  dq_get_local_id_def dq_get_global_def dq_get_range_def dq_get_global_bcast_def
  dq_get_direct_id_def dq_get_direct_hash_def dq_default_def dq_set_bits_def
  sel_set_id_def sel_set_hash_def sel_set_range_def Let_def

lemma iter_only_disjoint:
  assumes "hshm_bits H" and "dq_iter_only H it"
  shows "it AND 2 = 0" "it AND 4 = 0" "it AND 8 = 0" "it AND 16 = 0" "it AND 32 = 0" "it AND 64 = 0"
proof -
  have it: "it = it AND 950272"
    using assms by (simp add: dq_iter_only_def dq_flag_values[OF assms(1)])
  show "it AND 2 = 0" "it AND 4 = 0" "it AND 8 = 0" "it AND 16 = 0" "it AND 32 = 0" "it AND 64 = 0"
    by (subst it, simp add: and.assoc)+
qed

lemmas dq_texts = dq_scope_text_def dq_iter_text_def dq_sel_text_def dq_range_text_def

text \<open>The fields of a factory's result; the first one holds for every library.\<close>

lemma dq_get_local_id_sel:
  "dq_sub (dq_get_local_id H j s i) = s"
  "dq_sel (dq_get_local_id H j s i) = \<lparr>sel_lo = i, sel_hi = sel_hi (dq_sel j)\<rparr>"
  "dq_flags (dq_get_local_id H j s i) = bf_set_bits H (bf_default H) (kLocal H OR kId H)"
  by (simp_all add: dq_factories)

section \<open>Properties\<close>

text \<open>
  C36: the iteration flags read back from a query are the ones its factory was given (and
  only those): the scope and selection bits a factory adds never show up among them, the
  local query has none and the broadcast query exactly \<open>kBroadcast\<close>.
\<close>

theorem dq_iter_flags_of_factories:
  assumes "hshm_bits H"
  shows "dq_get_iter_flags H (dq_get_local_id H j s i) = 0 \<and>
    dq_get_iter_flags H (dq_get_global_bcast H j) = kBroadcast H \<and>
    (let given = it AND (kBroadcast H OR kRepUntilSuccess H OR kChooseOne H OR kForwardToLeader H)
     in dq_get_iter_flags H (dq_get_global H j s it) = given \<and>
        dq_get_iter_flags H (dq_get_range H j s off n it) = given \<and>
        dq_get_iter_flags H (dq_get_direct_id H j s i it) = given \<and>
        dq_get_iter_flags H (dq_get_direct_hash H j s i it) = given)"
  by (simp add: dq_factories dq_get_iter_flags_def dq_flag_values[OF assms] hshm_bits_simps[OF assms]
      bit.conj_disj_distrib2)

definition junk_query :: domain_query where
  "junk_query = \<lparr>dq_flags = 7, dq_sub = 9, dq_sel = \<lparr>sel_lo = 11, sel_hi = 13\<rparr>\<rparr>"

theorem dq_iter_flags_of_factories_witness:
  "dq_get_iter_flags sample_hshm (dq_get_range sample_hshm junk_query 1 4 2 32768) = 32768"
  using dq_iter_flags_of_factories[OF sample_hshm_bits, of junk_query 1 0 32768 4 2]
  by (simp add: dq_flag_values[OF sample_hshm_bits] Let_def)

text \<open>
  What a query prints as. Given only iteration flags, each factory's query shows its
  own scope, its own kind of selection and the selected id, hash or \<open>offset:count\<close>; a
  global query shows an empty selection.
\<close>

lemma dq_texts_of_factories:
  assumes "hshm_bits H" and "dq_iter_only H it"
  shows "(let q = dq_get_local_id H j s i
          in dq_scope_text H q = ''local'' \<and> dq_iter_text H q = [] \<and>
             dq_sel_text H q = ''id'' \<and> dq_range_text H q = to_string_u32 i) \<and>
         (let q = dq_get_global H j s it
          in dq_scope_text H q = ''global'' \<and> dq_sel_text H q = [] \<and> dq_range_text H q = []) \<and>
         (let q = dq_get_range H j s off n it
          in dq_scope_text H q = ''global'' \<and> dq_sel_text H q = ''range'' \<and>
             dq_range_text H q = to_string_u32 off @ '':'' @ to_string_u32 n) \<and>
         (let q = dq_get_direct_id H j s i it
          in dq_scope_text H q = ''direct'' \<and> dq_sel_text H q = ''id'' \<and>
             dq_range_text H q = to_string_u32 i) \<and>
         (let q = dq_get_direct_hash H j s i it
          in dq_scope_text H q = ''direct'' \<and> dq_sel_text H q = ''hash'' \<and>
             dq_range_text H q = to_string_u32 i)"
  by (simp add: dq_texts dq_factories dq_flag_values[OF assms(1)] hshm_bits_simps[OF assms(1)]
      bit.conj_disj_distrib2 iter_only_disjoint[OF assms])

text \<open>
  C37: \<open>GetLocalId\<close> and \<open>GetDirectId\<close> write four of the eight bytes that \<open>operator==\<close> and
  \<open>Hash\<close> read. Two local queries built with the same library compare equal exactly when
  their subdomain and id agree and the memory they were built in held the same upper word,
  so equal arguments do not give equal queries; range queries do not depend on the memory.
\<close>

theorem dq_eq_depends_on_memory:
  "(dq_eq (dq_get_local_id H j s i) (dq_get_local_id H k s' i') \<longleftrightarrow>
      s = s' \<and> i = i' \<and> sel_hi (dq_sel j) = sel_hi (dq_sel k)) \<and>
   (dq_eq (dq_get_direct_id H j s i it) (dq_get_direct_id H k s' i' it) \<longleftrightarrow>
      s = s' \<and> i = i' \<and> sel_hi (dq_sel j) = sel_hi (dq_sel k)) \<and>
   (dq_eq (dq_get_range H j s off n it) (dq_get_range H k s' off' n' it) \<longleftrightarrow>
      s = s' \<and> off = off' \<and> n = n')"
  by (auto simp: dq_eq_def sel_eq_iff dq_factories)

end
