(* ===== verification/Chi_Serial.thy ===== *)
theory Chi_Serial
  imports Chi_Domain
begin

text \<open>
  The \<open>serialize\<close> templates of \<open>chimaera_types.h\<close>. One template serves both directions, so
  each is one definition over an archive: with an output archive it appends to the buffer
  and leaves the object alone, with an input archive it consumes the buffer and replaces
  the object's fields. The archive (cereal, or thallium's own) is third-party code: a record
  of operations on the buffer for the primitive types the program serializes, among them
  the library's \<open>bitfield\<close> and an \<open>enum class\<close>. \<open>archive_pair\<close> is the documented law of a
  matching output and input archive. The interface \<open>codec\<close> is what a type's \<open>serialize\<close> owes
  to the code that sends it: reading back consumes exactly what was written and gives
  \<open>keep sent old\<close>; it is interpreted on every serializable type of the header.
\<close>

section \<open>Archives\<close>

record 'b archive =
  ar_u32 :: "'b list \<Rightarrow> u32 \<Rightarrow> exn + ('b list \<times> u32)"
  ar_u64 :: "'b list \<Rightarrow> u64 \<Rightarrow> exn + ('b list \<times> u64)"
  ar_bits :: "'b list \<Rightarrow> u32 \<Rightarrow> exn + ('b list \<times> u32)"
  ar_op :: "'b list \<Rightarrow> update_domain_op \<Rightarrow> exn + ('b list \<times> update_domain_op)"
  ar_string :: "'b list \<Rightarrow> string \<Rightarrow> exn + ('b list \<times> string)"

text \<open>
  \<open>serial_ok Out In ser keep\<close>: what \<open>ser\<close> writes for \<open>x\<close> is some code that does not depend on
  the buffer, writing leaves \<open>x\<close> as it was, and reading at that code consumes exactly it
  and turns the old object \<open>y\<close> into \<open>keep x y\<close>.
\<close>

definition serial_ok ::
    "'b archive \<Rightarrow> 'b archive \<Rightarrow>
     ('b archive \<Rightarrow> 'b list \<Rightarrow> 'a \<Rightarrow> exn + ('b list \<times> 'a)) \<Rightarrow> ('a \<Rightarrow> 'a \<Rightarrow> 'a) \<Rightarrow> bool" where
  "serial_ok Out In ser keep \<longleftrightarrow>
     (\<exists>code. (\<forall>s x. ser Out s x = Inr (s @ code x, x)) \<and>
             (\<forall>t x y. ser In (code x @ t) y = Inr (t, keep x y)))"

abbreviation replaced :: "'a \<Rightarrow> 'a \<Rightarrow> 'a" where
  "replaced x y \<equiv> x"

definition archive_pair :: "'b archive \<Rightarrow> 'b archive \<Rightarrow> bool" where
  "archive_pair Out In \<longleftrightarrow>
     serial_ok Out In ar_u32 replaced \<and> serial_ok Out In ar_u64 replaced \<and>
     serial_ok Out In ar_bits replaced \<and> serial_ok Out In ar_op replaced \<and>
     serial_ok Out In ar_string replaced"

lemma serial_okI:
  "(\<And>s x. ser Out s x = Inr (s @ code x, x)) \<Longrightarrow>
   (\<And>t x y. ser In (code x @ t) y = Inr (t, keep x y)) \<Longrightarrow> serial_ok Out In ser keep"
  unfolding serial_ok_def by blast

lemma serial_okE:
  assumes "serial_ok Out In ser keep"
  obtains code where "\<And>s x. ser Out s x = Inr (s @ code x, x)"
    and "\<And>t x y. ser In (code x @ t) y = Inr (t, keep x y)"
  using assms unfolding serial_ok_def by blast

lemma archive_pairE:
  assumes "archive_pair Out In"
  obtains c32 c64 cb cop cs where
    "\<And>s x. ar_u32 Out s x = Inr (s @ c32 x, x)" "\<And>t x y. ar_u32 In (c32 x @ t) y = Inr (t, x)"
    "\<And>s x. ar_u64 Out s x = Inr (s @ c64 x, x)" "\<And>t x y. ar_u64 In (c64 x @ t) y = Inr (t, x)"
    "\<And>s x. ar_bits Out s x = Inr (s @ cb x, x)" "\<And>t x y. ar_bits In (cb x @ t) y = Inr (t, x)"
    "\<And>s x. ar_op Out s x = Inr (s @ cop x, x)" "\<And>t x y. ar_op In (cop x @ t) y = Inr (t, x)"
    "\<And>s x. ar_string Out s x = Inr (s @ cs x, x)" "\<And>t x y. ar_string In (cs x @ t) y = Inr (t, x)"
  using assms unfolding archive_pair_def by (elim conjE serial_okE) blast

section \<open>The interface of serializable types\<close>

locale codec =
  fixes ser :: "'b archive \<Rightarrow> 'b list \<Rightarrow> 'a \<Rightarrow> exn + ('b list \<times> 'a)"
    and keep :: "'a \<Rightarrow> 'a \<Rightarrow> 'a"
  assumes codec_law: "archive_pair Out In \<Longrightarrow> serial_ok Out In ser keep"
begin

lemma load_after_save:
  assumes "archive_pair Out In" and "ser Out [] x = Inr (buf, x')"
  shows "x' = x \<and> ser In (buf @ rest) y = Inr (rest, keep x y)"
  using codec_law[OF assms(1)] assms(2) by (auto elim!: serial_okE)

lemma save_appends:
  assumes "archive_pair Out In"
  shows "\<exists>code. ser Out s x = Inr (s @ code, x) \<and> ser Out [] x = Inr (code, x)"
  using codec_law[OF assms] by (auto elim!: serial_okE)

text \<open>A sequence of objects, written and then read in the same order.\<close>

lemma sequence_ok:
  assumes "archive_pair Out In"
  shows "\<exists>code. (\<forall>s. foldl (\<lambda>r x. rbind r (\<lambda>b. map_sum id fst (ser Out b x))) (Inr s) xs = Inr (s @ code)) \<and>
    (\<forall>t ys. length ys = length xs \<longrightarrow>
       foldl (\<lambda>r y. rbind r (\<lambda>(b, zs). rbind (ser In b y) (\<lambda>(b', z). Inr (b', zs @ [z])))) (Inr (code @ t, zs0)) ys
       = Inr (t, zs0 @ map2 keep xs ys))"
proof (rule serial_okE[OF codec_law[OF assms]], goal_cases)
  case (1 code)
  have w: "foldl (\<lambda>r x. rbind r (\<lambda>b. map_sum id fst (ser Out b x))) (Inr s) xs = Inr (s @ concat (map code xs))" for s
    by (induction xs arbitrary: s) (simp_all add: 1(1))
  have r: "length ys = length xs \<Longrightarrow>
       foldl (\<lambda>r y. rbind r (\<lambda>(b, zs). rbind (ser In b y) (\<lambda>(b', z). Inr (b', zs @ [z]))))
         (Inr (concat (map code xs) @ t, zs)) ys = Inr (t, zs @ map2 keep xs ys)" for t ys zs
    by (induction xs ys arbitrary: zs rule: list_induct2') (simp_all add: 1(2))
  from w r show ?case by blast
qed

end

text \<open>Types whose input side replaces the whole object: saving and loading is the identity.\<close>

locale full_codec = codec ser keep
  for ser :: "'b archive \<Rightarrow> 'b list \<Rightarrow> 'a \<Rightarrow> exn + ('b list \<times> 'a)" and keep :: "'a \<Rightarrow> 'a \<Rightarrow> 'a" +
  assumes keep_full: "keep x y = x"
begin

lemma roundtrip:
  assumes "archive_pair Out In"
  shows "\<exists>buf. ser Out [] x = Inr (buf, x) \<and> ser In (buf @ rest) y = Inr (rest, x)"
  using codec_law[OF assms] by (auto elim!: serial_okE simp: keep_full)

lemma save_inject:
  assumes "archive_pair Out In" and "ser Out [] x = Inr (buf, x1)" and "ser Out [] y = Inr (buf, y1)"
  shows "x = y"
  using load_after_save[OF assms(1,2), of "[]" x] load_after_save[OF assms(1,3), of "[]" x]
  by (simp add: keep_full)

end

section \<open>The serialize templates\<close>

definition uid_serialize :: "'b archive \<Rightarrow> 'b list \<Rightarrow> unique_id \<Rightarrow> exn + ('b list \<times> unique_id)" where
  "uid_serialize ar s x =
     rbind (ar_u32 ar s (uid_node x)) (\<lambda>(s, node).
     rbind (ar_u32 ar s (uid_hash x)) (\<lambda>(s, h).
     rbind (ar_u64 ar s (uid_unique x)) (\<lambda>(s, unique).
     Inr (s, x\<lparr>uid_node := node, uid_hash := h, uid_unique := unique\<rparr>))))"

definition cc_serialize :: "'b archive \<Rightarrow> 'b list \<Rightarrow> create_context \<Rightarrow> exn + ('b list \<times> create_context)" where
  "cc_serialize ar s x =
     rbind (uid_serialize ar s (cc_id x)) (\<lambda>(s, i).
     rbind (ar_u32 ar s (cc_global_containers x)) (\<lambda>(s, g).
     rbind (ar_u32 ar s (cc_local_containers_pn x)) (\<lambda>(s, l).
     rbind (ar_u32 ar s (cc_lanes_per_container x)) (\<lambda>(s, n).
     Inr (s, x\<lparr>cc_id := i, cc_global_containers := g,
               cc_local_containers_pn := l, cc_lanes_per_container := n\<rparr>)))))"

definition sd_serialize :: "'b archive \<Rightarrow> 'b list \<Rightarrow> subdomain_id \<Rightarrow> exn + ('b list \<times> subdomain_id)" where
  "sd_serialize ar s x =
     rbind (ar_u32 ar s (sd_major x)) (\<lambda>(s, major).
     rbind (ar_u32 ar s (sd_minor x)) (\<lambda>(s, minor).
     Inr (s, x\<lparr>sd_major := major, sd_minor := minor\<rparr>)))"

definition dom_serialize :: "'b archive \<Rightarrow> 'b list \<Rightarrow> domain_id \<Rightarrow> exn + ('b list \<times> domain_id)" where
  "dom_serialize ar s x =
     rbind (uid_serialize ar s (dom_scope x)) (\<lambda>(s, scope).
     rbind (sd_serialize ar s (dom_sub x)) (\<lambda>(s, sub).
     Inr (s, x\<lparr>dom_scope := scope, dom_sub := sub\<rparr>)))"

definition sel_serialize :: "'b archive \<Rightarrow> 'b list \<Rightarrow> domain_selection \<Rightarrow> exn + ('b list \<times> domain_selection)" where
  "sel_serialize ar s x = rbind (ar_u64 ar s (sel_int x)) (\<lambda>(s, v). Inr (s, sel_set_int v))"

definition sr_serialize :: "'b archive \<Rightarrow> 'b list \<Rightarrow> subdomain_id_range \<Rightarrow> exn + ('b list \<times> subdomain_id_range)" where
  "sr_serialize ar s x =
     rbind (ar_u32 ar s (sr_group x)) (\<lambda>(s, grp).
     rbind (ar_u32 ar s (sr_off x)) (\<lambda>(s, off).
     rbind (ar_u32 ar s (sr_count x)) (\<lambda>(s, count).
     Inr (s, x\<lparr>sr_group := grp, sr_off := off, sr_count := count\<rparr>))))"

definition ud_serialize :: "'b archive \<Rightarrow> 'b list \<Rightarrow> update_domain_info \<Rightarrow> exn + ('b list \<times> update_domain_info)" where
  "ud_serialize ar s x =
     rbind (dom_serialize ar s (ud_domain x)) (\<lambda>(s, d).
     rbind (ar_op ar s (ud_op x)) (\<lambda>(s, op).
     rbind (sr_serialize ar s (ud_range x)) (\<lambda>(s, r).
     Inr (s, x\<lparr>ud_domain := d, ud_op := op, ud_range := r\<rparr>))))"

definition dq_serialize :: "'b archive \<Rightarrow> 'b list \<Rightarrow> domain_query \<Rightarrow> exn + ('b list \<times> domain_query)" where
  "dq_serialize ar s x =
     rbind (ar_bits ar s (dq_flags x)) (\<lambda>(s, fl).
     rbind (ar_u32 ar s (dq_sub x)) (\<lambda>(s, sub).
     rbind (sel_serialize ar s (dq_sel x)) (\<lambda>(s, sel).
     Inr (s, x\<lparr>dq_flags := fl, dq_sub := sub, dq_sel := sel\<rparr>))))"

definition rq_serialize :: "'b archive \<Rightarrow> 'b list \<Rightarrow> resolved_domain_query \<Rightarrow> exn + ('b list \<times> resolved_domain_query)" where
  "rq_serialize ar s x =
     rbind (ar_u32 ar s (rq_node x)) (\<lambda>(s, node).
     rbind (dq_serialize ar s (rq_dom x)) (\<lambda>(s, d).
     Inr (s, x\<lparr>rq_node := node, rq_dom := d\<rparr>)))"

section \<open>Every template meets the interface\<close>

lemma uid_serial_ok: "archive_pair Out In \<Longrightarrow> serial_ok Out In uid_serialize replaced"
proof (erule archive_pairE, goal_cases)
  case (1 c32 c64 cb cop cs)
  show ?case
    by (rule serial_okI[where code = "\<lambda>x. c32 (uid_node x) @ c32 (uid_hash x) @ c64 (uid_unique x)"])
      (simp_all add: uid_serialize_def 1)
qed

interpretation uid_codec: full_codec uid_serialize replaced
  by unfold_locales (simp_all add: uid_serial_ok)

lemma sd_serial_ok: "archive_pair Out In \<Longrightarrow> serial_ok Out In sd_serialize replaced"
proof (erule archive_pairE, goal_cases)
  case (1 c32 c64 cb cop cs)
  show ?case
    by (rule serial_okI[where code = "\<lambda>x. c32 (sd_major x) @ c32 (sd_minor x)"])
      (simp_all add: sd_serialize_def 1)
qed

interpretation sd_codec: full_codec sd_serialize replaced
  by unfold_locales (simp_all add: sd_serial_ok)

lemma sel_serial_ok: "archive_pair Out In \<Longrightarrow> serial_ok Out In sel_serialize replaced"
proof (erule archive_pairE, goal_cases)
  case (1 c32 c64 cb cop cs)
  show ?case
    by (rule serial_okI[where code = "\<lambda>x. c64 (sel_int x)"]) (simp_all add: sel_serialize_def 1)
qed

interpretation sel_codec: full_codec sel_serialize replaced
  by unfold_locales (simp_all add: sel_serial_ok)

lemma sr_serial_ok: "archive_pair Out In \<Longrightarrow> serial_ok Out In sr_serialize replaced"
proof (erule archive_pairE, goal_cases)
  case (1 c32 c64 cb cop cs)
  show ?case
    by (rule serial_okI[where code = "\<lambda>x. c32 (sr_group x) @ c32 (sr_off x) @ c32 (sr_count x)"])
      (simp_all add: sr_serialize_def 1)
qed

interpretation sr_codec: full_codec sr_serialize replaced
  by unfold_locales (simp_all add: sr_serial_ok)

lemma cc_serial_ok:
  assumes "archive_pair Out In"
  shows "serial_ok Out In cc_serialize replaced"
proof (rule archive_pairE[OF assms], rule serial_okE[OF uid_codec.codec_law[OF assms]], goal_cases)
  case (1 c32 c64 cb cop cs cid)
  show ?case
    by (rule serial_okI[where code = "\<lambda>x. cid (cc_id x) @ c32 (cc_global_containers x) @
          c32 (cc_local_containers_pn x) @ c32 (cc_lanes_per_container x)"])
      (simp_all add: cc_serialize_def 1)
qed

interpretation cc_codec: full_codec cc_serialize replaced
  by unfold_locales (simp_all add: cc_serial_ok)

lemma dom_serial_ok:
  assumes "archive_pair Out In"
  shows "serial_ok Out In dom_serialize replaced"
proof (rule serial_okE[OF uid_codec.codec_law[OF assms]],
    rule serial_okE[OF sd_codec.codec_law[OF assms]], goal_cases)
  case (1 cid csd)
  show ?case
    by (rule serial_okI[where code = "\<lambda>x. cid (dom_scope x) @ csd (dom_sub x)"])
      (simp_all add: dom_serialize_def 1)
qed

interpretation dom_codec: full_codec dom_serialize replaced
  by unfold_locales (simp_all add: dom_serial_ok)

lemma ud_serial_ok:
  assumes "archive_pair Out In"
  shows "serial_ok Out In ud_serialize replaced"
proof (rule archive_pairE[OF assms], rule serial_okE[OF dom_codec.codec_law[OF assms]],
    rule serial_okE[OF sr_codec.codec_law[OF assms]], goal_cases)
  case (1 c32 c64 cb cop cs cd cr)
  show ?case
    by (rule serial_okI[where code = "\<lambda>x. cd (ud_domain x) @ cop (ud_op x) @ cr (ud_range x)"])
      (simp_all add: ud_serialize_def 1)
qed

interpretation ud_codec: full_codec ud_serialize replaced
  by unfold_locales (simp_all add: ud_serial_ok)

lemma dq_serial_ok:
  assumes "archive_pair Out In"
  shows "serial_ok Out In dq_serialize replaced"
proof (rule archive_pairE[OF assms], rule serial_okE[OF sel_codec.codec_law[OF assms]], goal_cases)
  case (1 c32 c64 cb cop cs csel)
  show ?case
    by (rule serial_okI[where code = "\<lambda>x. cb (dq_flags x) @ c32 (dq_sub x) @ csel (dq_sel x)"])
      (simp_all add: dq_serialize_def 1)
qed

interpretation dq_codec: full_codec dq_serialize replaced
  by unfold_locales (simp_all add: dq_serial_ok)

lemma rq_serial_ok:
  assumes "archive_pair Out In"
  shows "serial_ok Out In rq_serialize replaced"
proof (rule archive_pairE[OF assms], rule serial_okE[OF dq_codec.codec_law[OF assms]], goal_cases)
  case (1 c32 c64 cb cop cs cq)
  show ?case
    by (rule serial_okI[where code = "\<lambda>x. c32 (rq_node x) @ cq (rq_dom x)"])
      (simp_all add: rq_serialize_def 1)
qed

interpretation rq_codec: full_codec rq_serialize replaced
  by unfold_locales (simp_all add: rq_serial_ok)

section \<open>Properties\<close>

text \<open>
  A concrete archive for the witnesses: the buffer is a list of tagged values.
\<close>

datatype token = T32 u32 | T64 u64 | TBits u32 | TOp update_domain_op | TStr string | TLen nat

definition token_out :: "token archive" where
  "token_out =
     \<lparr>ar_u32 = (\<lambda>s x. Inr (s @ [T32 x], x)), ar_u64 = (\<lambda>s x. Inr (s @ [T64 x], x)),
      ar_bits = (\<lambda>s x. Inr (s @ [TBits x], x)), ar_op = (\<lambda>s x. Inr (s @ [TOp x], x)),
      ar_string = (\<lambda>s x. Inr (s @ [TStr x], x))\<rparr>"

definition token_in :: "token archive" where
  "token_in =
     \<lparr>ar_u32 = (\<lambda>s y. case s of T32 x # t \<Rightarrow> Inr (t, x) | _ \<Rightarrow> Inl Std_exn),
      ar_u64 = (\<lambda>s y. case s of T64 x # t \<Rightarrow> Inr (t, x) | _ \<Rightarrow> Inl Std_exn),
      ar_bits = (\<lambda>s y. case s of TBits x # t \<Rightarrow> Inr (t, x) | _ \<Rightarrow> Inl Std_exn),
      ar_op = (\<lambda>s y. case s of TOp x # t \<Rightarrow> Inr (t, x) | _ \<Rightarrow> Inl Std_exn),
      ar_string = (\<lambda>s y. case s of TStr x # t \<Rightarrow> Inr (t, x) | _ \<Rightarrow> Inl Std_exn)\<rparr>"

lemma token_pair: "archive_pair token_out token_in"
proof -
  have "serial_ok token_out token_in ar_u32 replaced"
    by (rule serial_okI[where code = "\<lambda>x. [T32 x]"]) (simp_all add: token_out_def token_in_def)
  moreover have "serial_ok token_out token_in ar_u64 replaced"
    by (rule serial_okI[where code = "\<lambda>x. [T64 x]"]) (simp_all add: token_out_def token_in_def)
  moreover have "serial_ok token_out token_in ar_bits replaced"
    by (rule serial_okI[where code = "\<lambda>x. [TBits x]"]) (simp_all add: token_out_def token_in_def)
  moreover have "serial_ok token_out token_in ar_op replaced"
    by (rule serial_okI[where code = "\<lambda>x. [TOp x]"]) (simp_all add: token_out_def token_in_def)
  moreover have "serial_ok token_out token_in ar_string replaced"
    by (rule serial_okI[where code = "\<lambda>x. [TStr x]"]) (simp_all add: token_out_def token_in_def)
  ultimately show ?thesis
    by (simp add: archive_pair_def)
qed

text \<open>
  C31: for every matching pair of archives, a resolved domain query (node, flags, subdomain
  and the eight selection bytes) that is saved and then loaded into any other object comes
  back unchanged, and the load leaves the rest of the buffer for the next object.
\<close>

theorem resolved_query_roundtrip:
  assumes "archive_pair Out In"
  shows "\<exists>buf. rq_serialize Out [] x = Inr (buf, x) \<and>
               rq_serialize In (buf @ rest) y = Inr (rest, x)"
  by (rule rq_codec.roundtrip[OF assms])

definition sample_rq :: resolved_domain_query where
  "sample_rq = \<lparr>rq_node = 3, rq_dom = dq_get_range sample_hshm junk_query 1 4 2 32768\<rparr>"

theorem resolved_query_roundtrip_witness:
  "\<exists>buf. rq_serialize token_out [] sample_rq = Inr (buf, sample_rq) \<and>
         rq_serialize token_in (buf @ [T32 5]) (rq_make 0 junk_query) = Inr ([T32 5], sample_rq)"
  by (rule resolved_query_roundtrip[OF token_pair])

text \<open>
  C32: an \<open>UpdateDomainInfo\<close> (the scoped domain with its pool id, the operation, the range)
  survives a save and a load, and no two different ones are saved as the same bytes.
\<close>

theorem update_domain_roundtrip:
  assumes "archive_pair Out In"
  shows "(\<exists>buf. ud_serialize Out [] x = Inr (buf, x) \<and>
                ud_serialize In (buf @ rest) y = Inr (rest, x)) \<and>
         (ud_serialize Out [] x = ud_serialize Out [] z \<longrightarrow> x = z)"
proof
  show "\<exists>buf. ud_serialize Out [] x = Inr (buf, x) \<and> ud_serialize In (buf @ rest) y = Inr (rest, x)"
    by (rule ud_codec.roundtrip[OF assms])
  obtain bz where z: "ud_serialize Out [] z = Inr (bz, z)"
    using ud_codec.roundtrip[OF assms, of z] by blast
  show "ud_serialize Out [] x = ud_serialize Out [] z \<longrightarrow> x = z"
    using ud_codec.save_inject[OF assms, of x bz z z z] z by simp
qed

definition sample_ud :: "u32 \<Rightarrow> update_domain_info" where
  "sample_ud n =
     \<lparr>ud_domain = dom_make_minor (uid_make 1 7) kLocalContainers 2, ud_op = KExpand,
      ud_range = sr_make kLocalContainers 0 n\<rparr>"

theorem update_domain_roundtrip_witness:
  "ud_serialize token_out [] (sample_ud 4) \<noteq> ud_serialize token_out [] (sample_ud 5)"
proof -
  have "sample_ud 4 \<noteq> sample_ud 5"
    by (simp add: sample_ud_def sr_make_def)
  then show ?thesis
    using update_domain_roundtrip[OF token_pair, of "sample_ud 4" "[]" "sample_ud 4" "sample_ud 5"]
    by blast
qed

end
