(* ===== verification/Cache_Timer.thy ===== *)
theory Cache_Timer
  imports Net_Prelude
begin

text \<open>
  \<open>CacheTimer\<close> of \<open>chimaera_types.h\<close>: a stopwatch on a cached clock, all in \<open>size_t\<close>
  (64 bits, wrapping). The clock behind \<open>Refresh\<close> is the library's \<open>hshm::Timer\<close>, so its
  reading is an argument. The specification is a stopwatch over unbounded numbers.
\<close>

record cache_timer =
  ct_cur_ns :: u64
  ct_start_ns :: u64
  ct_net_ns :: u64

definition ct_new :: cache_timer where
  "ct_new = \<lparr>ct_cur_ns = 0, ct_start_ns = 0, ct_net_ns = 0\<rparr>"

definition ct_wrap :: "cache_timer \<Rightarrow> cache_timer \<Rightarrow> cache_timer" where
  "ct_wrap other t = t\<lparr>ct_cur_ns := ct_cur_ns other\<rparr>"

definition ct_refresh :: "u64 \<Rightarrow> cache_timer \<Rightarrow> cache_timer" where
  "ct_refresh reading t = t\<lparr>ct_cur_ns := reading\<rparr>"

definition ct_tick :: "u64 \<Rightarrow> cache_timer \<Rightarrow> cache_timer" where
  "ct_tick nanosec t = t\<lparr>ct_cur_ns := ct_cur_ns t + nanosec\<rparr>"

definition ct_get_nsec_from_start :: "cache_timer \<Rightarrow> u64" where
  "ct_get_nsec_from_start t = ct_cur_ns t - ct_start_ns t"

definition ct_get_nsec_from :: "u64 \<Rightarrow> cache_timer \<Rightarrow> u64" where
  "ct_get_nsec_from start t = (if start < ct_cur_ns t then ct_cur_ns t - start else 0)"

definition ct_get_nsec :: "cache_timer \<Rightarrow> u64" where
  "ct_get_nsec t = ct_net_ns t"

definition ct_resume :: "cache_timer \<Rightarrow> cache_timer" where
  "ct_resume t = t\<lparr>ct_start_ns := ct_cur_ns t\<rparr>"

definition ct_pause :: "cache_timer \<Rightarrow> cache_timer" where
  "ct_pause t =
     (let t = t\<lparr>ct_net_ns := ct_net_ns t + (ct_cur_ns t - ct_start_ns t)\<rparr>
      in t\<lparr>ct_start_ns := ct_cur_ns t\<rparr>)"

definition ct_reset :: "cache_timer \<Rightarrow> cache_timer" where
  "ct_reset t = t\<lparr>ct_start_ns := ct_cur_ns t, ct_net_ns := 0\<rparr>"

section \<open>Runs and their specification\<close>

text \<open>
  What a user does with the timer: \<open>Wrap\<close> and \<open>Refresh\<close> move the cached clock to a reading.
\<close>

datatype timer_event = TRefresh u64 | TWrap cache_timer | TTick u64 | TResume | TPause | TReset

fun timer_step :: "cache_timer \<Rightarrow> timer_event \<Rightarrow> cache_timer" where
  "timer_step t (TRefresh r) = ct_refresh r t"
| "timer_step t (TWrap other) = ct_wrap other t"
| "timer_step t (TTick n) = ct_tick n t"
| "timer_step t TResume = ct_resume t"
| "timer_step t TPause = ct_pause t"
| "timer_step t TReset = ct_reset t"

definition timer_run :: "cache_timer \<Rightarrow> timer_event list \<Rightarrow> cache_timer" where
  "timer_run = foldl timer_step"

text \<open>
  The specification: the time of the clock, the time since the last mark (a resume, pause or
  reset) and the time measured so far, over the integers. A refresh to a reading moves the
  clock there, possibly backwards.
\<close>

record stopwatch =
  sw_now :: int
  sw_lap :: int
  sw_total :: int

fun stopwatch_step :: "stopwatch \<Rightarrow> timer_event \<Rightarrow> stopwatch" where
  "stopwatch_step s (TRefresh r) = s\<lparr>sw_now := uint r, sw_lap := sw_lap s + (uint r - sw_now s)\<rparr>"
| "stopwatch_step s (TWrap other) =
     s\<lparr>sw_now := uint (ct_cur_ns other), sw_lap := sw_lap s + (uint (ct_cur_ns other) - sw_now s)\<rparr>"
| "stopwatch_step s (TTick n) = s\<lparr>sw_now := sw_now s + uint n, sw_lap := sw_lap s + uint n\<rparr>"
| "stopwatch_step s TResume = s\<lparr>sw_lap := 0\<rparr>"
| "stopwatch_step s TPause = s\<lparr>sw_total := sw_total s + sw_lap s, sw_lap := 0\<rparr>"
| "stopwatch_step s TReset = s\<lparr>sw_total := 0, sw_lap := 0\<rparr>"

definition stopwatch_run :: "stopwatch \<Rightarrow> timer_event list \<Rightarrow> stopwatch" where
  "stopwatch_run = foldl stopwatch_step"

definition stopwatch_new :: stopwatch where
  "stopwatch_new = \<lparr>sw_now = 0, sw_lap = 0, sw_total = 0\<rparr>"

definition timer_abs :: "cache_timer \<Rightarrow> stopwatch \<Rightarrow> bool" where
  "timer_abs t s \<longleftrightarrow>
     ct_cur_ns t = word_of_int (sw_now s) \<and>
     ct_cur_ns t - ct_start_ns t = word_of_int (sw_lap s) \<and>
     ct_net_ns t = word_of_int (sw_total s)"

lemmas ct_defs =
  ct_refresh_def ct_wrap_def ct_tick_def ct_resume_def ct_pause_def ct_reset_def Let_def

lemma timer_step_abs:
  assumes "timer_abs t s"
  shows "timer_abs (timer_step t e) (stopwatch_step s e)"
proof -
  have "of_int (sw_now s) = ct_cur_ns t" "of_int (sw_lap s) = ct_cur_ns t - ct_start_ns t"
    "of_int (sw_total s) = ct_net_ns t"
    using assms unfolding timer_abs_def by metis+
  then show ?thesis
    by (cases e) (simp_all add: timer_abs_def ct_defs)
qed

lemma timer_run_abs: "timer_abs t s \<Longrightarrow> timer_abs (timer_run t es) (stopwatch_run s es)"
  unfolding timer_run_def stopwatch_run_def
  by (induction es arbitrary: t s) (simp_all add: timer_step_abs)

lemma timer_new_abs: "timer_abs ct_new stopwatch_new"
  by (simp add: timer_abs_def ct_new_def stopwatch_new_def)

section \<open>Properties\<close>

text \<open>
  C34: the timer refines the stopwatch. After any sequence of its operations from a new
  timer, \<open>GetNsecFromStart()\<close> and \<open>GetNsec()\<close> are the stopwatch's lap and total modulo
  \<open>2^64\<close>; the one-argument \<open>GetNsecFromStart(start)\<close> is the clock minus \<open>start\<close> cut off at 0.
\<close>

theorem timer_refines_stopwatch:
  "(let t = timer_run ct_new es; s = stopwatch_run stopwatch_new es
    in ct_get_nsec_from_start t = word_of_int (sw_lap s) \<and>
       ct_get_nsec t = word_of_int (sw_total s) \<and>
       uint (ct_get_nsec_from start t) = max 0 (uint (ct_cur_ns t) - uint start))"
proof -
  have "uint (ct_get_nsec_from start t) = max 0 (uint (ct_cur_ns t) - uint start)" for t
    by (auto simp: ct_get_nsec_from_def word_less_def uint_sub_lem[THEN iffD1])
  moreover have "timer_abs (timer_run ct_new es) (stopwatch_run stopwatch_new es)"
    by (rule timer_run_abs[OF timer_new_abs])
  ultimately show ?thesis
    unfolding timer_abs_def Let_def ct_get_nsec_from_start_def ct_get_nsec_def by blast
qed

end
