(* ===== verification/Server_Config.thy ===== *)
theory Server_Config
  imports Hshm_Lib
begin

text \<open>
  \<open>RpcInfo\<close> and \<open>ServerConfig\<close> of \<open>include/test_networks/config_server.h\<close> with the two
  command lines (\<open>BenchmarkInit\<close>, \<open>PingInit\<close>), and the argument list that the launcher
  \<open>pkg.py\<close> builds for the benchmark. Path expansion, the host file and size suffixes are
  parsed by the library and so are parameters.
\<close>

record rpc_info =
  ri_host_file :: string
  ri_host_names :: "string list"
  ri_protocol :: string
  ri_domain :: string
  ri_port :: int
  ri_num_threads :: int

record server_config =
  sc_rpc :: rpc_info
  sc_io_size :: u64
  sc_md_size :: u64
  sc_rep :: u64
  sc_sleep :: u64
  sc_test :: string
  sc_local_only :: bool

definition sc_upd_rpc :: "(rpc_info \<Rightarrow> rpc_info) \<Rightarrow> server_config \<Rightarrow> server_config" where
  "sc_upd_rpc f c = c\<lparr>sc_rpc := f (sc_rpc c)\<rparr>"

text \<open>\<open>argv[i]\<close>: past the last argument there is a null pointer, which no \<open>std::string\<close> may be built from.\<close>

definition argv_at :: "string list \<Rightarrow> nat \<Rightarrow> failure + string" where
  "argv_at argv i = (if i < length argv then Inr (argv ! i) else Inl Undef)"

text \<open>The host names: those of the host file when one is named, else one more \<open>localhost\<close>.\<close>

definition sc_load_hosts :: "hshm \<Rightarrow> string \<Rightarrow> server_config \<Rightarrow> server_config" where
  "sc_load_hosts H arg c =
     (let c = sc_upd_rpc (\<lambda>r. r\<lparr>ri_host_file := expand_path H arg\<rparr>) c;
          file = ri_host_file (sc_rpc c)
      in if length file > 0
         then sc_upd_rpc (\<lambda>r. r\<lparr>ri_host_names := parse_hostfile H file\<rparr>) c
         else sc_upd_rpc (\<lambda>r. r\<lparr>ri_host_names := ri_host_names r @ [''localhost'']\<rparr>) c)"

definition benchmark_init :: "hshm \<Rightarrow> string list \<Rightarrow> server_config \<Rightarrow> failure + server_config" where
  "benchmark_init H argv c =
     (let body =
        rbind (argv_at argv 1) (\<lambda>a1. let c = c\<lparr>sc_test := a1\<rparr> in
        rbind (argv_at argv 2) (\<lambda>a2. let c = sc_load_hosts H a2 c in
        rbind (argv_at argv 3) (\<lambda>a3. let c = sc_upd_rpc (\<lambda>r. r\<lparr>ri_domain := a3\<rparr>) c in
        rbind (argv_at argv 4) (\<lambda>a4. let c = sc_upd_rpc (\<lambda>r. r\<lparr>ri_protocol := a4\<rparr>) c in
        rbind (argv_at argv 5) (\<lambda>a5. rbind (atoi a5) (\<lambda>p. let c = sc_upd_rpc (\<lambda>r. r\<lparr>ri_port := p\<rparr>) c in
        rbind (argv_at argv 6) (\<lambda>a6. rbind (atoi a6) (\<lambda>n. let c = sc_upd_rpc (\<lambda>r. r\<lparr>ri_num_threads := n\<rparr>) c in
        rbind (argv_at argv 7) (\<lambda>a7. let c = c\<lparr>sc_io_size := parse_size H a7\<rparr> in
        rbind (argv_at argv 8) (\<lambda>a8. let c = c\<lparr>sc_md_size := parse_size H a8\<rparr> in
        rbind (argv_at argv 9) (\<lambda>a9. let c = c\<lparr>sc_rep := parse_size H a9\<rparr> in
        rbind (argv_at argv 10) (\<lambda>a10. let c = c\<lparr>sc_sleep := parse_size H a10\<rparr> in
        Inr c))))))))))))
      in if length argv \<noteq> 11 then helog_fatal H body else body)"

definition ping_init :: "hshm \<Rightarrow> string list \<Rightarrow> server_config \<Rightarrow> failure + server_config" where
  "ping_init H argv c =
     (let body =
        rbind (argv_at argv 1) (\<lambda>a1. let c = sc_load_hosts H a1 c in
        rbind (argv_at argv 2) (\<lambda>a2. let c = sc_upd_rpc (\<lambda>r. r\<lparr>ri_protocol := a2\<rparr>) c in
        rbind (argv_at argv 3) (\<lambda>a3. let c = sc_upd_rpc (\<lambda>r. r\<lparr>ri_domain := a3\<rparr>) c in
        rbind (argv_at argv 4) (\<lambda>a4. rbind (atoi a4) (\<lambda>p. let c = sc_upd_rpc (\<lambda>r. r\<lparr>ri_port := p\<rparr>) c in
        rbind (argv_at argv 5) (\<lambda>a5. let c = c\<lparr>sc_test := a5\<rparr>;
                                         c = sc_upd_rpc (\<lambda>r. r\<lparr>ri_num_threads := 2\<rparr>) c in
        rbind (argv_at argv 6) (\<lambda>a6. let c = c\<lparr>sc_local_only := (a6 = ''local'')\<rparr> in
        Inr c)))))))
      in if length argv \<noteq> 7 then helog_fatal H body else body)"

text \<open>The settings of the launcher and the argument list that its \<open>start\<close> builds from them.\<close>

record launch_config =
  lc_test :: string
  lc_host_file :: string
  lc_domain :: string
  lc_protocol :: string
  lc_port :: int
  lc_rpc_threads :: int
  lc_io_size :: string
  lc_md_size :: string
  lc_rep :: int
  lc_sleep :: int

definition launch_argv :: "launch_config \<Rightarrow> string list" where
  "launch_argv l =
     [''chi_net_bench'', lc_test l, lc_host_file l, lc_domain l, lc_protocol l,
      to_string_int (lc_port l), to_string_int (lc_rpc_threads l), lc_io_size l, lc_md_size l,
      to_string_int (lc_rep l), to_string_int (lc_sleep l)]"

lemma argv_at_nth [simp, result_simps]: "i < length argv \<Longrightarrow> argv_at argv i = Inr (argv ! i)"
  by (simp add: argv_at_def)

lemma argv_at_past [simp]: "length argv \<le> i \<Longrightarrow> argv_at argv i = Inl Undef"
  by (simp add: argv_at_def)

lemma sc_upd_rpc_simps [simp]:
  "sc_rpc (sc_upd_rpc f c) = f (sc_rpc c)"
  "sc_test (sc_upd_rpc f c) = sc_test c"
  "sc_local_only (sc_upd_rpc f c) = sc_local_only c"
  "sc_io_size (sc_upd_rpc f c) = sc_io_size c"
  "sc_md_size (sc_upd_rpc f c) = sc_md_size c"
  "sc_rep (sc_upd_rpc f c) = sc_rep c"
  "sc_sleep (sc_upd_rpc f c) = sc_sleep c"
  by (simp_all add: sc_upd_rpc_def)

lemma sc_load_hosts_simps [simp]:
  "ri_host_file (sc_rpc (sc_load_hosts H a c)) = expand_path H a"
  "ri_host_names (sc_rpc (sc_load_hosts H a c)) =
     (if expand_path H a = [] then ri_host_names (sc_rpc c) @ [''localhost''] else parse_hostfile H (expand_path H a))"
  "sc_test (sc_load_hosts H a c) = sc_test c"
  "sc_local_only (sc_load_hosts H a c) = sc_local_only c"
  by (simp_all add: sc_load_hosts_def Let_def)

section \<open>Properties\<close>

text \<open>
  C39: the benchmark reads back what its launcher wrote. For a port and a thread count that
  an \<open>int\<close> can hold, parsing the argument list of \<open>pkg.py\<close> returns a configuration whose
  every field is the launcher's setting, in particular domain before protocol.
\<close>

theorem benchmark_reads_launcher:
  assumes "- (2 ^ 31) \<le> lc_port l" "lc_port l < 2 ^ 31"
    and "- (2 ^ 31) \<le> lc_rpc_threads l" "lc_rpc_threads l < 2 ^ 31"
  shows "\<exists>c'. benchmark_init H (launch_argv l) c = Inr c' \<and>
    sc_test c' = lc_test l \<and>
    ri_host_file (sc_rpc c') = expand_path H (lc_host_file l) \<and>
    ri_domain (sc_rpc c') = lc_domain l \<and> ri_protocol (sc_rpc c') = lc_protocol l \<and>
    ri_port (sc_rpc c') = lc_port l \<and> ri_num_threads (sc_rpc c') = lc_rpc_threads l \<and>
    sc_io_size c' = parse_size H (lc_io_size l) \<and> sc_md_size c' = parse_size H (lc_md_size l) \<and>
    sc_rep c' = parse_size H (to_string_int (lc_rep l)) \<and>
    sc_sleep c' = parse_size H (to_string_int (lc_sleep l)) \<and>
    sc_local_only c' = sc_local_only c"
  using assms by (simp add: benchmark_init_def launch_argv_def atoi_to_string_int Let_def)

definition sample_config :: server_config where
  "sample_config =
     \<lparr>sc_rpc = \<lparr>ri_host_file = [], ri_host_names = [], ri_protocol = [], ri_domain = [],
        ri_port = 0, ri_num_threads = 0\<rparr>,
      sc_io_size = 0, sc_md_size = 0, sc_rep = 0, sc_sleep = 0, sc_test = [], sc_local_only = False\<rparr>"

definition sample_launch :: launch_config where
  "sample_launch =
     \<lparr>lc_test = ''metadata'', lc_host_file = ''/hosts'', lc_domain = ''lo'', lc_protocol = ''tcp'',
      lc_port = 8080, lc_rpc_threads = 4, lc_io_size = ''1048576'', lc_md_size = ''4096'',
      lc_rep = 15, lc_sleep = 2\<rparr>"

theorem benchmark_reads_launcher_witness:
  "\<exists>c'. benchmark_init sample_hshm (launch_argv sample_launch) sample_config = Inr c' \<and>
        ri_port (sc_rpc c') = 8080 \<and> ri_domain (sc_rpc c') = ''lo'' \<and> ri_protocol (sc_rpc c') = ''tcp''"
  using benchmark_reads_launcher[of sample_launch sample_hshm sample_config]
  by (auto simp: sample_launch_def)

text \<open>
  C40: the ping program's command line. With six arguments and a port an \<open>int\<close> can hold, the
  result has protocol before domain, always two threads, the local-only flag exactly for
  \<open>local\<close>, and the hosts of the host file or \<open>localhost\<close>; with any other number of
  arguments the program ends with code 1 before it reads one, if fatal logging exits.
\<close>

theorem ping_init_command_line:
  assumes "- (2 ^ 31) \<le> port" "port < 2 ^ 31" and "fatal_exits H"
  shows "(\<exists>c'. ping_init H [prog, file, protocol, domain, to_string_int port, test, scope] c = Inr c' \<and>
      ri_protocol (sc_rpc c') = protocol \<and> ri_domain (sc_rpc c') = domain \<and>
      ri_port (sc_rpc c') = port \<and> sc_test c' = test \<and> ri_num_threads (sc_rpc c') = 2 \<and>
      (sc_local_only c' \<longleftrightarrow> scope = ''local'') \<and>
      ri_host_names (sc_rpc c') =
        (if expand_path H file = [] then ri_host_names (sc_rpc c) @ [''localhost'']
         else parse_hostfile H (expand_path H file))) \<and>
    (length argv \<noteq> 7 \<longrightarrow> ping_init H argv c = Inl (Exits 1))"
  using assms by (simp add: ping_init_def atoi_to_string_int Let_def)

theorem ping_init_command_line_witness:
  "ping_init sample_hshm [''chi_net_ping'', ''x''] sample_config = Inl (Exits 1) \<and>
   (\<exists>c'. ping_init sample_hshm [''chi_net_ping'', [], ''tcp'', ''lo'', to_string_int 4192, ''client'', ''local'']
            sample_config = Inr c' \<and> sc_local_only c' \<and> ri_host_names (sc_rpc c') = [''localhost''])"
  using ping_init_command_line[of 4192 sample_hshm "''chi_net_ping''" "[]" "''tcp''" "''lo''" "''client''" "''local''" sample_config
      "[''chi_net_ping'', ''x'']"]
  by (auto simp: sample_hshm_def sample_config_def)

end
