(* ===== verification/Ipv4_Text.thy ===== *)
theory Ipv4_Text
  imports Net_Prelude
begin

text \<open>
  The text form of IPv4 addresses as POSIX \<open>inet_ntop(AF_INET, ..)\<close> writes it into a buffer of
  a given size, and the facts both \<open>rpc.h\<close> and \<open>chi_net_find.cc\<close> rely on: the text of every
  address fits in \<open>INET_ADDRSTRLEN\<close> bytes with its terminator, and it determines the address.
\<close>

type_synonym in_addr = "u8 \<times> u8 \<times> u8 \<times> u8"

definition INET_ADDRSTRLEN :: nat where
  "INET_ADDRSTRLEN = 16"

definition octet_text :: "u8 \<Rightarrow> string" where
  "octet_text b = decimal (unat b)"

fun ipv4_text :: "in_addr \<Rightarrow> string" where
  "ipv4_text (a, b, c, d) =
     octet_text a @ ''.'' @ octet_text b @ ''.'' @ octet_text c @ ''.'' @ octet_text d"

text \<open>\<open>inet_ntop\<close> fails (with \<open>ENOSPC\<close>) when the text and its terminator do not fit.\<close>

definition inet_ntop :: "in_addr \<Rightarrow> nat \<Rightarrow> string option" where
  "inet_ntop a sz = (if length (ipv4_text a) < sz then Some (ipv4_text a) else None)"

lemma length_octet: "length (octet_text b) \<le> 3"
proof -
  have "unat b < 10 ^ 3"
    using unat_u8_less[of b] by simp
  then show ?thesis
    unfolding octet_text_def by (rule length_decimal) simp
qed

lemma length_ipv4_text: "length (ipv4_text a) < INET_ADDRSTRLEN"
proof (cases a)
  case (fields b1 b2 b3 b4)
  then show ?thesis
    using length_octet[of b1] length_octet[of b2] length_octet[of b3] length_octet[of b4]
    by (simp add: INET_ADDRSTRLEN_def)
qed

lemma inet_ntop_total [simp]: "inet_ntop a INET_ADDRSTRLEN = Some (ipv4_text a)"
  by (simp add: inet_ntop_def length_ipv4_text)

lemma octet_digits: "c \<in> set (octet_text b) \<Longrightarrow> is_digit c"
  by (simp add: octet_text_def decimal_digits)

lemma dot_notin_octet [simp]: "CHR ''.'' \<notin> set (octet_text b)"
  using octet_digits is_digit_not_special by blast

lemma octet_inject [simp]: "octet_text a = octet_text b \<longleftrightarrow> a = b"
  by (simp add: octet_text_def word_unat_eq_iff)

lemma count_dot_octet: "count_list (octet_text b) (CHR ''.'') = 0"
  by (simp add: count_list_0_iff)

lemma ipv4_text_dots: "count_list (ipv4_text a) (CHR ''.'') = 3"
  by (cases a) (simp add: count_dot_octet)

lemma ipv4_text_chars: "c \<in> set (ipv4_text a) \<Longrightarrow> c = CHR ''.'' \<or> is_digit c"
  by (cases a) (auto dest: octet_digits)

lemma ipv4_text_Nil [simp]: "ipv4_text a \<noteq> []"
  by (cases a) simp

lemma ipv4_text_no_nul: "CHR 0x00 \<notin> set (ipv4_text a)"
  using ipv4_text_chars[of "CHR 0x00" a] by (auto simp: is_digit_def)

lemma ipv4_text_inject [simp]: "ipv4_text a = ipv4_text b \<longleftrightarrow> a = b"
proof
  obtain a1 a2 a3 a4 b1 b2 b3 b4 where ab: "a = (a1, a2, a3, a4)" "b = (b1, b2, b3, b4)"
    by (metis prod_cases4)
  assume eq: "ipv4_text a = ipv4_text b"
  have 1: "octet_text a1 = octet_text b1 \<and>
      octet_text a2 @ CHR ''.'' # octet_text a3 @ ''.'' @ octet_text a4 =
      octet_text b2 @ CHR ''.'' # octet_text b3 @ ''.'' @ octet_text b4"
    using eq ab by (intro append_sep_inject[where sep = "CHR ''.''"]) simp_all
  then have 2: "octet_text a2 = octet_text b2 \<and>
      octet_text a3 @ CHR ''.'' # octet_text a4 = octet_text b3 @ CHR ''.'' # octet_text b4"
    by (intro append_sep_inject[where sep = "CHR ''.''"]) simp_all
  then have 3: "octet_text a3 = octet_text b3 \<and> octet_text a4 = octet_text b4"
    by (intro append_sep_inject[where sep = "CHR ''.''"]) simp_all
  from 1 2 3 ab show "a = b"
    by simp
qed simp

declare ipv4_text.simps [simp del]

end
