(* ===== verification/Rpc_Context.thy ===== *)
theory Rpc_Context
  imports Server_Config Ipv4_Text
begin

text \<open>
  \<open>HostInfo\<close> and \<open>RpcContext\<close> of \<open>include/test_networks/rpc.h\<close>: the table of hosts, how a
  node finds its own id, and the address of a node. What the operating system and libfabric
  answer is the record \<open>netenv\<close>. The interface \<open>node_directory\<close> is what the RPC layer and
  the benchmark loops rely on: node ids run from 1 to the number of hosts, each of them has
  an address and no other id has one.
\<close>

section \<open>The environment\<close>

text \<open>
  \<open>fi_alloc_ok\<close>: \<open>fi_allocinfo\<close> returned an object. \<open>fi_getinfo_ret\<close> and \<open>fi_src_addrs\<close>: the
  result of \<open>fi_getinfo\<close> and the source addresses of the returned list (\<open>None\<close> is a null
  \<open>src_addr\<close>). \<open>resolve\<close>: the return value of \<open>gethostbyname_r\<close> and the \<open>h_addr_list\<close> it
  left (\<open>None\<close> is the null pointer that the zeroed \<open>hostent\<close> starts with).
\<close>

record netenv =
  fi_alloc_ok :: bool
  fi_getinfo_ret :: int
  fi_src_addrs :: "in_addr option list"
  resolve :: "string \<Rightarrow> int \<times> in_addr list option"

section \<open>State\<close>

record host_info =
  hi_hostname :: string
  hi_ip_addr :: string
  hi_node_id :: u32

record rpc_context =
  rc_port :: int
  rc_protocol :: string
  rc_domain :: string
  rc_hosts :: "host_info list"
  rc_neighborhood_size :: u64
  rc_node_id :: u32
  rc_num_threads :: u32
  rc_config :: "server_config option"

definition host_info_make :: "string \<Rightarrow> string \<Rightarrow> u32 \<Rightarrow> host_info" where
  "host_info_make hostname ip_addr node_id =
     \<lparr>hi_hostname = hostname, hi_ip_addr = ip_addr, hi_node_id = node_id\<rparr>"

lemma host_info_make_renumber:
  "(host_info_make hostname ip_addr i)\<lparr>hi_node_id := j\<rparr> = host_info_make hostname ip_addr j"
  by (simp add: host_info_make_def)

section \<open>Operations\<close>

text \<open>\<open>_GetIpAddress\<close>: three dots and nothing but dots and digits counts as an address.\<close>

definition looks_like_ip :: "string \<Rightarrow> bool" where
  "looks_like_ip name \<longleftrightarrow>
     count_list name (CHR ''.'') = 3 \<and> list_all (\<lambda>c. c = CHR ''.'' \<or> is_digit c) name"

definition get_ip_address :: "hshm \<Rightarrow> netenv \<Rightarrow> string \<Rightarrow> failure + string" where
  "get_ip_address H E name =
     (if looks_like_ip name then Inr name
      else
        let (ret, addr_list) = resolve E name;
            after = (case addr_list of
                None \<Rightarrow> Inl Undef
              | Some [] \<Rightarrow> helog_fatal H (Inl Undef)
              | Some (a # _) \<Rightarrow>
                  (case inet_ntop a INET_ADDRSTRLEN of
                     None \<Rightarrow> helog_fatal H (Inr [])
                   | Some ip \<Rightarrow> Inr ip))
        in if ret \<noteq> 0 then helog_fatal H after else after)"

text \<open>\<open>_IsAddressLocal\<close>: is the text of some source address of libfabric the given one?\<close>

fun any_src_addr :: "string \<Rightarrow> in_addr option list \<Rightarrow> bool" where
  "any_src_addr addr [] = False"
| "any_src_addr addr (None # cur) = any_src_addr addr cur"
| "any_src_addr addr (Some a # cur) =
     (if addr = ipv4_text a then True else any_src_addr addr cur)"

definition is_address_local :: "hshm \<Rightarrow> netenv \<Rightarrow> string \<Rightarrow> failure + bool" where
  "is_address_local H E addr =
     (if \<not> fi_alloc_ok E then helog_fatal H (Inl Undef)
      else if fi_getinfo_ret E \<noteq> 0 then helog_fatal H (Inl Undef)
      else Inr (any_src_addr addr (fi_src_addrs E)))"

text \<open>\<open>_FindThisHost\<close>: the position of the first host with a local address, counted from 1.\<close>

fun find_this_host_from :: "hshm \<Rightarrow> netenv \<Rightarrow> host_info list \<Rightarrow> int \<Rightarrow> failure + int" where
  "find_this_host_from H E [] node_id = helog_fatal H (Inr (- 1))"
| "find_this_host_from H E (h # hs) node_id =
     rbind (is_address_local H E (hi_ip_addr h)) (\<lambda>found.
       if found then Inr node_id
       else if node_id = 2 ^ 31 - 1 then Inl Undef
       else find_this_host_from H E hs (node_id + 1))"

definition find_this_host :: "hshm \<Rightarrow> netenv \<Rightarrow> host_info list \<Rightarrow> failure + int" where
  "find_this_host H E hosts = find_this_host_from H E hosts 1"

text \<open>The loop of \<open>ServerInit\<close> that fills \<open>hosts_\<close>; \<open>node_id++\<close> is a \<open>u32\<close>.\<close>

fun build_hosts :: "hshm \<Rightarrow> netenv \<Rightarrow> string list \<Rightarrow> u32 \<Rightarrow> failure + host_info list" where
  "build_hosts H E [] node_id = Inr []"
| "build_hosts H E (name # names) node_id =
     rbind (get_ip_address H E name) (\<lambda>ip.
     rbind (build_hosts H E names (node_id + 1)) (\<lambda>hs.
     Inr (host_info_make name ip node_id # hs)))"

text \<open>\<open>hosts_[i]\<close> is unchecked.\<close>

definition host_at :: "rpc_context \<Rightarrow> u32 \<Rightarrow> failure + host_info" where
  "host_at c i = (if unat i < length (rc_hosts c) then Inr (rc_hosts c ! unat i) else Inl Undef)"

definition reset_to_this_host :: "rpc_context \<Rightarrow> failure + rpc_context" where
  "reset_to_this_host c =
     rbind (host_at c (rc_node_id c - 1)) (\<lambda>this_host.
     let c = c\<lparr>rc_hosts := []\<rparr>;
         this_host = this_host\<lparr>hi_node_id := 1\<rparr>;
         c = c\<lparr>rc_node_id := 1\<rparr>
     in Inr (c\<lparr>rc_hosts := rc_hosts c @ [this_host]\<rparr>))"

definition server_init :: "hshm \<Rightarrow> netenv \<Rightarrow> server_config \<Rightarrow> rpc_context \<Rightarrow> failure + rpc_context" where
  "server_init H E config c =
     (let c = c\<lparr>rc_config := Some config,
                rc_port := ri_port (sc_rpc config),
                rc_protocol := ri_protocol (sc_rpc config),
                rc_domain := ri_domain (sc_rpc config),
                rc_num_threads := word_of_int (ri_num_threads (sc_rpc config))\<rparr>
      in if length (rc_hosts c) \<noteq> 0 then Inr c
      else
        rbind (build_hosts H E (ri_host_names (sc_rpc config)) 1) (\<lambda>hosts.
        let c = c\<lparr>rc_hosts := hosts\<rparr> in
        rbind (find_this_host H E hosts) (\<lambda>found.
        let c = c\<lparr>rc_node_id := word_of_int found\<rparr>;
            after = (if sc_local_only config then reset_to_this_host c else Inr c)
        in if rc_node_id c = 0 \<or> rc_node_id c > of_nat (length (rc_hosts c))
           then helog_fatal H after else after)))"

definition num_hosts :: "rpc_context \<Rightarrow> u64" where
  "num_hosts c = of_nat (length (rc_hosts c))"

definition get_host_name_from_node_id :: "hshm \<Rightarrow> rpc_context \<Rightarrow> u32 \<Rightarrow> failure + string" where
  "get_host_name_from_node_id H c node_id =
     (let after = rbind (host_at c (node_id - 1)) (\<lambda>h. Inr (hi_hostname h))
      in if node_id \<le> 0 \<or> node_id > of_nat (length (rc_hosts c)) then helog_fatal H after else after)"

definition get_ip_address_from_node_id :: "rpc_context \<Rightarrow> u32 \<Rightarrow> failure + string" where
  "get_ip_address_from_node_id c node_id =
     (if node_id \<le> 0 \<or> node_id > of_nat (length (rc_hosts c)) then Inl (Throws Std_exn)
      else rbind (host_at c (node_id - 1)) (\<lambda>h. Inr (hi_ip_addr h)))"

text \<open>The pointer \<open>config_\<close> is unset before \<open>ServerInit\<close>.\<close>

definition get_protocol :: "rpc_context \<Rightarrow> failure + string" where
  "get_protocol c = (case rc_config c of None \<Rightarrow> Inl Undef | Some cfg \<Rightarrow> Inr (ri_protocol (sc_rpc cfg)))"

definition get_rpc_address :: "hshm \<Rightarrow> rpc_context \<Rightarrow> u32 \<Rightarrow> int \<Rightarrow> failure + string" where
  "get_rpc_address H c node_id port =
     (case rc_config c of
        None \<Rightarrow> Inl Undef
      | Some cfg \<Rightarrow>
          if ri_protocol (sc_rpc cfg) = ''shm'' then Inr ''shm''
          else
            let result = ri_protocol (sc_rpc cfg) @ ''://'';
                result = (if ri_domain (sc_rpc cfg) \<noteq> [] then result @ ri_domain (sc_rpc cfg) @ ''/'' else result)
            in rbind (get_host_name_from_node_id H c node_id) (\<lambda>host_name.
               Inr (result @ host_name @ '':'' @ to_string_int port)))"

definition get_my_rpc_address :: "hshm \<Rightarrow> rpc_context \<Rightarrow> failure + string" where
  "get_my_rpc_address H c = get_rpc_address H c (rc_node_id c) (rc_port c)"

section \<open>The invariant of an initialised context\<close>

text \<open>
  Host \<open>i\<close> of the table has node id \<open>i + 1\<close>, this node is in the table, and the table is
  small enough for the \<open>u32\<close> node ids and the \<open>int\<close> counter of \<open>_FindThisHost\<close>.
\<close>

definition rc_table :: "rpc_context \<Rightarrow> bool" where
  "rc_table c \<longleftrightarrow> length (rc_hosts c) < 2 ^ 31 \<and>
     (\<forall>i < length (rc_hosts c). hi_node_id (rc_hosts c ! i) = of_nat (i + 1))"

definition rc_inv :: "rpc_context \<Rightarrow> bool" where
  "rc_inv c \<longleftrightarrow> rc_table c \<and> 1 \<le> unat (rc_node_id c) \<and> unat (rc_node_id c) \<le> length (rc_hosts c)"

lemma build_hosts_length: "build_hosts H E names k = Inr hs \<Longrightarrow> length hs = length names"
  by (induction names arbitrary: k hs) (auto simp: rbind_eq_Inr)

lemma build_hosts_nth:
  "build_hosts H E names k = Inr hs \<Longrightarrow> i < length names \<Longrightarrow>
   \<exists>ip. get_ip_address H E (names ! i) = Inr ip \<and> hs ! i = host_info_make (names ! i) ip (k + of_nat i)"
proof (induction names arbitrary: k hs i)
  case (Cons name names)
  then show ?case
    by (cases i) (fastforce simp: rbind_eq_Inr add.assoc)+
qed simp

lemma node_id_index:
  assumes "0 < unat (w :: u32)"
  shows "unat (w - 1) = unat w - 1"
  using assms by (simp add: unat_minus_one unat_gt_0)

lemma host_in_range:
  assumes "length (rc_hosts c) < 2 ^ 31"
  shows "\<not> (w \<le> 0 \<or> (w :: u32) > of_nat (length (rc_hosts c))) \<longleftrightarrow> 1 \<le> unat w \<and> unat w \<le> length (rc_hosts c)"
proof -
  have "unat (of_nat (length (rc_hosts c)) :: u32) = length (rc_hosts c)"
    using assms by (simp add: unat_of_nat_u32)
  then show ?thesis
    by (auto simp: word_le_nat_alt word_less_nat_alt)
qed

lemma host_at_in_range:
  assumes "1 \<le> unat w" and "unat w \<le> length (rc_hosts c)"
  shows "host_at c (w - 1) = Inr (rc_hosts c ! (unat w - 1))"
  using assms by (simp add: host_at_def node_id_index)

lemma host_at_out_of_range:
  assumes "length (rc_hosts c) < 2 ^ 31" and "\<not> (1 \<le> unat w \<and> unat w \<le> length (rc_hosts c))"
  shows "host_at c (w - 1) = Inl Undef"
proof (cases "unat w = 0")
  case True
  then have "w = 0"
    by (simp add: unat_eq_zero)
  moreover have "unat (- 1 :: u32) = 2 ^ 32 - 1"
    by (simp add: unsigned_minus_1_eq_mask mask_eq_exp_minus_1)
  ultimately show ?thesis
    using assms(1) by (simp add: host_at_def)
next
  case False
  with assms(2) show ?thesis
    by (simp add: host_at_def node_id_index)
qed

section \<open>The interface of a node directory\<close>

text \<open>
  A directory of nodes: under the invariant, the ids \<open>1 .. size\<close> and only these have an entry.
  \<open>named_directory\<close> also says which one.
\<close>

locale node_directory =
  fixes invar :: "'c \<Rightarrow> bool" and size_of :: "'c \<Rightarrow> nat"
    and lookup :: "'c \<Rightarrow> u32 \<Rightarrow> failure + string"
  assumes size_bound: "invar c \<Longrightarrow> size_of c < 2 ^ 31"
    and lookup_known: "invar c \<Longrightarrow> 1 \<le> unat i \<Longrightarrow> unat i \<le> size_of c \<Longrightarrow> \<exists>a. lookup c i = Inr a"
    and lookup_unknown: "invar c \<Longrightarrow> \<not> (1 \<le> unat i \<and> unat i \<le> size_of c) \<Longrightarrow> \<exists>e. lookup c i = Inl e"
begin

lemma lookup_iff: "invar c \<Longrightarrow> (\<exists>a. lookup c i = Inr a) \<longleftrightarrow> 1 \<le> unat i \<and> unat i \<le> size_of c"
  using lookup_known lookup_unknown by (metis Inl_Inr_False)

text \<open>A loop over the ids from 1 to the size never fails in a lookup.\<close>

lemma lookup_loop:
  assumes "invar c"
  shows "\<exists>as. rmap (lookup c) (node_ids (size_of c)) = Inr as \<and> length as = size_of c"
proof -
  have "\<exists>a. lookup c i = Inr a" if "i \<in> set (node_ids (size_of c))" for i
    using that lookup_known[OF assms, of i] size_bound[OF assms] by (simp add: set_node_ids)
  then have "rmap (lookup c) (node_ids (size_of c)) = Inr (map (\<lambda>i. projr (lookup c i)) (node_ids (size_of c)))"
    by (intro rmap_Inr_all) force
  then show ?thesis
    by simp
qed

end

locale named_directory = node_directory invar size_of lookup
  for invar :: "'c \<Rightarrow> bool" and size_of :: "'c \<Rightarrow> nat" and lookup :: "'c \<Rightarrow> u32 \<Rightarrow> failure + string" +
  fixes entry :: "'c \<Rightarrow> nat \<Rightarrow> string"
  assumes lookup_entry: "invar c \<Longrightarrow> 1 \<le> unat i \<Longrightarrow> unat i \<le> size_of c \<Longrightarrow>
    lookup c i = Inr (entry c (unat i - 1))"
begin

lemma lookup_all:
  assumes "invar c"
  shows "rmap (lookup c) (node_ids (size_of c)) = Inr (map (entry c) [0..<size_of c])"
proof -
  have bound: "size_of c < 2 ^ 32"
    using size_bound[OF assms] by simp
  have "rmap (lookup c) (node_ids (size_of c))
      = Inr (map (\<lambda>i. entry c (unat i - 1)) (node_ids (size_of c)))"
    using lookup_entry[OF assms] set_node_ids[OF bound] by (intro rmap_Inr_all) blast
  also have "map (\<lambda>i. entry c (unat i - 1)) (node_ids (size_of c)) = map (entry c) [0..<size_of c]"
    using bound by (auto simp: node_ids_def unat_of_nat_u32 simp del: of_nat_add of_nat_Suc)
  finally show ?thesis .
qed

end

lemma rc_table_bound: "rc_table c \<Longrightarrow> length (rc_hosts c) < 2 ^ 31"
  by (simp add: rc_table_def)

lemma get_ip_known:
  assumes "rc_table c" and "1 \<le> unat i" and "unat i \<le> length (rc_hosts c)"
  shows "get_ip_address_from_node_id c i = Inr (hi_ip_addr (rc_hosts c ! (unat i - 1)))"
  using host_in_range[OF rc_table_bound[OF assms(1)], of i] host_at_in_range[OF assms(2,3)] assms(2,3)
  by (auto simp: get_ip_address_from_node_id_def)

lemma get_ip_unknown:
  assumes "rc_table c" and "\<not> (1 \<le> unat i \<and> unat i \<le> length (rc_hosts c))"
  shows "get_ip_address_from_node_id c i = Inl (Throws Std_exn)"
  using host_in_range[OF rc_table_bound[OF assms(1)], of i] assms(2)
  by (auto simp: get_ip_address_from_node_id_def)

lemma get_host_name_known:
  assumes "rc_table c" and "1 \<le> unat i" and "unat i \<le> length (rc_hosts c)"
  shows "get_host_name_from_node_id H c i = Inr (hi_hostname (rc_hosts c ! (unat i - 1)))"
  using host_in_range[OF rc_table_bound[OF assms(1)], of i] host_at_in_range[OF assms(2,3)] assms(2,3)
  by (auto simp: get_host_name_from_node_id_def)

lemma get_host_name_unknown:
  assumes "rc_table c" and "\<not> (1 \<le> unat i \<and> unat i \<le> length (rc_hosts c))"
  shows "get_host_name_from_node_id H c i = helog_fatal H (Inl Undef)"
  using host_in_range[OF rc_table_bound[OF assms(1)], of i] assms(2)
    host_at_out_of_range[OF rc_table_bound[OF assms(1)] assms(2)]
  by (auto simp: get_host_name_from_node_id_def)

interpretation ip_dir: named_directory rc_table "\<lambda>c. length (rc_hosts c)" get_ip_address_from_node_id
  "\<lambda>c k. hi_ip_addr (rc_hosts c ! k)"
  by unfold_locales (auto simp: get_ip_known get_ip_unknown rc_table_def)

interpretation name_dir: named_directory rc_table "\<lambda>c. length (rc_hosts c)"
  "get_host_name_from_node_id H" "\<lambda>c k. hi_hostname (rc_hosts c ! k)" for H
  by unfold_locales (auto simp: get_host_name_known get_host_name_unknown helog_fatal_def rc_table_def)

section \<open>What \<open>ServerInit\<close> computes\<close>

lemma any_src_addr_iff: "any_src_addr addr l \<longleftrightarrow> (\<exists>a. Some a \<in> set l \<and> addr = ipv4_text a)"
  by (induction addr l rule: any_src_addr.induct) auto

definition local_ip :: "netenv \<Rightarrow> string \<Rightarrow> bool" where
  "local_ip E addr \<longleftrightarrow> (\<exists>a. Some a \<in> set (fi_src_addrs E) \<and> addr = ipv4_text a)"

lemma is_address_local_ok:
  "fi_alloc_ok E \<Longrightarrow> fi_getinfo_ret E = 0 \<Longrightarrow> is_address_local H E addr = Inr (local_ip E addr)"
  by (simp add: is_address_local_def local_ip_def any_src_addr_iff)

lemma is_address_local_Inr: "fatal_exits H \<Longrightarrow> is_address_local H E addr = Inr b \<Longrightarrow> b = local_ip E addr"
  by (auto simp: is_address_local_def local_ip_def any_src_addr_iff split: if_splits)

lemma find_this_host_from_Inr:
  assumes "fatal_exits H" and "find_this_host_from H E hs n = Inr r"
  shows "\<exists>k < length hs. r = n + int k \<and> local_ip E (hi_ip_addr (hs ! k)) \<and>
           (\<forall>j < k. \<not> local_ip E (hi_ip_addr (hs ! j)))"
  using assms(2)
proof (induction hs arbitrary: n)
  case Nil
  with assms(1) show ?case by simp
next
  case (Cons h hs)
  then have b: "is_address_local H E (hi_ip_addr h) = Inr (local_ip E (hi_ip_addr h))"
    using is_address_local_Inr[OF assms(1), of E "hi_ip_addr h"] by (auto simp: rbind_eq_Inr)
  show ?case
  proof (cases "local_ip E (hi_ip_addr h)")
    case True
    with Cons.prems b have "r = n"
      by simp
    with True show ?thesis
      by (intro exI[of _ 0]) simp
  next
    case False
    with Cons.prems b have "find_this_host_from H E hs (n + 1) = Inr r"
      by (simp split: if_splits)
    then obtain k where "k < length hs" "r = n + 1 + int k" "local_ip E (hi_ip_addr (hs ! k))"
      "\<forall>j < k. \<not> local_ip E (hi_ip_addr (hs ! j))"
      using Cons.IH by blast
    with False show ?thesis
      by (intro exI[of _ "Suc k"]) (auto simp: nth_Cons split: nat.splits)
  qed
qed

lemma find_this_host_from_first:
  assumes "fi_alloc_ok E" "fi_getinfo_ret E = 0"
    and "k < length hs" "local_ip E (hi_ip_addr (hs ! k))" "\<forall>j < k. \<not> local_ip E (hi_ip_addr (hs ! j))"
    and "n + int (length hs) < 2 ^ 31"
  shows "find_this_host_from H E hs n = Inr (n + int k)"
  using assms(3-)
proof (induction hs arbitrary: n k)
  case (Cons h hs)
  show ?case
  proof (cases k)
    case 0
    with Cons.prems show ?thesis
      by (simp add: is_address_local_ok[OF assms(1,2)])
  next
    case (Suc j)
    have "\<not> local_ip E (hi_ip_addr h)"
      using Cons.prems(3) Suc by force
    moreover have "find_this_host_from H E hs (n + 1) = Inr (n + 1 + int j)"
      using Cons.prems Suc by (intro Cons.IH) auto
    ultimately show ?thesis
      using Cons.prems Suc by (simp add: is_address_local_ok[OF assms(1,2)])
  qed
qed simp

lemma unat_word_of_int_small: "k < 2 ^ 31 \<Longrightarrow> unat (word_of_int (1 + int k) :: u32) = k + 1"
proof -
  assume "k < 2 ^ 31"
  moreover have "(word_of_int (1 + int k) :: u32) = of_nat (k + 1)"
    by simp
  ultimately show ?thesis
    using unat_of_nat_u32[of "k + 1"] by simp
qed

lemma reset_to_this_host_ok:
  assumes "1 \<le> unat (rc_node_id c)" "unat (rc_node_id c) \<le> length (rc_hosts c)"
  shows "reset_to_this_host c =
    Inr (c\<lparr>rc_hosts := [(rc_hosts c ! (unat (rc_node_id c) - 1))\<lparr>hi_node_id := 1\<rparr>], rc_node_id := 1\<rparr>)"
  using host_at_in_range[OF assms] by (simp add: reset_to_this_host_def)

text \<open>The context that \<open>ServerInit\<close> returns when host \<open>k\<close> of the built table is this machine.\<close>

definition initialised :: "server_config \<Rightarrow> host_info list \<Rightarrow> nat \<Rightarrow> rpc_context \<Rightarrow> rpc_context" where
  "initialised cfg hosts k c =
     c\<lparr>rc_config := Some cfg, rc_port := ri_port (sc_rpc cfg), rc_protocol := ri_protocol (sc_rpc cfg),
       rc_domain := ri_domain (sc_rpc cfg), rc_num_threads := word_of_int (ri_num_threads (sc_rpc cfg)),
       rc_hosts := (if sc_local_only cfg then [(hosts ! k)\<lparr>hi_node_id := 1\<rparr>] else hosts),
       rc_node_id := (if sc_local_only cfg then 1 else of_nat (k + 1))\<rparr>"

lemma server_init_found:
  assumes "rc_hosts c = []" "length (ri_host_names (sc_rpc cfg)) < 2 ^ 31"
    and "build_hosts H E (ri_host_names (sc_rpc cfg)) 1 = Inr hosts"
    and "find_this_host H E hosts = Inr (1 + int k)" "k < length hosts"
  shows "server_init H E cfg c = Inr (initialised cfg hosts k c)"
proof -
  have len: "length hosts < 2 ^ 31"
    using assms(2) build_hosts_length[OF assms(3)] by simp
  with assms(5) have id: "unat (word_of_int (1 + int k) :: u32) = k + 1"
    by (intro unat_word_of_int_small) simp
  have word: "(word_of_int (1 + int k) :: u32) = of_nat (k + 1)"
    by simp
  have range: "\<not> ((word_of_int (1 + int k) :: u32) = 0 \<or> (word_of_int (1 + int k) :: u32) > of_nat (length hosts))"
    using host_in_range[of "c\<lparr>rc_hosts := hosts\<rparr>" "word_of_int (1 + int k)"] len id assms(5) by simp
  show ?thesis
    using assms(1,3-5) id range
    by (simp add: server_init_def initialised_def reset_to_this_host_ok Let_def del: of_int_add)
      (simp add: word)
qed

lemma server_init_Inr:
  assumes "fatal_exits H" "rc_hosts c = []" "length (ri_host_names (sc_rpc cfg)) < 2 ^ 31"
    and "server_init H E cfg c = Inr c'"
  shows "\<exists>hosts k. build_hosts H E (ri_host_names (sc_rpc cfg)) 1 = Inr hosts \<and> k < length hosts \<and>
    local_ip E (hi_ip_addr (hosts ! k)) \<and> (\<forall>j < k. \<not> local_ip E (hi_ip_addr (hosts ! j))) \<and>
    c' = initialised cfg hosts k c"
proof -
  obtain hosts r where b: "build_hosts H E (ri_host_names (sc_rpc cfg)) 1 = Inr hosts"
    "find_this_host_from H E hosts 1 = Inr r"
    using assms(2,4) by (auto simp: server_init_def Let_def rbind_eq_Inr find_this_host_def)
  from find_this_host_from_Inr[OF assms(1) b(2)] obtain k where k: "k < length hosts" "r = 1 + int k"
    "local_ip E (hi_ip_addr (hosts ! k))" "\<forall>j < k. \<not> local_ip E (hi_ip_addr (hosts ! j))"
    by blast
  with b server_init_found[OF assms(2,3) b(1) _ k(1)] assms(4) show ?thesis
    by (auto simp: find_this_host_def)
qed

lemma initialised_inv:
  assumes "build_hosts H E names 1 = Inr hosts" "length names < 2 ^ 31" "k < length hosts"
  shows "rc_inv (initialised cfg hosts k c)"
proof -
  have len: "length hosts = length names"
    by (rule build_hosts_length[OF assms(1)])
  have ids: "hi_node_id (hosts ! i) = of_nat (i + 1)" if "i < length hosts" for i
    using build_hosts_nth[OF assms(1), of i] that len by (auto simp: host_info_make_def)
  have "unat (of_nat (k + 1) :: u32) = k + 1"
    using assms(2,3) len by (intro unat_of_nat_u32) simp
  then show ?thesis
    using assms(2,3) len ids
    by (auto simp: rc_inv_def rc_table_def initialised_def simp del: of_nat_add of_nat_Suc)
      (simp_all add: of_nat_Suc)
qed

section \<open>Properties\<close>

definition empty_context :: rpc_context where
  "empty_context =
     \<lparr>rc_port = 0, rc_protocol = [], rc_domain = [], rc_hosts = [], rc_neighborhood_size = 32,
      rc_node_id = 0, rc_num_threads = 0, rc_config = None\<rparr>"

definition sample_netenv :: netenv where
  "sample_netenv =
     \<lparr>fi_alloc_ok = True, fi_getinfo_ret = 0,
      fi_src_addrs = [None, Some (127, 0, 0, 1), Some (10, 0, 0, 2)],
      resolve = (\<lambda>name. if name = ''node3'' then (0, Some [(10, 0, 0, 3)]) else (0, None))\<rparr>"

definition sample_cluster :: "string list \<Rightarrow> bool \<Rightarrow> server_config" where
  "sample_cluster names local =
     sample_config\<lparr>sc_local_only := local,
       sc_rpc := \<lparr>ri_host_file = ''/hosts'', ri_host_names = names, ri_protocol = ''tcp'',
                  ri_domain = ''lo'', ri_port = 8080, ri_num_threads = 4\<rparr>\<rparr>"

text \<open>
  C5: a run of \<open>ServerInit\<close> that returns has found this machine. There is a first host \<open>k\<close>
  of the host file whose address is one of libfabric's source addresses, and either the
  table lists all hosts in file order with ids \<open>1 ..\<close> and this node has id \<open>k + 1\<close>, or (in
  local-only mode) the table is that one host, renumbered to 1; the table invariant holds.
\<close>

theorem server_init_identifies_node:
  assumes "fatal_exits H" "rc_hosts c = []" "length (ri_host_names (sc_rpc cfg)) < 2 ^ 31"
    and "server_init H E cfg c = Inr c'"
  shows "let names = ri_host_names (sc_rpc cfg) in
    rc_inv c' \<and> rc_config c' = Some cfg \<and> rc_port c' = ri_port (sc_rpc cfg) \<and>
    (\<exists>k ips. length ips = length names \<and> k < length names \<and>
       (\<forall>i < length names. get_ip_address H E (names ! i) = Inr (ips ! i)) \<and>
       local_ip E (ips ! k) \<and> (\<forall>j < k. \<not> local_ip E (ips ! j)) \<and>
       (if sc_local_only cfg
        then rc_hosts c' = [host_info_make (names ! k) (ips ! k) 1] \<and> rc_node_id c' = 1
        else rc_hosts c' = map2 (\<lambda>(n, ip) i. host_info_make n ip i) (zip names ips) (node_ids (length names))
             \<and> rc_node_id c' = of_nat (k + 1)))"
proof -
  let ?names = "ri_host_names (sc_rpc cfg)"
  obtain hosts k where h: "build_hosts H E ?names 1 = Inr hosts" "k < length hosts"
    "local_ip E (hi_ip_addr (hosts ! k))" "\<forall>j < k. \<not> local_ip E (hi_ip_addr (hosts ! j))"
    "c' = initialised cfg hosts k c"
    using server_init_Inr[OF assms] by blast
  let ?ips = "map hi_ip_addr hosts"
  have len: "length hosts = length ?names"
    by (rule build_hosts_length[OF h(1)])
  have nth: "get_ip_address H E (?names ! i) = Inr (?ips ! i)
      \<and> hosts ! i = host_info_make (?names ! i) (?ips ! i) (of_nat (i + 1))" if "i < length ?names" for i
    using build_hosts_nth[OF h(1) that] that len by (auto simp: host_info_make_def)
  have all: "hosts = map2 (\<lambda>(n, ip) i. host_info_make n ip i) (zip ?names ?ips) (node_ids (length ?names))"
    using nth len by (intro nth_equalityI) (simp_all add: node_ids_nth del: of_nat_add of_nat_Suc)
  have one: "(hosts ! k)\<lparr>hi_node_id := 1\<rparr> = host_info_make (?names ! k) (?ips ! k) 1"
    using nth[of k] h(2) len host_info_make_renumber by metis
  have host: "if sc_local_only cfg
      then rc_hosts c' = [host_info_make (?names ! k) (?ips ! k) 1] \<and> rc_node_id c' = 1
      else rc_hosts c' = map2 (\<lambda>(n, ip) i. host_info_make n ip i) (zip ?names ?ips) (node_ids (length ?names))
           \<and> rc_node_id c' = of_nat (k + 1)"
    unfolding h(5) all[symmetric] one[symmetric] by (simp add: initialised_def)
  show ?thesis
    unfolding Let_def
  proof (intro conjI exI[of _ k] exI[of _ ?ips])
    show "rc_inv c'"
      unfolding h(5) by (rule initialised_inv[OF h(1) assms(3) h(2)])
    show "rc_config c' = Some cfg" "rc_port c' = ri_port (sc_rpc cfg)"
      by (simp_all add: h(5) initialised_def)
    show "local_ip E (?ips ! k)" "\<forall>j < k. \<not> local_ip E (?ips ! j)"
      using h(2-4) by simp_all
  qed (use len h(2) nth host in simp_all)
qed

theorem server_init_identifies_node_witness:
  "\<exists>c'. server_init sample_hshm sample_netenv (sample_cluster [''10.0.0.1'', ''10.0.0.2''] False) empty_context = Inr c' \<and>
        rc_inv c' \<and> length (rc_hosts c') = 2"
proof -
  let ?cfg = "sample_cluster [''10.0.0.1'', ''10.0.0.2''] False"
  have "isl (server_init sample_hshm sample_netenv ?cfg empty_context) = False"
    by code_simp
  then obtain c' where c': "server_init sample_hshm sample_netenv ?cfg empty_context = Inr c'"
    by (cases "server_init sample_hshm sample_netenv ?cfg empty_context") auto
  have "rc_hosts empty_context = []" "length (ri_host_names (sc_rpc ?cfg)) < 2 ^ 31" "\<not> sc_local_only ?cfg"
    "length (ri_host_names (sc_rpc ?cfg)) = 2"
    by (simp_all add: empty_context_def sample_cluster_def)
  then show ?thesis
    using server_init_identifies_node[OF sample_hshm_fatal _ _ c'] c' by (auto simp: Let_def)
qed

lemma rmap_build_hosts:
  "rmap (get_ip_address H E) names = Inr ips \<Longrightarrow>
   \<exists>hosts. build_hosts H E names n = Inr hosts \<and> map hi_ip_addr hosts = ips"
  by (induction names arbitrary: ips n) (fastforce simp: rbind_eq_Inr host_info_make_def)+

text \<open>
  C18: \<open>ServerInit\<close> succeeds where it should. When libfabric answers, every configured name
  gets an address and the first local one is host \<open>k\<close>, the run returns, with this node's id
  \<open>k + 1\<close> (1 in local-only mode); a context that already has hosts is left with them and
  with its node id, only its settings change.
\<close>

theorem server_init_succeeds:
  assumes "fi_alloc_ok E" "fi_getinfo_ret E = 0" "rc_hosts c = []"
    and "length (ri_host_names (sc_rpc cfg)) + 1 < 2 ^ 31"
    and "rmap (get_ip_address H E) (ri_host_names (sc_rpc cfg)) = Inr ips"
    and "k < length ips" "local_ip E (ips ! k)" "\<forall>j < k. \<not> local_ip E (ips ! j)"
  shows "\<exists>c'. server_init H E cfg c = Inr c' \<and> rc_inv c' \<and>
    rc_node_id c' = (if sc_local_only cfg then 1 else of_nat (k + 1)) \<and>
    (\<exists>c''. server_init H E cfg' c' = Inr c'' \<and> rc_hosts c'' = rc_hosts c' \<and>
           rc_node_id c'' = rc_node_id c' \<and> rc_port c'' = ri_port (sc_rpc cfg'))"
proof -
  obtain hosts where h: "build_hosts H E (ri_host_names (sc_rpc cfg)) 1 = Inr hosts"
    "map hi_ip_addr hosts = ips"
    using rmap_build_hosts[OF assms(5)] by blast
  have len: "length hosts = length (ri_host_names (sc_rpc cfg))"
    by (rule build_hosts_length[OF h(1)])
  have k: "k < length hosts"
    using assms(6) h(2) by auto
  have "find_this_host H E hosts = Inr (1 + int k)"
    unfolding find_this_host_def
  proof (rule find_this_host_from_first[OF assms(1,2) k])
    show "local_ip E (hi_ip_addr (hosts ! k))" "\<forall>j < k. \<not> local_ip E (hi_ip_addr (hosts ! j))"
      using assms(7,8) k h(2) by auto
    show "1 + int (length hosts) < 2 ^ 31"
      using assms(4) len by simp
  qed
  with server_init_found[OF assms(3) _ h(1) _ k] assms(4)
  have init: "server_init H E cfg c = Inr (initialised cfg hosts k c)"
    by simp
  have ne: "rc_hosts (initialised cfg hosts k c) \<noteq> []"
    using k by (auto simp: initialised_def)
  have again: "\<exists>c''. server_init H E cfg' (initialised cfg hosts k c) = Inr c'' \<and>
      rc_hosts c'' = rc_hosts (initialised cfg hosts k c) \<and>
      rc_node_id c'' = rc_node_id (initialised cfg hosts k c) \<and> rc_port c'' = ri_port (sc_rpc cfg')"
    using ne by (simp add: server_init_def Let_def)
  have inv: "rc_inv (initialised cfg hosts k c)"
    using assms(4) by (intro initialised_inv[OF h(1) _ k]) simp
  have id: "rc_node_id (initialised cfg hosts k c) = (if sc_local_only cfg then 1 else of_nat (k + 1))"
    by (simp add: initialised_def)
  from init inv id again show ?thesis
    by blast
qed

theorem server_init_succeeds_witness:
  "\<exists>c'. server_init sample_hshm sample_netenv (sample_cluster [''10.0.0.1'', ''10.0.0.2''] True) empty_context = Inr c' \<and>
        rc_inv c' \<and> rc_node_id c' = 1"
proof -
  let ?ips = "[''10.0.0.1'', ''10.0.0.2'']"
  let ?cfg = "sample_cluster ?ips True"
  have names: "ri_host_names (sc_rpc ?cfg) = ?ips" "sc_local_only ?cfg"
    by (simp_all add: sample_cluster_def)
  have "rmap (get_ip_address sample_hshm sample_netenv) ?ips = Inr ?ips"
    by code_simp
  moreover have "any_src_addr ''10.0.0.2'' (fi_src_addrs sample_netenv)" "\<not> any_src_addr ''10.0.0.1'' (fi_src_addrs sample_netenv)"
    by code_simp+
  then have "local_ip sample_netenv (?ips ! 1)" "\<forall>j < 1. \<not> local_ip sample_netenv (?ips ! j)"
    by (simp_all add: local_ip_def any_src_addr_iff)
  moreover have "fi_alloc_ok sample_netenv" "fi_getinfo_ret sample_netenv = 0" "rc_hosts empty_context = []"
    "length (ri_host_names (sc_rpc ?cfg)) + 1 < 2 ^ 31" "1 < length ?ips"
    by (simp_all add: sample_netenv_def empty_context_def sample_cluster_def)
  ultimately show ?thesis
    using server_init_succeeds[of sample_netenv empty_context ?cfg sample_hshm ?ips 1 ?cfg] names by auto
qed

text \<open>
  C21: how resolving a host name fails. A nonzero return of \<open>gethostbyname_r\<close> ends the
  process with code 1; but a zero return with no answer leaves the zeroed \<open>hostent\<close>, whose
  null \<open>h_addr_list\<close> the code then reads: undefined behaviour, and \<open>ServerInit\<close> inherits it
  for every host list whose first unresolvable name has this outcome.
\<close>

theorem unresolved_host_failure:
  assumes "\<not> looks_like_ip name" "rc_hosts c = []"
    and "ri_host_names (sc_rpc cfg) = before @ name # after"
    and "rmap (get_ip_address H E) before = Inr ips"
  shows "(resolve E name = (0, None) \<longrightarrow> server_init H E cfg c = Inl Undef) \<and>
         (fst (resolve E name) \<noteq> 0 \<and> fatal_exits H \<longrightarrow> server_init H E cfg c = Inl (Exits 1))"
proof -
  have fails: "build_hosts H E (before @ name # after) n = Inl e"
    if "get_ip_address H E name = Inl e" for e n
    using assms(4) that
    by (induction before arbitrary: ips n) (fastforce simp: rbind_eq_Inr)+
  have "get_ip_address H E name = Inl Undef" if "resolve E name = (0, None)"
    using assms(1) that by (simp add: get_ip_address_def)
  moreover have "get_ip_address H E name = Inl (Exits 1)" if "fst (resolve E name) \<noteq> 0" "fatal_exits H"
    using assms(1) that by (cases "resolve E name") (simp add: get_ip_address_def)
  ultimately show ?thesis
    using fails assms(2,3) by (simp add: server_init_def Let_def)
qed

theorem unresolved_host_failure_witness:
  "server_init sample_hshm sample_netenv (sample_cluster [''10.0.0.1'', ''nowhere''] False) empty_context = Inl Undef"
proof -
  have "\<not> looks_like_ip ''nowhere''"
    by code_simp
  moreover have "rmap (get_ip_address sample_hshm sample_netenv) [''10.0.0.1''] = Inr [''10.0.0.1'']"
    by code_simp
  moreover have "resolve sample_netenv ''nowhere'' = (0, None)"
    by (simp add: sample_netenv_def)
  ultimately show ?thesis
    using unresolved_host_failure[of "''nowhere''" empty_context
        "sample_cluster [''10.0.0.1'', ''nowhere''] False" "[''10.0.0.1'']" "[]" sample_hshm sample_netenv]
    by (simp add: empty_context_def sample_cluster_def)
qed

text \<open>
  C19: node ids and the table. Under the table invariant the ids \<open>1 .. NumHosts()\<close> name the hosts of
  the table in order, by address and by name, so a loop over them never fails. For every
  other id, 0 included, the address lookup throws, and the name lookup ends the process
  with code 1 where the fatal log level exits (and would read past the vector otherwise).
\<close>

theorem node_directory_total:
  assumes "rc_table c"
  shows "(if 1 \<le> unat i \<and> unat i \<le> unat (num_hosts c)
      then get_ip_address_from_node_id c i = Inr (hi_ip_addr (rc_hosts c ! (unat i - 1))) \<and>
        get_host_name_from_node_id H c i = Inr (hi_hostname (rc_hosts c ! (unat i - 1)))
      else get_ip_address_from_node_id c i = Inl (Throws Std_exn) \<and>
        get_host_name_from_node_id H c i = Inl (if fatal_exits H then Exits 1 else Undef)) \<and>
    rmap (get_ip_address_from_node_id c) (node_ids (unat (num_hosts c))) = Inr (map hi_ip_addr (rc_hosts c)) \<and>
    rmap (get_host_name_from_node_id H c) (node_ids (unat (num_hosts c))) = Inr (map hi_hostname (rc_hosts c))"
proof -
  have n: "unat (num_hosts c) = length (rc_hosts c)"
    using rc_table_bound[OF assms] by (simp add: num_hosts_def unat_of_nat_u64)
  have nth: "map (\<lambda>k. f (rc_hosts c ! k)) [0..<length (rc_hosts c)] = map f (rc_hosts c)"
    for f :: "host_info \<Rightarrow> string"
    by (intro nth_equalityI) simp_all
  show ?thesis
    using get_ip_known[OF assms, of i] get_ip_unknown[OF assms, of i]
      get_host_name_known[OF assms, of i H] get_host_name_unknown[OF assms, of i H]
      ip_dir.lookup_all[OF assms] name_dir.lookup_all[OF assms, of H]
    unfolding n nth helog_fatal_def by (simp split: if_splits)
qed

theorem node_directory_total_witness:
  "(let c = empty_context\<lparr>rc_hosts := [host_info_make ''n1'' ''10.0.0.1'' 1, host_info_make ''n2'' ''10.0.0.2'' 2]\<rparr>
    in get_ip_address_from_node_id c 2 = Inr ''10.0.0.2'' \<and> get_host_name_from_node_id sample_hshm c 2 = Inr ''n2'' \<and>
       get_ip_address_from_node_id c 3 = Inl (Throws Std_exn) \<and> get_host_name_from_node_id sample_hshm c 3 = Inl (Exits 1) \<and>
       get_host_name_from_node_id sample_hshm c 0 = Inl (Exits 1))"
proof -
  let ?c = "empty_context\<lparr>rc_hosts := [host_info_make ''n1'' ''10.0.0.1'' 1, host_info_make ''n2'' ''10.0.0.2'' 2]\<rparr>"
  have t: "rc_table ?c"
    by (auto simp: rc_table_def host_info_make_def less_Suc_eq)
  have n: "unat (num_hosts ?c) = 2"
    by (simp add: num_hosts_def)
  show ?thesis
    using node_directory_total[OF t, of 2 sample_hshm] node_directory_total[OF t, of 3 sample_hshm]
      node_directory_total[OF t, of 0 sample_hshm]
    unfolding n Let_def by (simp add: sample_hshm_fatal host_info_make_def)
qed

text \<open>
  The address a node serves on. After \<open>ServerInit\<close> it is always defined: \<open>shm\<close> for the
  shared-memory protocol, and otherwise protocol, domain (when there is one), this node's
  host name and the port, in the form \<open>protocol://[domain/]host:port\<close>.
\<close>

lemma my_rpc_address_form:
  assumes "rc_inv c" "rc_config c = Some cfg"
  shows "get_my_rpc_address H c = Inr
    (if ri_protocol (sc_rpc cfg) = ''shm'' then ''shm''
     else ri_protocol (sc_rpc cfg) @ ''://'' @
       (if ri_domain (sc_rpc cfg) = [] then [] else ri_domain (sc_rpc cfg) @ ''/'') @
       hi_hostname (rc_hosts c ! (unat (rc_node_id c) - 1)) @ '':'' @ to_string_int (rc_port c))"
  using assms name_dir.lookup_entry[of c "rc_node_id c" H]
  by (simp add: rc_inv_def get_my_rpc_address_def get_rpc_address_def Let_def)

end
