(* ===== verification/Data_Transfer.thy ===== *)
theory Data_Transfer
  imports Chi_Serial
begin

text \<open>
  \<open>include/test_networks/serialize_defn.h\<close>: the transfer flags, \<open>DataTransferBase\<close> and
  \<open>SegmentedTransfer\<close>. The heap maps the address of each live block to its size; \<open>malloc\<close>
  is an allocator \<open>M\<close> that picks an address (0 for a null result), with the documented law
  \<open>malloc_fresh\<close>. The archive's support for \<open>std::vector\<close> is a parameter with the law
  \<open>vec_pair\<close>.
\<close>

section \<open>Flags\<close>

definition DT_EXPOSE :: "hshm \<Rightarrow> u32" where "DT_EXPOSE H = bit_opt H 0"
definition DT_WRITE :: "hshm \<Rightarrow> u32" where "DT_WRITE H = bit_opt H 1 OR DT_EXPOSE H"
definition DT_FREE_DATA :: "hshm \<Rightarrow> u32" where "DT_FREE_DATA H = bit_opt H 2"

lemma dt_flag_values:
  assumes "hshm_bits H"
  shows "DT_EXPOSE H = 1" "DT_WRITE H = 3" "DT_FREE_DATA H = 4"
  using assms by (simp_all add: DT_EXPOSE_def DT_WRITE_def DT_FREE_DATA_def hshm_bits_simps)

section \<open>DataTransfer\<close>

record data_transfer =
  dt_flags :: u32
  dt_data :: u64
  dt_data_size :: u64

definition dt_make :: "u32 \<Rightarrow> u64 \<Rightarrow> u64 \<Rightarrow> data_transfer" where
  "dt_make flags data data_size = \<lparr>dt_flags = flags, dt_data = data, dt_data_size = data_size\<rparr>"

definition dt_copy :: "data_transfer \<Rightarrow> data_transfer" where
  "dt_copy xfer = \<lparr>dt_flags = dt_flags xfer, dt_data = dt_data xfer, dt_data_size = dt_data_size xfer\<rparr>"

definition dt_eq :: "data_transfer \<Rightarrow> data_transfer \<Rightarrow> bool" where
  "dt_eq a b \<longleftrightarrow> dt_flags a = dt_flags b \<and> dt_data a = dt_data b \<and> dt_data_size a = dt_data_size b"

text \<open>
  The pointer is passed as the temporary \<open>(size_t)data_\<close>: an input archive reads into the
  temporary and the object's own pointer stays.
\<close>

definition dt_serialize :: "'b archive \<Rightarrow> 'b list \<Rightarrow> data_transfer \<Rightarrow> exn + ('b list \<times> data_transfer)" where
  "dt_serialize ar s x =
     rbind (ar_bits ar s (dt_flags x)) (\<lambda>(s, fl).
     rbind (ar_u64 ar s (dt_data x)) (\<lambda>(s, temporary).
     rbind (ar_u64 ar s (dt_data_size x)) (\<lambda>(s, n).
     Inr (s, x\<lparr>dt_flags := fl, dt_data_size := n\<rparr>))))"

definition keep_pointer :: "data_transfer \<Rightarrow> data_transfer \<Rightarrow> data_transfer" where
  "keep_pointer sent old = sent\<lparr>dt_data := dt_data old\<rparr>"

lemma dt_serial_ok: "archive_pair Out In \<Longrightarrow> serial_ok Out In dt_serialize keep_pointer"
proof (erule archive_pairE, goal_cases)
  case (1 c32 c64 cb cop cs)
  show ?case
    by (rule serial_okI[where code = "\<lambda>x. cb (dt_flags x) @ c64 (dt_data x) @ c64 (dt_data_size x)"])
      (simp_all add: dt_serialize_def keep_pointer_def 1)
qed

interpretation dt_codec: codec dt_serialize keep_pointer
  by unfold_locales (rule dt_serial_ok)

section \<open>The heap\<close>

type_synonym heap = "u64 \<Rightarrow> u64 option"

type_synonym allocator = "heap \<Rightarrow> u64 \<Rightarrow> u64"

definition malloc :: "allocator \<Rightarrow> heap \<Rightarrow> u64 \<Rightarrow> heap \<times> u64" where
  "malloc M h n = (let a = M h n in if a = 0 then (h, 0) else (h(a \<mapsto> n), a))"

definition malloc_fresh :: "allocator \<Rightarrow> bool" where
  "malloc_fresh M \<longleftrightarrow> (\<forall>h n. M h n \<noteq> 0 \<longrightarrow> h (M h n) = None)"

section \<open>SegmentedTransfer\<close>

record segmented_transfer =
  st_ret_node :: u32
  st_bulk :: "data_transfer list"
  st_md :: string

fun allocate_bulks :: "allocator \<Rightarrow> heap \<Rightarrow> data_transfer list \<Rightarrow> heap \<times> data_transfer list" where
  "allocate_bulks M h [] = (h, [])"
| "allocate_bulks M h (xfer # xs) =
     (let (h1, p) = malloc M h (dt_data_size xfer);
          (h2, ys) = allocate_bulks M h1 xs
      in (h2, xfer\<lparr>dt_data := p\<rparr> # ys))"

definition allocate_bulks_server :: "allocator \<Rightarrow> heap \<Rightarrow> segmented_transfer \<Rightarrow> heap \<times> segmented_transfer" where
  "allocate_bulks_server M h x =
     (let (h', bulk) = allocate_bulks M h (st_bulk x) in (h', x\<lparr>st_bulk := bulk\<rparr>))"

definition st_size :: "segmented_transfer \<Rightarrow> u64" where
  "st_size x = foldl (\<lambda>sz xfer. sz + dt_data_size xfer) 0 (st_bulk x)"

text \<open>
  \<open>vec\<close> is the archive's loader or saver of a vector, given that of an element. Loading
  resizes the vector first: it reads into the old elements that are kept and, beyond them,
  into new ones, which \<open>resize\<close> initialises to zero (\<open>DataTransferBase() = default\<close>).
\<close>

type_synonym 'b vec_op =
  "('b list \<Rightarrow> data_transfer \<Rightarrow> exn + ('b list \<times> data_transfer)) \<Rightarrow>
   'b list \<Rightarrow> data_transfer list \<Rightarrow> exn + ('b list \<times> data_transfer list)"

definition vec_pair :: "'b archive \<Rightarrow> 'b archive \<Rightarrow> 'b vec_op \<Rightarrow> 'b vec_op \<Rightarrow> bool" where
  "vec_pair Out In vout vin \<longleftrightarrow>
     (\<forall>ser keep. serial_ok Out In ser keep \<longrightarrow>
        (\<exists>code. (\<forall>s xs. vout (ser Out) s xs = Inr (s @ code xs, xs)) \<and>
                (\<forall>t xs ys. \<exists>news. length news = length xs - length ys \<and> (\<forall>d \<in> set news. dt_data d = 0) \<and>
                    vin (ser In) (code xs @ t) ys = Inr (t, map2 keep xs (take (length xs) ys @ news)))))"

definition st_serialize ::
    "'b vec_op \<Rightarrow> 'b archive \<Rightarrow> 'b list \<Rightarrow> segmented_transfer \<Rightarrow> exn + ('b list \<times> segmented_transfer)" where
  "st_serialize vec ar s x =
     rbind (ar_u32 ar s (st_ret_node x)) (\<lambda>(s, node).
     rbind (ar_string ar s (st_md x)) (\<lambda>(s, md).
     rbind (vec (dt_serialize ar) s (st_bulk x)) (\<lambda>(s, bulk).
     Inr (s, x\<lparr>st_ret_node := node, st_bulk := bulk, st_md := md\<rparr>))))"

section \<open>Lemmas\<close>

lemma allocate_bulks_keeps:
  "allocate_bulks M h xs = (h', ys) \<Longrightarrow>
   map dt_flags ys = map dt_flags xs \<and> map dt_data_size ys = map dt_data_size xs"
  by (induction xs arbitrary: h h' ys) (auto split: prod.splits)

lemma allocate_bulks_live:
  assumes "malloc_fresh M"
  shows "allocate_bulks M h xs = (h', ys) \<Longrightarrow>
    (\<forall>a n. h a = Some n \<longrightarrow> h' a = Some n) \<and>
    (\<forall>y \<in> set ys. dt_data y \<noteq> 0 \<longrightarrow> h' (dt_data y) = Some (dt_data_size y) \<and> h (dt_data y) = None)"
proof (induction xs arbitrary: h h' ys)
  case (Cons x xs)
  obtain h1 p where m: "malloc M h (dt_data_size x) = (h1, p)"
    by force
  obtain h2 zs where r: "allocate_bulks M h1 xs = (h2, zs)"
    by force
  have ys: "h' = h2" "ys = x\<lparr>dt_data := p\<rparr> # zs"
    using Cons.prems m r by auto
  have step: "(\<forall>a n. h a = Some n \<longrightarrow> h1 a = Some n) \<and> (p \<noteq> 0 \<longrightarrow> h1 p = Some (dt_data_size x) \<and> h p = None)"
    using m assms[unfolded malloc_fresh_def, rule_format, of h "dt_data_size x"]
    by (auto simp: malloc_def Let_def split: if_splits)
  have "h a = None" if "h1 a = None" for a
    using step that by (metis not_None_eq option.distinct(1))
  with Cons.IH[OF r] step show ?case
    unfolding ys by auto
qed simp

lemma allocate_bulks_distinct:
  assumes "malloc_fresh M"
  shows "allocate_bulks M h xs = (h', ys) \<Longrightarrow> distinct (filter (\<lambda>p. p \<noteq> 0) (map dt_data ys))"
proof (induction xs arbitrary: h h' ys)
  case (Cons x xs)
  obtain h1 p where m: "malloc M h (dt_data_size x) = (h1, p)"
    by force
  obtain h2 zs where r: "allocate_bulks M h1 xs = (h2, zs)"
    by force
  have ys: "ys = x\<lparr>dt_data := p\<rparr> # zs"
    using Cons.prems m r by auto
  have "p \<noteq> 0 \<Longrightarrow> h1 p \<noteq> None"
    using m by (auto simp: malloc_def Let_def split: if_splits)
  moreover have "\<forall>y \<in> set zs. dt_data y \<noteq> 0 \<longrightarrow> h1 (dt_data y) = None"
    using allocate_bulks_live[OF assms r] by blast
  ultimately show ?case
    using Cons.IH[OF r] unfolding ys by auto
qed simp

lemma st_size_sum: "foldl (\<lambda>sz xfer. sz + dt_data_size xfer) k xs = k + sum_list (map dt_data_size xs)"
  by (induction xs arbitrary: k) (simp_all add: add.assoc)

lemma unat_sum_list_mod: "unat (sum_list (ws :: u64 list)) = sum_list (map unat ws) mod 2 ^ 64"
  by (induction ws) (simp_all add: unat_word_ariths mod_simps)

text \<open>
  The pointers of a vector of \<open>n\<close> segments that was loaded over the segments of \<open>y\<close>: those of the
  receiver's kept elements, and null for new ones.
\<close>

definition own_pointers :: "nat \<Rightarrow> segmented_transfer \<Rightarrow> u64 list" where
  "own_pointers n y = take n (map dt_data (st_bulk y)) @ replicate (n - length (st_bulk y)) 0"

lemma length_own_pointers [simp]: "length (own_pointers n y) = n"
  by (simp add: own_pointers_def)

definition with_pointers :: "data_transfer list \<Rightarrow> u64 list \<Rightarrow> data_transfer list" where
  "with_pointers xs ptrs = map2 (\<lambda>d p. d\<lparr>dt_data := p\<rparr>) xs ptrs"

lemma with_pointers_fields:
  assumes "length ptrs = length xs"
  shows "map dt_flags (with_pointers xs ptrs) = map dt_flags xs"
    and "map dt_data_size (with_pointers xs ptrs) = map dt_data_size xs"
    and "map dt_data (with_pointers xs ptrs) = ptrs"
  using assms by (auto simp: with_pointers_def intro!: nth_equalityI)

lemma st_wire:
  assumes "archive_pair Out In" and "vec_pair Out In vout vin"
  shows "\<exists>buf. st_serialize vout Out [] x = Inr (buf, x) \<and>
    st_serialize vin In (buf @ rest) y =
      Inr (rest, x\<lparr>st_bulk := with_pointers (st_bulk x) (own_pointers (length (st_bulk x)) y)\<rparr>)"
proof -
  obtain code where v: "\<And>s xs. vout (dt_serialize Out) s xs = Inr (s @ code xs, xs)"
    "\<And>t xs ys. \<exists>news. length news = length xs - length ys \<and> (\<forall>d \<in> set news. dt_data d = 0) \<and>
       vin (dt_serialize In) (code xs @ t) ys = Inr (t, map2 keep_pointer xs (take (length xs) ys @ news))"
    using assms(2) dt_codec.codec_law[OF assms(1)] unfolding vec_pair_def by metis
  show ?thesis
  proof (rule archive_pairE[OF assms(1)], goal_cases)
    case (1 c32 c64 cb cop cs)
    let ?xs = "st_bulk x" and ?buf = "c32 (st_ret_node x) @ cs (st_md x) @ code (st_bulk x)"
    obtain news where o: "length news = length ?xs - length (st_bulk y)" "\<forall>d \<in> set news. dt_data d = 0"
      "vin (dt_serialize In) (code ?xs @ rest) (st_bulk y) =
         Inr (rest, map2 keep_pointer ?xs (take (length ?xs) (st_bulk y) @ news))"
      using v(2) by blast
    have "map dt_data news = replicate (length ?xs - length (st_bulk y)) 0"
      using o(1,2) by (intro replicate_eqI) auto
    then have own: "own_pointers (length ?xs) y = map dt_data (take (length ?xs) (st_bulk y) @ news)"
      by (simp add: own_pointers_def take_map)
    have keep: "with_pointers as (map dt_data bs) = map2 keep_pointer as bs" for as bs
      unfolding with_pointers_def keep_pointer_def zip_map2 by (simp add: case_prod_unfold)
    have "with_pointers ?xs (own_pointers (length ?xs) y) = map2 keep_pointer ?xs (take (length ?xs) (st_bulk y) @ news)"
      unfolding own by (rule keep)
    then show ?case
      by (intro exI[of _ ?buf]) (simp add: st_serialize_def 1 v(1) o)
  qed
qed

lemma allocate_bulks_dom:
  "allocate_bulks M h xs = (h', ys) \<Longrightarrow> dom h' = dom h \<union> (set (map dt_data ys) - {0})"
proof (induction xs arbitrary: h h' ys)
  case (Cons x xs)
  obtain h1 p where m: "malloc M h (dt_data_size x) = (h1, p)"
    by force
  obtain h2 zs where r: "allocate_bulks M h1 xs = (h2, zs)"
    by force
  have "dom h1 = dom h \<union> ({p} - {0})"
    using m by (auto simp: malloc_def Let_def split: if_splits)
  with Cons.IH[OF r] Cons.prems m r show ?case
    by auto
qed simp

text \<open>The blocks of a run of \<open>AllocateBulksServer\<close>: the heaps between the calls of \<open>malloc\<close>.\<close>

lemma allocate_bulks_chain:
  "allocate_bulks M h xs = (h', ys) \<Longrightarrow>
   \<exists>hs. length hs = Suc (length xs) \<and> hs ! 0 = h \<and> last hs = h' \<and>
     (\<forall>i < length xs. malloc M (hs ! i) (dt_data_size (xs ! i)) = (hs ! Suc i, dt_data (ys ! i)))"
proof (induction xs arbitrary: h h' ys)
  case Nil
  then show ?case
    by (intro exI[of _ "[h]"]) simp
next
  case (Cons x xs)
  obtain h1 p where m: "malloc M h (dt_data_size x) = (h1, p)"
    by force
  obtain h2 zs where r: "allocate_bulks M h1 xs = (h2, zs)"
    by force
  obtain hs where hs: "length hs = Suc (length xs)" "hs ! 0 = h1" "last hs = h2"
    "\<forall>i < length xs. malloc M (hs ! i) (dt_data_size (xs ! i)) = (hs ! Suc i, dt_data (zs ! i))"
    using Cons.IH[OF r] by blast
  have "malloc M ((h # hs) ! i) (dt_data_size ((x # xs) ! i)) = ((h # hs) ! Suc i, dt_data (ys ! i))"
    if "i < length (x # xs)" for i
    using that Cons.prems m r hs(2,4) by (cases i) auto
  then show ?case
    using Cons.prems m r hs(1,3) by (intro exI[of _ "h # hs"]) auto
qed

lemma allocate_bulks_mallocs:
  assumes "allocate_bulks M h xs = (h', ys)" "y \<in> set ys"
  shows "\<exists>g g'. malloc M g (dt_data_size y) = (g', dt_data y)"
proof -
  obtain i where i: "i < length ys" "y = ys ! i"
    using assms(2) by (auto simp: in_set_conv_nth)
  have "map dt_data_size ys = map dt_data_size xs"
    using allocate_bulks_keeps[OF assms(1)] by simp
  then have "length ys = length xs" "dt_data_size (ys ! i) = dt_data_size (xs ! i)"
    using i(1) by (metis length_map, metis length_map nth_map)
  then show ?thesis
    using allocate_bulks_chain[OF assms(1)] i by metis
qed

text \<open>The allocator has room for \<open>n\<close> more blocks.\<close>

definition malloc_room :: "allocator \<Rightarrow> heap \<Rightarrow> nat \<Rightarrow> bool" where
  "malloc_room M h n \<longleftrightarrow> (\<forall>g k. card (dom g) < card (dom h) + n \<longrightarrow> M g k \<noteq> 0)"

lemma allocate_bulks_nonnull:
  "allocate_bulks M h xs = (h', ys) \<Longrightarrow> malloc_room M h (length xs) \<Longrightarrow> 0 \<notin> set (map dt_data ys)"
proof (induction xs arbitrary: h h' ys)
  case (Cons x xs)
  obtain h1 p where m: "malloc M h (dt_data_size x) = (h1, p)"
    by force
  obtain h2 zs where r: "allocate_bulks M h1 xs = (h2, zs)"
    by force
  have p: "p \<noteq> 0" "card (dom h1) \<le> Suc (card (dom h))"
    using m Cons.prems(2) by (auto simp: malloc_def Let_def malloc_room_def card_insert_if split: if_splits)
  then have "malloc_room M h1 (length xs)"
    using Cons.prems(2) by (auto simp: malloc_room_def)
  with Cons.IH[OF r] p(1) Cons.prems(1) m r show ?case
    by auto
qed simp

section \<open>Properties\<close>

text \<open>
  C30: what a segmented transfer looks like after the wire. With matching archives, loading a
  saved one restores the return node, the metadata and, segment by segment in order, the
  flags and sizes, and consumes exactly what was written. The data pointers of the sender
  are written but never taken over: every loaded segment has the pointer that the receiver's
  own element had, and a null pointer where the vector had to grow.
\<close>

theorem segmented_transfer_wire:
  assumes "archive_pair Out In" and "vec_pair Out In vout vin"
  shows "\<exists>buf. st_serialize vout Out [] x = Inr (buf, x) \<and>
    (\<exists>z. st_serialize vin In (buf @ rest) y = Inr (rest, z) \<and>
      st_ret_node z = st_ret_node x \<and> st_md z = st_md x \<and>
      map dt_flags (st_bulk z) = map dt_flags (st_bulk x) \<and>
      map dt_data_size (st_bulk z) = map dt_data_size (st_bulk x) \<and>
      map dt_data (st_bulk z) = own_pointers (length (st_bulk x)) y)"
proof -
  obtain buf where "st_serialize vout Out [] x = Inr (buf, x)"
    "st_serialize vin In (buf @ rest) y =
       Inr (rest, x\<lparr>st_bulk := with_pointers (st_bulk x) (own_pointers (length (st_bulk x)) y)\<rparr>)"
    using st_wire[OF assms] by blast
  then show ?thesis
    by (intro exI[of _ buf]) (simp add: with_pointers_fields)
qed

text \<open>A vector format for the witness: a length token, then the elements; new objects are zeroed.\<close>

fun elems_save ::
    "('b list \<Rightarrow> data_transfer \<Rightarrow> exn + ('b list \<times> data_transfer)) \<Rightarrow> 'b list \<Rightarrow> data_transfer list \<Rightarrow> exn + 'b list" where
  "elems_save ser s [] = Inr s"
| "elems_save ser s (x # xs) = rbind (ser s x) (\<lambda>(s', _). elems_save ser s' xs)"

fun elems_load ::
    "('b list \<Rightarrow> data_transfer \<Rightarrow> exn + ('b list \<times> data_transfer)) \<Rightarrow> nat \<Rightarrow> 'b list \<Rightarrow> data_transfer list \<Rightarrow>
     exn + ('b list \<times> data_transfer list)" where
  "elems_load ser 0 s ys = Inr (s, [])"
| "elems_load ser (Suc n) s ys =
     rbind (ser s (case ys of [] \<Rightarrow> dt_make 0 0 0 | y # _ \<Rightarrow> y)) (\<lambda>(s', z).
     rbind (elems_load ser n s' (tl ys)) (\<lambda>(s'', zs). Inr (s'', z # zs)))"

definition token_vec_out :: "token vec_op" where
  "token_vec_out ser s xs = rbind (elems_save ser (s @ [TLen (length xs)]) xs) (\<lambda>b. Inr (b, xs))"

definition token_vec_in :: "token vec_op" where
  "token_vec_in ser s ys = (case s of TLen n # t \<Rightarrow> elems_load ser n t ys | _ \<Rightarrow> Inl Std_exn)"

lemma elems_save_concat:
  "(\<And>s x. ser s x = Inr (s @ code x, x)) \<Longrightarrow> elems_save ser s xs = Inr (s @ concat (map code xs))"
  by (induction xs arbitrary: s) simp_all

text \<open>The elements that \<open>n\<close> loads read into.\<close>

abbreviation resized :: "nat \<Rightarrow> data_transfer list \<Rightarrow> data_transfer list" where
  "resized n ys \<equiv> take n ys @ replicate (n - length ys) (dt_make 0 0 0)"

lemma elems_load_concat:
  "(\<And>t x y. ser (code x @ t) y = Inr (t, keep x y)) \<Longrightarrow>
   elems_load ser (length xs) (concat (map code xs) @ t) ys = Inr (t, map2 keep xs (resized (length xs) ys))"
proof (induction xs arbitrary: ys)
  case (Cons x xs)
  then show ?case
    by (cases ys) simp_all
qed simp

lemma token_vec_pair: "vec_pair token_out token_in token_vec_out token_vec_in"
  unfolding vec_pair_def
proof (intro allI impI, erule serial_okE)
  fix ser :: "token archive \<Rightarrow> token list \<Rightarrow> data_transfer \<Rightarrow> exn + (token list \<times> data_transfer)" and keep code
  assume out: "\<And>s x. ser token_out s x = Inr (s @ code x, x)"
    and inp: "\<And>t x y. ser token_in (code x @ t) y = Inr (t, keep x y)"
  let ?code = "\<lambda>xs. TLen (length xs) # concat (map code xs)"
  have "\<forall>s xs. token_vec_out (ser token_out) s xs = Inr (s @ ?code xs, xs)"
    by (simp add: token_vec_out_def elems_save_concat[OF out])
  moreover have "token_vec_in (ser token_in) (?code xs @ t) ys = Inr (t, map2 keep xs (resized (length xs) ys))" for t xs ys
    using elems_load_concat[where ser = "ser token_in" and code = code and keep = keep, OF inp]
    by (simp add: token_vec_in_def)
  then have "\<exists>news. length news = length xs - length ys \<and> (\<forall>d \<in> set news. dt_data d = 0) \<and>
      token_vec_in (ser token_in) (?code xs @ t) ys = Inr (t, map2 keep xs (take (length xs) ys @ news))" for t xs ys
    by (intro exI[of _ "replicate (length xs - length ys) (dt_make 0 0 0)"]) (auto simp: dt_make_def)
  ultimately show "\<exists>code. (\<forall>s xs. token_vec_out (ser token_out) s xs = Inr (s @ code xs, xs)) \<and>
      (\<forall>t xs ys. \<exists>news. length news = length xs - length ys \<and> (\<forall>d \<in> set news. dt_data d = 0) \<and>
         token_vec_in (ser token_in) (code xs @ t) ys = Inr (t, map2 keep xs (take (length xs) ys @ news)))"
    by (intro exI[of _ ?code] conjI) blast+
qed

definition sample_transfer :: segmented_transfer where
  "sample_transfer = \<lparr>st_ret_node = 1, st_bulk = [dt_make 3 77 10, dt_make 3 78 20], st_md = ''md''\<rparr>"

theorem segmented_transfer_wire_witness:
  "\<exists>buf z. st_serialize token_vec_out token_out [] sample_transfer = Inr (buf, sample_transfer) \<and>
     st_serialize token_vec_in token_in buf (sample_transfer\<lparr>st_bulk := [dt_make 9 55 9]\<rparr>) = Inr ([], z) \<and>
     st_md z = ''md'' \<and> map dt_data_size (st_bulk z) = [10, 20] \<and> map dt_data (st_bulk z) = [55, 0]"
proof -
  let ?y = "sample_transfer\<lparr>st_bulk := [dt_make 9 55 9]\<rparr>"
  have "own_pointers 2 ?y = [55, 0]" "length (st_bulk sample_transfer) = 2"
    "map dt_data_size (st_bulk sample_transfer) = [10, 20]" "st_md sample_transfer = ''md''"
    by (simp_all add: own_pointers_def sample_transfer_def dt_make_def)
  then show ?thesis
    using segmented_transfer_wire[OF token_pair token_vec_pair, of sample_transfer "[]" ?y] by auto
qed

text \<open>
  C33: the server's buffers. \<open>AllocateBulksServer\<close> calls \<open>malloc\<close> once per segment, in order and
  with its size, and each segment gets the pointer that this call returned; flags and sizes
  stay. With an allocator that never returns a live address every non-null pointer owns
  a block of its segment's size that was free before, no two segments share one, no block
  that was live before is lost and no other is made; and as long as the allocator has room
  no pointer is null.
\<close>

theorem allocate_bulks_server_safe:
  assumes "malloc_fresh M" and "allocate_bulks_server M h x = (h', x')"
  shows "st_ret_node x' = st_ret_node x \<and> st_md x' = st_md x \<and> st_size x' = st_size x \<and>
    map dt_flags (st_bulk x') = map dt_flags (st_bulk x) \<and>
    map dt_data_size (st_bulk x') = map dt_data_size (st_bulk x) \<and>
    (\<exists>hs. length hs = Suc (length (st_bulk x)) \<and> hs ! 0 = h \<and> last hs = h' \<and>
      (\<forall>i < length (st_bulk x).
         malloc M (hs ! i) (dt_data_size (st_bulk x ! i)) = (hs ! Suc i, dt_data (st_bulk x' ! i)))) \<and>
    distinct (filter (\<lambda>p. p \<noteq> 0) (map dt_data (st_bulk x'))) \<and>
    (\<forall>d \<in> set (st_bulk x'). dt_data d \<noteq> 0 \<longrightarrow> h' (dt_data d) = Some (dt_data_size d) \<and> h (dt_data d) = None) \<and>
    (\<forall>a n. h a = Some n \<longrightarrow> h' a = Some n) \<and>
    dom h' = dom h \<union> (set (map dt_data (st_bulk x')) - {0}) \<and>
    (malloc_room M h (length (st_bulk x)) \<longrightarrow> 0 \<notin> set (map dt_data (st_bulk x')))"
proof -
  obtain ys where ys: "allocate_bulks M h (st_bulk x) = (h', ys)" "x' = x\<lparr>st_bulk := ys\<rparr>"
    using assms(2) by (auto simp: allocate_bulks_server_def split: prod.splits)
  have "st_size x' = st_size x"
    using allocate_bulks_keeps[OF ys(1)] by (simp add: ys(2) st_size_def st_size_sum)
  then show ?thesis
    using allocate_bulks_keeps[OF ys(1)] allocate_bulks_live[OF assms(1) ys(1)] allocate_bulks_dom[OF ys(1)]
      allocate_bulks_distinct[OF assms(1) ys(1)] allocate_bulks_chain[OF ys(1)] allocate_bulks_nonnull[OF ys(1)]
    unfolding ys(2) by simp
qed

text \<open>An allocator for the witnesses: the address after the request, when it is free.\<close>

definition sample_malloc :: allocator where
  "sample_malloc h n = (if h (4096 + n) = None then 4096 + n else 0)"

lemma sample_malloc_fresh: "malloc_fresh sample_malloc"
  by (simp add: malloc_fresh_def sample_malloc_def)

text \<open>It has room for two blocks on the empty heap.\<close>

definition two_blocks :: allocator where
  "two_blocks h n = (if h 4096 = None then 4096 else if h 8192 = None then 8192 else 0)"

lemma two_blocks_fresh: "malloc_fresh two_blocks"
  by (simp add: malloc_fresh_def two_blocks_def)

lemma two_blocks_room: "malloc_room two_blocks (\<lambda>_. None) 2"
  unfolding malloc_room_def
proof (intro allI impI)
  fix g :: heap and k
  assume c: "card (dom g) < card (dom (\<lambda>_. None :: u64 option)) + 2"
  show "two_blocks g k \<noteq> 0"
  proof
    assume "two_blocks g k = 0"
    then have "{4096, 8192} \<subseteq> dom g"
      by (auto simp: two_blocks_def split: if_splits)
    then have "card {4096 :: u64, 8192} \<le> card (dom g)"
      by (intro card_mono) auto
    with c show False
      by simp
  qed
qed

theorem allocate_bulks_server_safe_witness:
  "\<exists>h' x'. allocate_bulks_server two_blocks (\<lambda>_. None) sample_transfer = (h', x') \<and>
     map dt_data_size (st_bulk x') = [10, 20] \<and> 0 \<notin> set (map dt_data (st_bulk x')) \<and>
     h' (dt_data (st_bulk x' ! 0)) = Some 10 \<and> h' (dt_data (st_bulk x' ! 1)) = Some 20"
proof -
  obtain h' x' where r: "allocate_bulks_server two_blocks (\<lambda>_. None) sample_transfer = (h', x')"
    by force
  have "length (st_bulk sample_transfer) = 2" "map dt_data_size (st_bulk sample_transfer) = [10, 20]"
    by (simp_all add: sample_transfer_def dt_make_def)
  then have p: "map dt_data_size (st_bulk x') = [10, 20]" "0 \<notin> set (map dt_data (st_bulk x'))"
    "\<forall>d \<in> set (st_bulk x'). dt_data d \<noteq> 0 \<longrightarrow> h' (dt_data d) = Some (dt_data_size d)"
    using allocate_bulks_server_safe[OF two_blocks_fresh r] two_blocks_room by simp_all
  then obtain d e where "st_bulk x' = [d, e]" "dt_data_size d = 10" "dt_data_size e = 20"
    by (auto simp: map_eq_Cons_conv)
  with p r show ?thesis
    by auto
qed

text \<open>
  \<open>size()\<close> is the sum of the segment sizes modulo \<open>2^64\<close>, so it is the exact payload
  size as long as the payload is smaller than the address space.
\<close>

lemma segmented_transfer_size:
  "unat (st_size x) = sum_list (map (\<lambda>d. unat (dt_data_size d)) (st_bulk x)) mod 2 ^ 64"
  using unat_sum_list_mod[of "map dt_data_size (st_bulk x)"]
  by (simp add: st_size_def st_size_sum comp_def)

end
