(* ===== verification/Machine_Loops.thy ===== *)
theory Machine_Loops
  imports Net_Prelude
begin

text \<open>
  The two kinds of counting loop of the program, with their machine counters, and the
  structural loops they are equal to in the range where the counters do not wrap.
  \<^item> \<open>for (NodeId id = 1; id <= hosts; ++id)\<close>: a \<open>u32\<close> counter against a \<open>size_t\<close> bound.
    The counter wraps, so the loop may run forever: \<open>node_loop\<close> is a partial function.
  \<^item> \<open>for (int i = 0; i < bound; ++i)\<close>: an \<open>int\<close> counter whose overflow is undefined.
\<close>

section \<open>Steps that may not return\<close>

text \<open>\<open>None\<close> is a run that never ends.\<close>

type_synonym ('s, 'a) ostep = "'s \<Rightarrow> ((failure + 'a) \<times> 's) option"

definition olift :: "('s, 'a) step \<Rightarrow> ('s, 'a) ostep" where
  "olift m s = Some (m s)"

definition obind :: "('s, 'a) ostep \<Rightarrow> ('a \<Rightarrow> ('s, 'b) ostep) \<Rightarrow> ('s, 'b) ostep" where
  "obind m f s = (case m s of
     None \<Rightarrow> None
   | Some (Inl e, t) \<Rightarrow> Some (Inl e, t)
   | Some (Inr x, t) \<Rightarrow> f x t)"

definition ocatch :: "('s, 'a) ostep \<Rightarrow> (exn \<Rightarrow> ('s, 'a) ostep option) \<Rightarrow> ('s, 'a) ostep" where
  "ocatch m h s = (case m s of
     Some (Inl (Throws x), t) \<Rightarrow> (case h x of None \<Rightarrow> Some (Inl (Throws x), t) | Some k \<Rightarrow> k t)
   | r \<Rightarrow> r)"

lemma obind_olift [simp]: "obind (olift m) f s = (case m s of (Inl e, t) \<Rightarrow> Some (Inl e, t) | (Inr x, t) \<Rightarrow> f x t)"
  by (simp add: obind_def olift_def split: prod.splits)

lemma obind_olift_olift: "obind (olift m) (\<lambda>x. olift (f x)) = olift (sbind m f)"
  by (auto simp: fun_eq_iff olift_def sbind_def obind_def split: prod.splits sum.splits)

lemma ocatch_olift: "ocatch (olift m) (\<lambda>x. map_option olift (h x)) = olift (scatch m h)"
  by (auto simp: fun_eq_iff olift_def ocatch_def scatch_def split: prod.splits sum.splits failure.splits option.splits)

lemma obind_Some:
  "m s = Some (r, t) \<Longrightarrow> obind m f s = (case r of Inl e \<Rightarrow> Some (Inl e, t) | Inr x \<Rightarrow> f x t)"
  by (simp add: obind_def split: sum.splits)

section \<open>Structural loops\<close>

fun fold_step :: "('x \<Rightarrow> 'acc \<Rightarrow> ('s, 'acc) step) \<Rightarrow> 'x list \<Rightarrow> 'acc \<Rightarrow> ('s, 'acc) step" where
  "fold_step body [] acc = sret acc"
| "fold_step body (x # xs) acc = sbind (body x acc) (fold_step body xs)"

fun iterate :: "nat \<Rightarrow> ('acc \<Rightarrow> ('s, 'acc) step) \<Rightarrow> 'acc \<Rightarrow> ('s, 'acc) step" where
  "iterate 0 body acc = sret acc"
| "iterate (Suc n) body acc = sbind (body acc) (iterate n body)"

lemma fold_step_append: "fold_step body (xs @ ys) acc = sbind (fold_step body xs acc) (fold_step body ys)"
proof (induction xs arbitrary: acc)
  case (Cons x xs)
  have "fold_step body (xs @ ys) = (\<lambda>a. sbind (fold_step body xs a) (fold_step body ys))"
    by (rule ext) (rule Cons.IH)
  then show ?case
    by (simp add: sbind_assoc)
qed simp

text \<open>
  A loop whose body always succeeds and changes the state as \<open>f\<close> says does so over the list.
\<close>

lemma fold_step_ok:
  assumes "\<And>x acc s. x \<in> set xs \<Longrightarrow> I s \<Longrightarrow> \<exists>t. body x acc s = (Inr (g x acc s), t) \<and> t = f x s \<and> I t"
    and "I s"
  shows "\<exists>acc'. fold_step body xs acc s = (Inr acc', fold f xs s) \<and> I (fold f xs s)"
  using assms
proof (induction xs arbitrary: acc s)
  case Nil
  then show ?case by (simp add: sret_def)
next
  case (Cons x xs)
  then obtain t where "body x acc s = (Inr (g x acc s), t)" "t = f x s" "I t"
    by (metis list.set_intros(1))
  with Cons show ?case
    by (simp add: sbind_def)
qed

section \<open>The loop over all nodes\<close>

partial_function (option) node_loop ::
    "(u32 \<Rightarrow> 'acc \<Rightarrow> ('s, 'acc) step) \<Rightarrow> u64 \<Rightarrow> u32 \<Rightarrow> 'acc \<Rightarrow> ('s, 'acc) ostep" where
  "node_loop body hosts node_id acc s =
     (if ucast node_id \<le> hosts
      then (case body node_id acc s of
              (Inl e, t) \<Rightarrow> Some (Inl e, t)
            | (Inr acc', t) \<Rightarrow> node_loop body hosts (node_id + 1) acc' t)
      else Some (Inr acc, s))"

lemma node_loop_from:
  assumes "hosts < 2 ^ 32 - 1" and "k \<le> hosts"
  shows "node_loop body (of_nat hosts) (of_nat (k + 1)) acc s =
    Some (fold_step body (map (\<lambda>i. of_nat (i + 1)) [k..<hosts]) acc s)"
  using assms(2)
proof (induction "hosts - k" arbitrary: k acc s)
  case 0
  have "unat (of_nat (k + 1) :: u32) = k + 1"
    using 0 assms(1) by (intro unat_of_nat_u32) simp
  then have "\<not> ucast (of_nat (k + 1) :: u32) \<le> (of_nat hosts :: u64)"
    using 0 assms(1) unat_of_nat_u64[of hosts] by (simp only: word_le_nat_alt unat_ucast_u32_u64) simp
  then show ?case
    using 0 by (subst node_loop.simps) (simp add: sret_def)
next
  case (Suc n)
  then have k: "k < hosts"
    by simp
  have "unat (of_nat (k + 1) :: u32) = k + 1"
    using k assms(1) by (intro unat_of_nat_u32) simp
  then have le: "ucast (of_nat (k + 1) :: u32) \<le> (of_nat hosts :: u64)"
    using k assms(1) unat_of_nat_u64[of hosts] by (simp only: word_le_nat_alt unat_ucast_u32_u64) simp
  have next_id: "(of_nat (k + 1) :: u32) + 1 = of_nat (Suc k + 1)"
    by simp
  have IH: "node_loop body (of_nat hosts) (of_nat (Suc k + 1)) acc' t =
      Some (fold_step body (map (\<lambda>i. of_nat (i + 1)) [Suc k..<hosts]) acc' t)" for acc' t
    using Suc by (intro Suc.hyps(1)) auto
  have split: "map (\<lambda>i. of_nat (i + 1)) [k..<hosts] = of_nat (k + 1) # map (\<lambda>i. of_nat (i + 1) :: u32) [Suc k..<hosts]"
    using k by (simp add: upt_conv_Cons)
  show ?case
    unfolding split fold_step.simps
    by (subst node_loop.simps) (auto simp only: le if_True next_id IH sbind_def split: prod.splits sum.splits)
qed

text \<open>
  With fewer than \<open>2^32 - 1\<close> hosts the loop returns, and it is the structural loop over
  \<open>1, 2, .., hosts\<close>.
\<close>

lemma node_loop_ids:
  "hosts < 2 ^ 32 - 1 \<Longrightarrow> node_loop body (of_nat hosts) 1 acc s = Some (fold_step body (node_ids hosts) acc s)"
  using node_loop_from[of hosts 0 body acc s] by (simp add: node_ids_def)

section \<open>The loop with an \<open>int\<close> counter\<close>

function rep_loop :: "int \<Rightarrow> int \<Rightarrow> ('acc \<Rightarrow> ('s, 'acc) step) \<Rightarrow> 'acc \<Rightarrow> ('s, 'acc) step" where
  "rep_loop bound i body acc s =
     (if i < bound
      then (case body acc s of
              (Inl e, t) \<Rightarrow> (Inl e, t)
            | (Inr acc', t) \<Rightarrow> if i = 2 ^ 31 - 1 then (Inl Undef, t) else rep_loop bound (i + 1) body acc' t)
      else (Inr acc, s))"
  by pat_completeness auto
termination
  by (relation "measure (\<lambda>(bound, i, body, acc, s). nat (bound - i))") auto

declare rep_loop.simps [simp del]

lemma rep_loop_iterate:
  assumes "bound < 2 ^ 31"
  shows "rep_loop bound i body acc s = iterate (nat (bound - i)) body acc s"
proof (induction "nat (bound - i)" arbitrary: i acc s)
  case 0
  then show ?case
    by (subst rep_loop.simps) (simp add: sret_def)
next
  case (Suc n)
  then have "i < bound" "nat (bound - i) = Suc n" "n = nat (bound - (i + 1))"
    by auto
  with Suc.hyps(1)[of "i + 1"] assms show ?case
    by (subst rep_loop.simps) (auto simp: sbind_def split: prod.splits sum.splits)
qed

lemma rep_loop_int: "n < 2 ^ 31 \<Longrightarrow> rep_loop (int n) 0 body acc s = iterate n body acc s"
  by (simp add: rep_loop_iterate)

lemma rep_loop_none: "bound \<le> 0 \<Longrightarrow> rep_loop bound 0 body acc s = (Inr acc, s)"
  by (subst rep_loop.simps) simp

end
