(* ===== verification/Thallium_Rpc.thy ===== *)
theory Thallium_Rpc
  imports Rpc_Context Data_Transfer Machine_Loops "HOL-Library.Sublist"
begin

text \<open>
  \<open>ThalliumRpc\<close> of \<open>include/test_networks/rpc_thallium.h\<close>. Thallium is third-party code, so
  the network is a parameter: a function from the whole history of the run and the next
  request to a reply, an exception or a number (a handle, a result, a byte count). Every
  request the code makes and the reply it got is recorded in a trace, in order, with the
  values the program logs; theorems are about the trace, for every network. Debug messages
  and the texts of informational ones are left out.
\<close>

section \<open>Requests, events, state\<close>

datatype bulk_mode = Bulk_read_only | Bulk_write_only

datatype engine_side = Client_engine | Server_engine

datatype rpc_arg = Arg_md string | Arg_bulk "int option" | Arg_xfer segmented_transfer

text \<open>A remote procedure and an endpoint are the name they were made from and the handle.\<close>

type_synonym remote_procedure = "string \<times> int"
type_synonym endpoint = "string \<times> int"

datatype request =
    Start_server string
  | Start_client string
  | Self_name
  | Create_pool
  | Create_xstream int
  | Define_server string int
  | Define_client string
  | Lookup string
  | Call_sync remote_procedure endpoint "rpc_arg list"
  | Call_async remote_procedure endpoint "rpc_arg list"
  | Call_void remote_procedure endpoint "rpc_arg list"
  | Wait_response int
  | Poll_response int
  | Expose engine_side "(u64 \<times> u64) list" bulk_mode
  | Get_endpoint int
  | Pull_bulk int int int
  | Respond int int
  | Finalize engine_side
  | Wait_for_finalize
  | Sleep_for u64
  | Destroy_shm string
  | Create_shm string u64
  | Open_shm string

datatype log_line = Log_pinged u64 | Log_ops u64 | Log_error string | Log_complete string

datatype event = Asked request "exn + int" | Logged log_line

text \<open>
  What a process runs on: the library, the host's environment, the network, the allocator, the
  largest size of a vector of responses and of a \<open>std::string\<close>, and the value that an
  uninitialised \<open>NodeId\<close> happens to have. Below these sizes the standard containers are
  taken to get their memory.
\<close>

record platform =
  p_hshm :: hshm
  p_env :: netenv
  p_net :: "event list \<Rightarrow> request \<Rightarrow> exn + int"
  p_malloc :: allocator
  p_max_responses :: u64
  p_max_chars :: u64
  p_junk_node :: u32

text \<open>
  The state of a process: the trace, the two singletons \<open>CHI_RPC\<close> and \<open>CHI_THALLIUM\<close> (null
  pointers are \<open>None\<close>, and \<open>th_rpc\<close> says whether \<open>rpc_\<close> points to the context), the heap.
\<close>

record sys =
  sy_trace :: "event list"
  sy_ctx :: rpc_context
  th_rpc :: bool
  th_client :: "int option"
  th_server :: "int option"
  th_pool :: "int option"
  th_xstreams :: "int list"
  sy_heap :: heap

section \<open>Primitive steps\<close>

definition perform :: "platform \<Rightarrow> request \<Rightarrow> (sys, int) step" where
  "perform P r s =
     (let reply = p_net P (sy_trace s) r;
          s' = s\<lparr>sy_trace := sy_trace s @ [Asked r reply]\<rparr>
      in case reply of Inl x \<Rightarrow> (Inl (Throws x), s') | Inr v \<Rightarrow> (Inr v, s'))"

definition log_info :: "log_line \<Rightarrow> (sys, unit) step" where
  "log_info l s = (Inr (), s\<lparr>sy_trace := sy_trace s @ [Logged l]\<rparr>)"

definition sget :: "(sys \<Rightarrow> 'a) \<Rightarrow> (sys, 'a) step" where
  "sget f s = (Inr (f s), s)"

definition supd :: "(sys \<Rightarrow> sys) \<Rightarrow> (sys, unit) step" where
  "supd f s = (Inr (), f s)"

definition sfatal :: "platform \<Rightarrow> (sys, 'a) step \<Rightarrow> (sys, 'a) step" where
  "sfatal P after = (if fatal_exits (p_hshm P) then sfail (Exits 1) else after)"

text \<open>A pointer that is used: undefined when null.\<close>

definition deref :: "(sys \<Rightarrow> 'a option) \<Rightarrow> (sys, 'a) step" where
  "deref f s = (case f s of None \<Rightarrow> (Inl Undef, s) | Some v \<Rightarrow> (Inr v, s))"

definition the_rpc :: "(sys, rpc_context) step" where
  "the_rpc = deref (\<lambda>s. if th_rpc s then Some (sy_ctx s) else None)"

definition engine_of :: "engine_side \<Rightarrow> (sys, int) step" where
  "engine_of side = deref (case side of Client_engine \<Rightarrow> th_client | Server_engine \<Rightarrow> th_server)"

text \<open>\<open>responses.reserve(n)\<close> throws \<open>std::length_error\<close> for more than \<open>max_size()\<close> elements.\<close>

definition reserve :: "platform \<Rightarrow> u64 \<Rightarrow> (sys, unit) step" where
  "reserve P n = (if p_max_responses P < n then sfail (Throws Std_exn) else sret ())"

section \<open>Addresses and registration\<close>

definition get_server_name :: "rpc_context \<Rightarrow> u32 \<Rightarrow> failure + string" where
  "get_server_name c node_id =
     rbind (get_ip_address_from_node_id c node_id) (\<lambda>ip_address.
     Inr (rc_protocol c @ ''://'' @ ip_address @ '':'' @ to_string_int (rc_port c)))"

definition register_rpc :: "platform \<Rightarrow> string \<Rightarrow> (sys, unit) step" where
  "register_rpc P name =
     sbind (deref th_pool) (\<lambda>pool.
     sbind (engine_of Server_engine) (\<lambda>_.
     sbind (perform P (Define_server name pool)) (\<lambda>_. sret ())))"

section \<open>Calls\<close>

definition rpc_target :: "platform \<Rightarrow> u32 \<Rightarrow> string \<Rightarrow> (sys, remote_procedure \<times> endpoint) step" where
  "rpc_target P node_id func_name =
     sbind the_rpc (\<lambda>c.
     sbind (slift (get_server_name c node_id)) (\<lambda>server_name.
     sbind (engine_of Client_engine) (\<lambda>_.
     sbind (perform P (Define_client func_name)) (\<lambda>proc.
     sbind (perform P (Lookup server_name)) (\<lambda>server.
     sret ((func_name, proc), (server_name, server)))))))"

definition sync_call :: "platform \<Rightarrow> u32 \<Rightarrow> string \<Rightarrow> rpc_arg list \<Rightarrow> (sys, int) step" where
  "sync_call P node_id func_name args =
     sbind (rpc_target P node_id func_name) (\<lambda>(proc, server). perform P (Call_sync proc server args))"

definition void_call :: "platform \<Rightarrow> u32 \<Rightarrow> string \<Rightarrow> rpc_arg list \<Rightarrow> (sys, unit) step" where
  "void_call P node_id func_name args =
     sbind (rpc_target P node_id func_name) (\<lambda>(proc, server).
     sbind (perform P (Call_void proc server args)) (\<lambda>_. sret ()))"

definition async_call :: "platform \<Rightarrow> u32 \<Rightarrow> string \<Rightarrow> rpc_arg list \<Rightarrow> (sys, int) step" where
  "async_call P node_id func_name args =
     sbind (rpc_target P node_id func_name) (\<lambda>(proc, server). perform P (Call_async proc server args))"

definition wait_int :: "platform \<Rightarrow> int \<Rightarrow> (sys, int) step" where
  "wait_int P resp = perform P (Wait_response resp)"

definition is_done :: "platform \<Rightarrow> int \<Rightarrow> (sys, bool) step" where
  "is_done P resp = sbind (perform P (Poll_response resp)) (\<lambda>v. sret (v \<noteq> 0))"

section \<open>Bulk transfers\<close>

text \<open>The loop of \<open>MakeBulk\<close>: the segments with the flag and their total size.\<close>

fun bulk_segments :: "hshm \<Rightarrow> u32 \<Rightarrow> data_transfer list \<Rightarrow> (u64 \<times> u64) list \<Rightarrow> u64 \<Rightarrow> (u64 \<times> u64) list \<times> u64" where
  "bulk_segments H chi_flag [] segments size_bytes = (segments, size_bytes)"
| "bulk_segments H chi_flag (xfer # xfers) segments size_bytes =
     (if bf_any H (dt_flags xfer) chi_flag
      then bulk_segments H chi_flag xfers (segments @ [(dt_data xfer, dt_data_size xfer)])
             (size_bytes + dt_data_size xfer)
      else bulk_segments H chi_flag xfers segments size_bytes)"

definition make_bulk ::
    "platform \<Rightarrow> engine_side \<Rightarrow> data_transfer list \<Rightarrow> u32 \<Rightarrow> bulk_mode \<Rightarrow> (sys, int option \<times> u64) step" where
  "make_bulk P side xfers chi_flag tl_flag =
     sbind (engine_of side) (\<lambda>_.
     let (segments, size_bytes) = bulk_segments (p_hshm P) chi_flag xfers [] 0
     in if size_bytes \<noteq> 0
        then sbind (perform P (Expose side segments tl_flag)) (\<lambda>bulk. sret (Some bulk, size_bytes))
        else sret (None, size_bytes))"

definition client_mode :: "hshm \<Rightarrow> u32 \<Rightarrow> bulk_mode" where
  "client_mode H chi_flag = (if chi_flag AND DT_WRITE H \<noteq> 0 then Bulk_read_only else Bulk_write_only)"

definition server_mode :: "hshm \<Rightarrow> u32 \<Rightarrow> bulk_mode" where
  "server_mode H chi_flag = (if chi_flag AND DT_WRITE H \<noteq> 0 then Bulk_write_only else Bulk_read_only)"

definition make_bulk_client :: "platform \<Rightarrow> data_transfer list \<Rightarrow> u32 \<Rightarrow> (sys, int option \<times> u64) step" where
  "make_bulk_client P xfer chi_flag =
     make_bulk P Client_engine xfer chi_flag (client_mode (p_hshm P) chi_flag)"

definition make_bulk_server :: "platform \<Rightarrow> data_transfer list \<Rightarrow> u32 \<Rightarrow> (sys, int option \<times> u64) step" where
  "make_bulk_server P xfer chi_flag =
     make_bulk P Server_engine xfer chi_flag (server_mode (p_hshm P) chi_flag)"

definition io_target ::
    "platform \<Rightarrow> u32 \<Rightarrow> string \<Rightarrow> segmented_transfer \<Rightarrow> u32 \<Rightarrow> (sys, remote_procedure \<times> endpoint \<times> rpc_arg list) step" where
  "io_target P node_id func_name xfer io_flag =
     sbind the_rpc (\<lambda>c.
     sbind (slift (get_server_name c node_id)) (\<lambda>server_name.
     sbind (make_bulk_client P (st_bulk xfer) io_flag) (\<lambda>(bulk, planned_bytes).
     sbind (engine_of Client_engine) (\<lambda>_.
     sbind (perform P (Define_client func_name)) (\<lambda>proc.
     sbind (perform P (Lookup server_name)) (\<lambda>server.
     sret ((func_name, proc), (server_name, server), [Arg_bulk bulk, Arg_xfer xfer])))))))"

definition sync_io_call :: "platform \<Rightarrow> u32 \<Rightarrow> string \<Rightarrow> segmented_transfer \<Rightarrow> u32 \<Rightarrow> (sys, int) step" where
  "sync_io_call P node_id func_name xfer io_flag =
     sbind (io_target P node_id func_name xfer io_flag) (\<lambda>(proc, server, args). perform P (Call_sync proc server args))"

definition async_io_call :: "platform \<Rightarrow> u32 \<Rightarrow> string \<Rightarrow> segmented_transfer \<Rightarrow> u32 \<Rightarrow> (sys, int) step" where
  "async_io_call P node_id func_name xfer io_flag =
     sbind (io_target P node_id func_name xfer io_flag) (\<lambda>(proc, server, args). perform P (Call_async proc server args))"

text \<open>Handlers: \<open>catch (std::exception &)\<close> leaves other exceptions alone, \<open>catch (..)\<close> takes all.\<close>

definition on_std :: "('s, 'a) step \<Rightarrow> exn \<Rightarrow> ('s, 'a) step option" where
  "on_std k x = (if x = Other_exn then None else Some k)"

definition on_margo :: "('s, 'a) step \<Rightarrow> exn \<Rightarrow> ('s, 'a) step option" where
  "on_margo k x = (if x = Margo_exn then Some k else None)"

definition on_any :: "('s, 'a) step \<Rightarrow> exn \<Rightarrow> ('s, 'a) step option" where
  "on_any k x = Some k"

text \<open>\<open>bulk.on(endpoint)\<close> on an empty bulk is the handle 0.\<close>

definition io_call_server_write :: "platform \<Rightarrow> int \<Rightarrow> int option \<Rightarrow> segmented_transfer \<Rightarrow> (sys, u64) step" where
  "io_call_server_write P req bulk xfer =
     sbind (perform P (Get_endpoint req)) (\<lambda>endpoint.
     sbind (make_bulk_server P (st_bulk xfer) (DT_WRITE (p_hshm P))) (\<lambda>(local_wbulk, planned_bytes).
     if planned_bytes = 0 then sret 0
     else
       scatch
         (sbind (perform P (Pull_bulk (case bulk of None \<Rightarrow> 0 | Some b \<Rightarrow> b) endpoint
                              (case local_wbulk of None \<Rightarrow> 0 | Some b \<Rightarrow> b))) (\<lambda>n. sret (0 + word_of_int n)))
         (on_std (sfatal P (sret 0)))))"

section \<open>Life cycle\<close>

definition client_init :: "platform \<Rightarrow> (sys, unit) step" where
  "client_init P =
     sbind (supd (\<lambda>s. s\<lparr>th_rpc := True\<rparr>)) (\<lambda>_.
     sbind the_rpc (\<lambda>c.
     sbind (slift (get_protocol c)) (\<lambda>protocol.
     sbind (perform P (Start_client protocol)) (\<lambda>e.
     sbind (supd (\<lambda>s. s\<lparr>th_client := Some e\<rparr>)) (\<lambda>_.
     sbind (slift (get_rpc_address (p_hshm P) c (rc_node_id c) (rc_port c))) (\<lambda>_. sret ()))))))"

definition start_xstream :: "platform \<Rightarrow> int \<Rightarrow> unit \<Rightarrow> (sys, unit) step" where
  "start_xstream P pool _ =
     sbind (perform P (Create_xstream pool)) (\<lambda>es.
     supd (\<lambda>s. s\<lparr>th_xstreams := th_xstreams s @ [es]\<rparr>))"

definition thallium_server_init :: "platform \<Rightarrow> (sys, unit) step" where
  "thallium_server_init P =
     sbind (supd (\<lambda>s. s\<lparr>th_rpc := True\<rparr>)) (\<lambda>_.
     sbind the_rpc (\<lambda>c.
     sbind (slift (get_my_rpc_address (p_hshm P) c)) (\<lambda>addr.
     sbind (scatch (sbind (perform P (Start_server addr)) (\<lambda>e. supd (\<lambda>s. s\<lparr>th_server := Some e\<rparr>)))
                   (on_std (sfatal P (sret ())))) (\<lambda>_.
     sbind (engine_of Server_engine) (\<lambda>_.
     sbind (perform P Self_name) (\<lambda>_.
     sbind (perform P Create_pool) (\<lambda>pool.
     sbind (supd (\<lambda>s. s\<lparr>th_pool := Some pool\<rparr>)) (\<lambda>_.
     sbind (rep_loop (uint (rc_num_threads c)) 0 (start_xstream P pool) ()) (\<lambda>_.
     sbind (register_rpc P ''RpcStopDaemon'') (\<lambda>_.
     client_init P))))))))))"

definition run_daemon :: "platform \<Rightarrow> (sys, unit) step" where
  "run_daemon P =
     sbind (engine_of Server_engine) (\<lambda>_.
     sbind (perform P Wait_for_finalize) (\<lambda>_. sbind the_rpc (\<lambda>_. sret ())))"

definition stop_this_daemon :: "platform \<Rightarrow> (sys, unit) step" where
  "stop_this_daemon P =
     sbind (engine_of Client_engine) (\<lambda>_. sbind (perform P (Finalize Client_engine)) (\<lambda>_.
     sbind (engine_of Server_engine) (\<lambda>_. sbind (perform P (Finalize Server_engine)) (\<lambda>_. sret ()))))"

definition rpc_stop_daemon :: "platform \<Rightarrow> int \<Rightarrow> (sys, unit) step" where
  "rpc_stop_daemon P req =
     sbind the_rpc (\<lambda>_.
     sbind (perform P (Respond req 0)) (\<lambda>_.
     scatch (stop_this_daemon P) (on_any (log_info (Log_error ''Failed to stop daemon'')))))"

definition issue_stop :: "platform \<Rightarrow> u32 \<Rightarrow> int list \<Rightarrow> (sys, int list) step" where
  "issue_stop P node_id responses =
     sbind (async_call P node_id ''RpcStopDaemon'' []) (\<lambda>ret. sret (responses @ [ret]))"

definition wait_each :: "platform \<Rightarrow> int \<Rightarrow> unit \<Rightarrow> (sys, unit) step" where
  "wait_each P resp _ = sbind (wait_int P resp) (\<lambda>_. sret ())"

definition stop_all_daemons :: "platform \<Rightarrow> (sys, unit) ostep" where
  "stop_all_daemons P =
     obind (olift the_rpc) (\<lambda>c.
     obind (olift (reserve P (num_hosts c))) (\<lambda>_.
     obind (node_loop (issue_stop P) (num_hosts c) 1 []) (\<lambda>responses.
     olift (fold_step (wait_each P) responses ()))))"

section \<open>Traces\<close>

text \<open>The state after more events and nothing else.\<close>

definition extended :: "event list \<Rightarrow> sys \<Rightarrow> sys" where
  "extended new s = s\<lparr>sy_trace := sy_trace s @ new\<rparr>"

lemma extended_simps [simp]:
  "sy_trace (extended new s) = sy_trace s @ new"
  "sy_ctx (extended new s) = sy_ctx s"
  "th_rpc (extended new s) = th_rpc s"
  "th_client (extended new s) = th_client s"
  "th_server (extended new s) = th_server s"
  "th_pool (extended new s) = th_pool s"
  "th_xstreams (extended new s) = th_xstreams s"
  "sy_heap (extended new s) = sy_heap s"
  by (simp_all add: extended_def)

lemma extended_Nil [simp]: "extended [] s = s"
  by (simp add: extended_def)

lemma extended_extended [simp]: "extended b (extended a s) = extended (a @ b) s"
  by (simp add: extended_def)

lemma perform_eq:
  "perform P r s = (map_sum Throws id (p_net P (sy_trace s) r), extended [Asked r (p_net P (sy_trace s) r)] s)"
  by (simp add: perform_def extended_def Let_def split: sum.splits)

lemma log_info_eq: "log_info l s = (Inr (), extended [Logged l] s)"
  by (simp add: log_info_def extended_def)

text \<open>
  What a trace shows: the synchronous calls that were answered and the asynchronous calls
  that were issued (function, server, arguments), and the handles that were waited for with
  success.
\<close>

definition answered :: "event list \<Rightarrow> (string \<times> string \<times> rpc_arg list) list" where
  "answered tr = concat (map (\<lambda>e. case e of
     Asked (Call_sync proc server args) (Inr v) \<Rightarrow> [(fst proc, fst server, args)] | _ \<Rightarrow> []) tr)"

definition issued :: "event list \<Rightarrow> (string \<times> string \<times> rpc_arg list) list" where
  "issued tr = concat (map (\<lambda>e. case e of
     Asked (Call_async proc server args) (Inr v) \<Rightarrow> [(fst proc, fst server, args)] | _ \<Rightarrow> []) tr)"

definition waited :: "event list \<Rightarrow> int list" where
  "waited tr = concat (map (\<lambda>e. case e of Asked (Wait_response h) (Inr v) \<Rightarrow> [h] | _ \<Rightarrow> []) tr)"

definition handles :: "event list \<Rightarrow> int list" where
  "handles tr = concat (map (\<lambda>e. case e of Asked (Call_async proc server args) (Inr v) \<Rightarrow> [v] | _ \<Rightarrow> []) tr)"

definition contacted :: "event list \<Rightarrow> string list" where
  "contacted tr = concat (map (\<lambda>e. case e of Asked (Lookup name) r \<Rightarrow> [name] | _ \<Rightarrow> []) tr)"

lemma trace_views_append [simp]:
  "answered (a @ b) = answered a @ answered b"
  "issued (a @ b) = issued a @ issued b"
  "waited (a @ b) = waited a @ waited b"
  "contacted (a @ b) = contacted a @ contacted b"
  "handles (a @ b) = handles a @ handles b"
  by (simp_all add: handles_def answered_def issued_def waited_def contacted_def)

lemma trace_views_Nil [simp]:
  "answered [] = []" "issued [] = []" "waited [] = []" "contacted [] = []" "handles [] = []"
  by (simp_all add: handles_def answered_def issued_def waited_def contacted_def)

lemma trace_views_quiet [simp]:
  "answered (Asked (Define_client f) r # tr) = answered tr"
  "issued (Asked (Define_client f) r # tr) = issued tr"
  "waited (Asked (Define_client f) r # tr) = waited tr"
  "contacted (Asked (Define_client f) r # tr) = contacted tr"
  "handles (Asked (Define_client f) r # tr) = handles tr"
  "handles (Asked (Expose side segs mode) r # tr) = handles tr"
  "handles (Logged l # tr) = handles tr"
  "answered (Asked (Expose side segs mode) r # tr) = answered tr"
  "issued (Asked (Expose side segs mode) r # tr) = issued tr"
  "waited (Asked (Expose side segs mode) r # tr) = waited tr"
  "contacted (Asked (Expose side segs mode) r # tr) = contacted tr"
  "answered (Logged l # tr) = answered tr"
  "issued (Logged l # tr) = issued tr"
  "waited (Logged l # tr) = waited tr"
  "contacted (Logged l # tr) = contacted tr"
  by (simp_all add: handles_def answered_def issued_def waited_def contacted_def)

lemma trace_views_calls [simp]:
  "answered (Asked (Lookup n) r # tr) = answered tr"
  "issued (Asked (Lookup n) r # tr) = issued tr"
  "waited (Asked (Lookup n) r # tr) = waited tr"
  "contacted (Asked (Lookup n) r # tr) = n # contacted tr"
  "handles (Asked (Lookup n) r # tr) = handles tr"
  "handles (Asked (Call_sync p q args) r # tr) = handles tr"
  "handles (Asked (Call_async p q args) (Inr v) # tr) = v # handles tr"
  "handles (Asked (Call_async p q args) (Inl x) # tr) = handles tr"
  "handles (Asked (Wait_response h) r # tr) = handles tr"
  "answered (Asked (Call_sync p q args) (Inr v) # tr) = (fst p, fst q, args) # answered tr"
  "answered (Asked (Call_sync p q args) (Inl x) # tr) = answered tr"
  "issued (Asked (Call_sync p q args) r # tr) = issued tr"
  "waited (Asked (Call_sync p q args) r # tr) = waited tr"
  "contacted (Asked (Call_sync p q args) r # tr) = contacted tr"
  "issued (Asked (Call_async p q args) (Inr v) # tr) = (fst p, fst q, args) # issued tr"
  "issued (Asked (Call_async p q args) (Inl x) # tr) = issued tr"
  "answered (Asked (Call_async p q args) r # tr) = answered tr"
  "waited (Asked (Call_async p q args) r # tr) = waited tr"
  "contacted (Asked (Call_async p q args) r # tr) = contacted tr"
  "waited (Asked (Wait_response h) (Inr v) # tr) = h # waited tr"
  "waited (Asked (Wait_response h) (Inl x) # tr) = waited tr"
  "answered (Asked (Wait_response h) r # tr) = answered tr"
  "issued (Asked (Wait_response h) r # tr) = issued tr"
  "contacted (Asked (Wait_response h) r # tr) = contacted tr"
  by (simp_all add: handles_def answered_def issued_def waited_def contacted_def)

text \<open>A process that can call: the RPC pointer, a client engine and a table of hosts.\<close>

definition can_call :: "sys \<Rightarrow> bool" where
  "can_call s \<longleftrightarrow> th_rpc s \<and> th_client s \<noteq> None \<and> rc_table (sy_ctx s)"

lemma length_handles: "length (handles tr) = length (issued tr)"
  by (induction tr) (auto simp: handles_def issued_def split: event.splits request.splits sum.splits)

lemma can_call_extended [simp]: "can_call (extended new s) = can_call s"
  by (simp add: can_call_def)

text \<open>The name by which the calls reach host \<open>k\<close> (counted from 0) of the table.\<close>

definition server_name :: "rpc_context \<Rightarrow> nat \<Rightarrow> string" where
  "server_name c k = rc_protocol c @ ''://'' @ hi_ip_addr (rc_hosts c ! k) @ '':'' @ to_string_int (rc_port c)"

lemma get_server_name_known:
  assumes "rc_table c" "1 \<le> unat i" "unat i \<le> length (rc_hosts c)"
  shows "get_server_name c i = Inr (server_name c (unat i - 1))"
  using ip_dir.lookup_entry[OF assms] by (simp add: get_server_name_def server_name_def)

lemma get_server_name_unknown:
  assumes "rc_table c" "\<not> (1 \<le> unat i \<and> unat i \<le> length (rc_hosts c))"
  shows "get_server_name c i = Inl (Throws Std_exn)"
  using get_ip_unknown[OF assms] by (simp add: get_server_name_def)

interpretation server_dir: named_directory rc_table "\<lambda>c. length (rc_hosts c)" get_server_name server_name
  by unfold_locales (auto simp: get_server_name_known get_server_name_unknown rc_table_def)

text \<open>
  \<open>emits m s r new\<close>: from \<open>s\<close> the step ends with \<open>r\<close>, and all it does to the state is to
  append \<open>new\<close> to the trace.
\<close>

definition emits :: "(sys, 'a) step \<Rightarrow> sys \<Rightarrow> failure + 'a \<Rightarrow> event list \<Rightarrow> bool" where
  "emits m s r new \<longleftrightarrow> m s = (r, extended new s)"

named_theorems emit_intros \<open>rules for steps that only append to the trace\<close>

lemma emits_bind: "emits m s (Inr x) a \<Longrightarrow> emits (f x) (extended a s) r b \<Longrightarrow> emits (sbind m f) s r (a @ b)"
  by (simp add: emits_def sbind_def)

lemma emits_bind_fail: "emits m s (Inl e) a \<Longrightarrow> emits (sbind m f) s (Inl e) a"
  by (simp add: emits_def sbind_def)

lemma emits_sret [emit_intros]: "emits (sret x) s (Inr x) []"
  by (simp add: emits_def sret_def)

lemma emits_perform: "emits (perform P q) s (map_sum Throws id (p_net P (sy_trace s) q)) [Asked q (p_net P (sy_trace s) q)]"
  by (simp add: emits_def perform_eq)

lemma emits_perform_Inr: "p_net P (sy_trace s) q = Inr v \<Longrightarrow> emits (perform P q) s (Inr v) [Asked q (Inr v)]"
  by (simp add: emits_def perform_eq)

lemma emits_perform_Inl: "p_net P (sy_trace s) q = Inl x \<Longrightarrow> emits (perform P q) s (Inl (Throws x)) [Asked q (Inl x)]"
  by (simp add: emits_def perform_eq)

lemma emits_log: "emits (log_info l) s (Inr ()) [Logged l]"
  by (simp add: emits_def log_info_eq)

text \<open>A vector of responses has room for one per node id; the sizes of the tables fit.\<close>

definition roomy :: "platform \<Rightarrow> bool" where
  "roomy P \<longleftrightarrow> 2 ^ 31 \<le> unat (p_max_responses P)"

lemma reserve_hosts:
  assumes "roomy P" "can_call s"
  shows "reserve P (num_hosts (sy_ctx s)) t = (Inr (), t)"
proof -
  have n: "length (rc_hosts (sy_ctx s)) < 2 ^ 31"
    using assms(2) by (simp add: can_call_def rc_table_def)
  then have "unat (num_hosts (sy_ctx s)) = length (rc_hosts (sy_ctx s))"
    unfolding num_hosts_def by (intro unat_of_nat_u64) simp
  then have "\<not> p_max_responses P < num_hosts (sy_ctx s)"
    using assms(1) n by (simp add: roomy_def word_less_nat_alt)
  then show ?thesis
    by (simp add: reserve_def sret_def)
qed

text \<open>A network that answers every request.\<close>

definition responsive :: "platform \<Rightarrow> bool" where
  "responsive P \<longleftrightarrow> (\<forall>tr q. \<exists>v. p_net P tr q = Inr v)"

lemma perform_responsive: "responsive P \<Longrightarrow> \<exists>v. emits (perform P q) s (Inr v) [Asked q (Inr v)]"
  unfolding responsive_def using emits_perform_Inr by metis

text \<open>
  The outcome of looking up the target of a call: it fails by an exception of the network,
  having contacted at most the right server, or it returns the procedure and that server.
\<close>

definition found_target :: "string \<Rightarrow> string \<Rightarrow> failure + (remote_procedure \<times> endpoint) \<Rightarrow> event list \<Rightarrow> bool" where
  "found_target f name r new \<longleftrightarrow> answered new = [] \<and> issued new = [] \<and> waited new = [] \<and> handles new = [] \<and>
    (case r of Inl e \<Rightarrow> (\<exists>x. e = Throws x) \<and> subseq (contacted new) [name]
     | Inr (proc, server) \<Rightarrow> contacted new = [name] \<and> fst proc = f \<and> fst server = name)"

lemma rpc_target_unfold:
  assumes "can_call s" "1 \<le> unat i" "unat i \<le> length (rc_hosts (sy_ctx s))"
  shows "rpc_target P i f s =
    sbind (perform P (Define_client f)) (\<lambda>proc.
    sbind (perform P (Lookup (server_name (sy_ctx s) (unat i - 1)))) (\<lambda>server.
    sret ((f, proc), (server_name (sy_ctx s) (unat i - 1), server)))) s"
proof -
  obtain e where e: "th_client s = Some e" "th_rpc s"
    using assms(1) by (auto simp: can_call_def)
  have name: "get_server_name (sy_ctx s) i = Inr (server_name (sy_ctx s) (unat i - 1))"
    using assms by (intro get_server_name_known) (simp_all add: can_call_def)
  show ?thesis
    using e name by (simp add: rpc_target_def sbind_def the_rpc_def deref_def slift_def engine_of_def)
qed

lemma rpc_target_emits:
  assumes "can_call s" "1 \<le> unat i" "unat i \<le> length (rc_hosts (sy_ctx s))"
  shows "\<exists>r new. emits (rpc_target P i f) s r new \<and>
    found_target f (server_name (sy_ctx s) (unat i - 1)) r new \<and> (responsive P \<longrightarrow> \<not> isl r)"
proof -
  let ?name = "server_name (sy_ctx s) (unat i - 1)"
  define r1 where "r1 = p_net P (sy_trace s) (Define_client f)"
  define r2 where "r2 = p_net P (sy_trace s @ [Asked (Define_client f) r1]) (Lookup ?name)"
  have run: "rpc_target P i f s =
    (case r1 of Inl x \<Rightarrow> (Inl (Throws x), extended [Asked (Define_client f) r1] s)
     | Inr p \<Rightarrow> (case r2 of Inl x \<Rightarrow> (Inl (Throws x), extended [Asked (Define_client f) r1, Asked (Lookup ?name) r2] s)
        | Inr q \<Rightarrow> (Inr ((f, p), (?name, q)), extended [Asked (Define_client f) r1, Asked (Lookup ?name) r2] s)))"
    unfolding rpc_target_unfold[OF assms] r2_def r1_def
    by (simp add: sbind_def perform_eq sret_def split: sum.splits)
  show ?thesis
  proof (cases r1)
    case (Inl x)
    then have "\<not> responsive P"
      unfolding responsive_def r1_def by (metis Inl_Inr_False)
    with Inl show ?thesis
      unfolding emits_def run found_target_def by (intro exI[of _ "Inl (Throws x)"] exI[of _ "[Asked (Define_client f) r1]"]) simp
  next
    case r1: (Inr p)
    show ?thesis
    proof (cases r2)
      case (Inl x)
      then have "\<not> responsive P"
        unfolding responsive_def r2_def by (metis Inl_Inr_False)
      with r1 Inl show ?thesis
        unfolding emits_def run found_target_def
        by (intro exI[of _ "Inl (Throws x)"] exI[of _ "[Asked (Define_client f) r1, Asked (Lookup ?name) r2]"]) simp
    next
      case (Inr q)
      with r1 show ?thesis
        unfolding emits_def run found_target_def
        by (intro exI[of _ "Inr ((f, p), (?name, q))"] exI[of _ "[Asked (Define_client f) r1, Asked (Lookup ?name) r2]"]) simp
    qed
  qed
qed

lemma emits_det: "emits m s r a \<Longrightarrow> emits m s r' b \<Longrightarrow> r = r'"
  by (simp add: emits_def)

definition sync_outcome :: "string \<Rightarrow> string \<Rightarrow> rpc_arg list \<Rightarrow> failure + int \<Rightarrow> event list \<Rightarrow> bool" where
  "sync_outcome f name args r new \<longleftrightarrow> issued new = [] \<and> waited new = [] \<and> handles new = [] \<and>
    (case r of Inl e \<Rightarrow> (\<exists>x. e = Throws x) \<and> answered new = [] \<and> subseq (contacted new) [name]
     | Inr v \<Rightarrow> answered new = [(f, name, args)] \<and> contacted new = [name])"

definition async_outcome :: "string \<Rightarrow> string \<Rightarrow> rpc_arg list \<Rightarrow> failure + int \<Rightarrow> event list \<Rightarrow> bool" where
  "async_outcome f name args r new \<longleftrightarrow> answered new = [] \<and> waited new = [] \<and>
    (case r of Inl e \<Rightarrow> (\<exists>x. e = Throws x) \<and> issued new = [] \<and> handles new = [] \<and> subseq (contacted new) [name]
     | Inr v \<Rightarrow> issued new = [(f, name, args)] \<and> handles new = [v] \<and> contacted new = [name])"

lemma call_on_target:
  assumes "emits m s r0 new0" "found_target f name r0 new0" "responsive P \<longrightarrow> \<not> isl r0"
  shows "\<exists>r new. emits (sbind m (\<lambda>(proc, server). perform P (Call_sync proc server args))) s r new \<and>
           sync_outcome f name args r new \<and> (responsive P \<longrightarrow> \<not> isl r)"
    and "\<exists>r new. emits (sbind m (\<lambda>(proc, server). perform P (Call_async proc server args))) s r new \<and>
           async_outcome f name args r new \<and> (responsive P \<longrightarrow> \<not> isl r)"
proof -
  show "\<exists>r new. emits (sbind m (\<lambda>(proc, server). perform P (Call_sync proc server args))) s r new \<and>
           sync_outcome f name args r new \<and> (responsive P \<longrightarrow> \<not> isl r)"
  proof (cases r0)
    case (Inl e)
    with assms show ?thesis
      by (intro exI[of _ "Inl e"] exI[of _ new0]) (use assms(3) in \<open>auto simp: emits_bind_fail found_target_def sync_outcome_def\<close>)
  next
    case (Inr t)
    obtain proc server where t: "t = (proc, server)"
      by (cases t)
    let ?q = "Call_sync proc server args"
    let ?v = "p_net P (sy_trace (extended new0 s)) ?q"
    have "emits (sbind m (\<lambda>(proc, server). perform P (Call_sync proc server args))) s
        (map_sum Throws id ?v) (new0 @ [Asked ?q ?v])"
      using assms(1) Inr t by (intro emits_bind[where x = t]) (simp_all add: emits_perform del: extended_simps)
    moreover have "sync_outcome f name args (map_sum Throws id ?v) (new0 @ [Asked ?q ?v])"
      using assms(2) Inr t by (cases ?v) (auto simp: sync_outcome_def found_target_def)
    moreover have "responsive P \<longrightarrow> \<not> isl (map_sum Throws id ?v)"
      unfolding responsive_def by (metis isl_map_sum sum.disc(2))
    ultimately show ?thesis
      by blast
  qed
  show "\<exists>r new. emits (sbind m (\<lambda>(proc, server). perform P (Call_async proc server args))) s r new \<and>
           async_outcome f name args r new \<and> (responsive P \<longrightarrow> \<not> isl r)"
  proof (cases r0)
    case (Inl e)
    with assms show ?thesis
      by (intro exI[of _ "Inl e"] exI[of _ new0]) (use assms(3) in \<open>auto simp: emits_bind_fail found_target_def async_outcome_def\<close>)
  next
    case (Inr t)
    obtain proc server where t: "t = (proc, server)"
      by (cases t)
    let ?q = "Call_async proc server args"
    let ?v = "p_net P (sy_trace (extended new0 s)) ?q"
    have "emits (sbind m (\<lambda>(proc, server). perform P (Call_async proc server args))) s
        (map_sum Throws id ?v) (new0 @ [Asked ?q ?v])"
      using assms(1) Inr t by (intro emits_bind[where x = t]) (simp_all add: emits_perform del: extended_simps)
    moreover have "async_outcome f name args (map_sum Throws id ?v) (new0 @ [Asked ?q ?v])"
      using assms(2) Inr t by (cases ?v) (auto simp: async_outcome_def found_target_def)
    moreover have "responsive P \<longrightarrow> \<not> isl (map_sum Throws id ?v)"
      unfolding responsive_def by (metis isl_map_sum sum.disc(2))
    ultimately show ?thesis
      by blast
  qed
qed

lemma sync_call_emits:
  assumes "can_call s" "1 \<le> unat i" "unat i \<le> length (rc_hosts (sy_ctx s))"
  shows "\<exists>r new. emits (sync_call P i f args) s r new \<and>
    sync_outcome f (server_name (sy_ctx s) (unat i - 1)) args r new \<and> (responsive P \<longrightarrow> \<not> isl r)"
  using rpc_target_emits[OF assms, of P f] call_on_target(1) unfolding sync_call_def by blast

lemma async_call_emits:
  assumes "can_call s" "1 \<le> unat i" "unat i \<le> length (rc_hosts (sy_ctx s))"
  shows "\<exists>r new. emits (async_call P i f args) s r new \<and>
    async_outcome f (server_name (sy_ctx s) (unat i - 1)) args r new \<and> (responsive P \<longrightarrow> \<not> isl r)"
  using rpc_target_emits[OF assms, of P f] call_on_target(2) unfolding async_call_def by blast

section \<open>Runs of loops\<close>

text \<open>
  The runs of a loop whose body, at element \<open>x\<close> with loop variables \<open>acc\<close>, can end with
  \<open>r\<close> and the events \<open>new\<close> exactly when \<open>B x acc r new\<close>: it stops at the first failure.
\<close>

inductive loop_run :: "('x \<Rightarrow> 'acc \<Rightarrow> failure + 'acc \<Rightarrow> event list \<Rightarrow> bool) \<Rightarrow>
    'x list \<Rightarrow> 'acc \<Rightarrow> failure + 'acc \<Rightarrow> event list \<Rightarrow> bool" for B where
  loop_done: "loop_run B [] acc (Inr acc) []"
| loop_stop: "B x acc (Inl e) a \<Longrightarrow> loop_run B (x # xs) acc (Inl e) a"
| loop_next: "B x acc (Inr acc') a \<Longrightarrow> loop_run B xs acc' r b \<Longrightarrow> loop_run B (x # xs) acc r (a @ b)"

inductive_cases loop_run_NilE: "loop_run B [] acc r new"
inductive_cases loop_run_ConsE: "loop_run B (x # xs) acc r new"

inductive_simps loop_run_Nil [simp]: "loop_run B [] acc r new"

lemma loop_run_snoc:
  "loop_run B xs acc (Inr acc') a \<Longrightarrow> B x acc' (Inr acc'') b \<Longrightarrow> loop_run B (xs @ [x]) acc (Inr acc'') (a @ b)"
proof (induction xs arbitrary: acc a)
  case Nil
  then show ?case
    using loop_next[of B x acc acc'' b "[]" "Inr acc''" "[]"] by (auto intro: loop_done)
next
  case (Cons y ys)
  from Cons.prems(1) obtain acc1 a1 a2 where "B y acc (Inr acc1) a1" "loop_run B ys acc1 (Inr acc') a2" "a = a1 @ a2"
    by (auto elim: loop_run_ConsE)
  with Cons.IH Cons.prems(2) show ?case
    by (auto intro: loop_next)
qed

lemma fold_step_emits:
  assumes body: "\<And>x acc t. x \<in> set xs \<Longrightarrow> I t \<Longrightarrow> \<exists>r new. emits (body x acc) t r new \<and> B x acc r new"
    and keep: "\<And>t new. I t \<Longrightarrow> I (extended new t)" and "I s"
  shows "\<exists>r new. emits (fold_step body xs acc) s r new \<and> loop_run B xs acc r new"
  using body \<open>I s\<close>
proof (induction xs arbitrary: acc s)
  case Nil
  then show ?case
    by (auto simp: emits_def sret_def intro: exI[of _ "[]"])
next
  case (Cons x xs)
  obtain r a where a: "emits (body x acc) s r a" "B x acc r a"
    using Cons.prems by (meson list.set_intros(1))
  show ?case
  proof (cases r)
    case (Inl e)
    with a show ?thesis
      by (auto intro: emits_bind_fail loop_stop)
  next
    case (Inr acc')
    obtain r' b where b: "emits (fold_step body xs acc') (extended a s) r' b" "loop_run B xs acc' r' b"
      using Cons.IH[of "extended a s" acc'] Cons.prems keep by (meson list.set_intros(2))
    with a Inr show ?thesis
      by (auto intro: emits_bind loop_next)
  qed
qed

lemma iterate_emits:
  assumes body: "\<And>acc t. I t \<Longrightarrow> \<exists>r new. emits (body acc) t r new \<and> B acc r new"
    and keep: "\<And>t new. I t \<Longrightarrow> I (extended new t)" and "I s"
  shows "\<exists>r new. emits (iterate n body acc) s r new \<and> loop_run (\<lambda>_. B) (replicate n ()) acc r new"
proof -
  have "iterate n body acc = fold_step (\<lambda>_. body) (replicate n ()) acc" for acc
    by (induction n arbitrary: acc) (simp_all add: fun_eq_iff sbind_def split: prod.splits sum.splits)
  then show ?thesis
    using fold_step_emits[of "replicate n ()" I "\<lambda>_. body" "\<lambda>_. B" s acc] assms by simp
qed

text \<open>When no body fails, neither does the loop.\<close>

lemma loop_run_ok: "loop_run B xs acc r new \<Longrightarrow> (\<And>x acc r new. B x acc r new \<Longrightarrow> \<not> isl r) \<Longrightarrow> \<not> isl r"
  by (induction rule: loop_run.induct) (simp, metis sum.disc(1), blast)

section \<open>Stopping all daemons\<close>

definition stop_call :: "rpc_context \<Rightarrow> nat \<Rightarrow> string \<times> string \<times> rpc_arg list" where
  "stop_call c k = (''RpcStopDaemon'', server_name c k, [])"

definition issue_outcome :: "platform \<Rightarrow> (u32 \<Rightarrow> string \<times> string \<times> rpc_arg list) \<Rightarrow>
    u32 \<Rightarrow> int list \<Rightarrow> failure + int list \<Rightarrow> event list \<Rightarrow> bool" where
  "issue_outcome P what i acc r new \<longleftrightarrow> answered new = [] \<and> waited new = [] \<and>
     (case r of Inl e \<Rightarrow> (\<exists>x. e = Throws x) \<and> issued new = [] \<and> handles new = []
      | Inr acc' \<Rightarrow> issued new = [what i] \<and> acc' = acc @ handles new) \<and>
     (responsive P \<longrightarrow> \<not> isl r)"

lemma issue_loop:
  "loop_run (issue_outcome P what) xs acc r new \<Longrightarrow>
   answered new = [] \<and> waited new = [] \<and> prefix (issued new) (map what xs) \<and>
   (\<forall>e. r = Inl e \<longrightarrow> (\<exists>x. e = Throws x)) \<and>
   (\<forall>acc'. r = Inr acc' \<longrightarrow> issued new = map what xs \<and> acc' = acc @ handles new) \<and>
   (responsive P \<longrightarrow> \<not> isl r)"
proof (induction rule: loop_run.induct)
  case (loop_next x acc acc' a xs r b)
  then show ?case
    by (auto simp: issue_outcome_def)
qed (auto simp: issue_outcome_def)

definition wait_outcome :: "platform \<Rightarrow> int \<Rightarrow> unit \<Rightarrow> failure + unit \<Rightarrow> event list \<Rightarrow> bool" where
  "wait_outcome P h acc r new \<longleftrightarrow> answered new = [] \<and> issued new = [] \<and> handles new = [] \<and> contacted new = [] \<and>
     (case r of Inl e \<Rightarrow> (\<exists>x. e = Throws x) \<and> waited new = [] | Inr _ \<Rightarrow> waited new = [h]) \<and>
     (responsive P \<longrightarrow> \<not> isl r)"

lemma wait_int_emits: "\<exists>r new. emits (wait_int P h) s r new \<and> answered new = [] \<and> issued new = [] \<and> handles new = [] \<and>
     contacted new = [] \<and> (case r of Inl e \<Rightarrow> (\<exists>x. e = Throws x) \<and> waited new = [] | Inr _ \<Rightarrow> waited new = [h]) \<and>
     (responsive P \<longrightarrow> \<not> isl r)"
proof -
  let ?v = "p_net P (sy_trace s) (Wait_response h)"
  have "responsive P \<longrightarrow> \<not> isl (map_sum Throws id ?v)"
    unfolding responsive_def by (metis isl_map_sum sum.disc(2))
  then show ?thesis
    unfolding wait_int_def
    by (intro exI[of _ "map_sum Throws id ?v"] exI[of _ "[Asked (Wait_response h) ?v]"], cases ?v)
      (simp_all add: emits_perform_Inl emits_perform_Inr)
qed

lemma wait_each_emits: "\<exists>r new. emits (wait_each P h acc) s r new \<and> wait_outcome P h acc r new"
proof -
  obtain r new where w: "emits (wait_int P h) s r new" "answered new = []" "issued new = []" "handles new = []"
    "contacted new = []" "case r of Inl e \<Rightarrow> (\<exists>x. e = Throws x) \<and> waited new = [] | Inr _ \<Rightarrow> waited new = [h]"
    "responsive P \<longrightarrow> \<not> isl r"
    using wait_int_emits by blast
  have "emits (wait_each P h acc) s (map_sum id (\<lambda>_. ()) r) new"
    using w(1) by (cases r) (simp_all add: wait_each_def emits_def sbind_def sret_def)
  moreover have "wait_outcome P h acc (map_sum id (\<lambda>_. ()) r) new"
    using w by (cases r) (simp_all add: wait_outcome_def)
  ultimately show ?thesis
    by blast
qed

lemma wait_loop:
  "loop_run (wait_outcome P) hs acc r new \<Longrightarrow>
   answered new = [] \<and> issued new = [] \<and> prefix (waited new) hs \<and>
   (\<forall>e. r = Inl e \<longrightarrow> (\<exists>x. e = Throws x)) \<and>
   (\<not> isl r \<longrightarrow> waited new = hs) \<and> (responsive P \<longrightarrow> \<not> isl r)"
proof (induction rule: loop_run.induct)
  case (loop_next x acc acc' a xs r b)
  then show ?case
    by (auto simp: wait_outcome_def)
qed (auto simp: wait_outcome_def)

end
