(* ===== verification/Rpc_Calls.thy ===== *)
theory Rpc_Calls
  imports Thallium_Rpc
begin

text \<open>
  What the operations of \<open>ThalliumRpc\<close> guarantee over every network: who is contacted and in
  which order when all daemons are stopped, what is exposed and pulled by an I/O call, how
  the server name of a call relates to the address the server listens on, and what the life
  cycle operations leave behind.
\<close>

section \<open>Stopping all daemons\<close>

lemma issue_stop_emits:
  assumes "can_call s" "i \<in> set (node_ids (length (rc_hosts (sy_ctx s))))"
  shows "\<exists>r new. emits (issue_stop P i acc) s r new \<and>
    issue_outcome P (\<lambda>i. stop_call (sy_ctx s) (unat i - 1)) i acc r new"
proof -
  have "length (rc_hosts (sy_ctx s)) < 2 ^ 32"
    using assms(1) by (simp add: can_call_def rc_table_def)
  then have "1 \<le> unat i" "unat i \<le> length (rc_hosts (sy_ctx s))"
    using assms(2) by (simp_all add: set_node_ids)
  from async_call_emits[OF assms(1) this, of P "''RpcStopDaemon''" "[]"]
  obtain r new where a: "emits (async_call P i ''RpcStopDaemon'' []) s r new"
    "async_outcome ''RpcStopDaemon'' (server_name (sy_ctx s) (unat i - 1)) [] r new" "responsive P \<longrightarrow> \<not> isl r"
    by blast
  show ?thesis
  proof (cases r)
    case (Inl e)
    with a have "emits (issue_stop P i acc) s (Inl e) new"
      by (simp add: issue_stop_def emits_bind_fail)
    with Inl a show ?thesis
      by (intro exI[of _ "Inl e"] exI[of _ new]) (auto simp: issue_outcome_def async_outcome_def)
  next
    case (Inr v)
    with a have "emits (issue_stop P i acc) s (Inr (acc @ [v])) (new @ [])"
      unfolding issue_stop_def by (intro emits_bind) (auto intro: emits_sret)
    with Inr a show ?thesis
      by (intro exI[of _ "Inr (acc @ [v])"] exI[of _ new]) (auto simp: issue_outcome_def async_outcome_def stop_call_def)
  qed
qed

text \<open>Lifting a loop over all nodes out of a state that can call.\<close>

lemma node_loop_emits:
  assumes "can_call s"
    and body: "\<And>i acc t. i \<in> set (node_ids (length (rc_hosts (sy_ctx s)))) \<Longrightarrow> can_call t \<Longrightarrow> sy_ctx t = sy_ctx s \<Longrightarrow>
      \<exists>r new. emits (body i acc) t r new \<and> B i acc r new"
  shows "\<exists>r new. node_loop body (num_hosts (sy_ctx s)) 1 acc s = Some (r, extended new s) \<and>
    loop_run B (node_ids (length (rc_hosts (sy_ctx s)))) acc r new"
proof -
  let ?n = "length (rc_hosts (sy_ctx s))"
  have "?n < 2 ^ 32 - 1"
    using assms(1) by (simp add: can_call_def rc_table_def)
  then have loop: "node_loop body (num_hosts (sy_ctx s)) 1 acc s = Some (fold_step body (node_ids ?n) acc s)"
    unfolding num_hosts_def by (rule node_loop_ids)
  have "\<exists>r new. emits (fold_step body (node_ids ?n) acc) s r new \<and> loop_run B (node_ids ?n) acc r new"
    by (rule fold_step_emits[where I = "\<lambda>t. can_call t \<and> sy_ctx t = sy_ctx s"]) (use assms in auto)
  then show ?thesis
    unfolding loop emits_def by auto
qed

lemma map_node_ids: "n < 2 ^ 32 \<Longrightarrow> map (\<lambda>i. f (unat i - 1)) (node_ids n) = map f [0..<n]"
  by (auto simp: node_ids_def unat_of_nat_u32 simp del: of_nat_add of_nat_Suc)

lemma wait_handles:
  "\<exists>r new. emits (fold_step (wait_each P) hs ()) s r new \<and> loop_run (wait_outcome P) hs () r new"
  by (rule fold_step_emits[where I = "\<lambda>_. True"]) (use wait_each_emits in auto)

lemma the_rpc_can_call: "can_call s \<Longrightarrow> the_rpc s = (Inr (sy_ctx s), s)"
  by (simp add: the_rpc_def deref_def can_call_def)

text \<open>All requests to stop come before the first answer that is received.\<close>

definition asks_then_waits :: "event list \<Rightarrow> bool" where
  "asks_then_waits tr \<longleftrightarrow> (\<exists>asks waits. tr = asks @ waits \<and> waited asks = [] \<and> issued waits = [])"

lemma asks_then_waitsI: "waited asks = [] \<Longrightarrow> issued waits = [] \<Longrightarrow> asks_then_waits (asks @ waits)"
  unfolding asks_then_waits_def by blast

text \<open>The outcome of \<open>StopAllDaemons\<close> in the context \<open>c\<close>.\<close>

definition stop_outcome :: "platform \<Rightarrow> rpc_context \<Rightarrow> failure + unit \<Rightarrow> event list \<Rightarrow> bool" where
  "stop_outcome P c r new \<longleftrightarrow>
    prefix (issued new) (map (stop_call c) [0..<length (rc_hosts c)]) \<and>
    answered new = [] \<and> prefix (waited new) (handles new) \<and> asks_then_waits new \<and>
    (waited new \<noteq> [] \<or> r = Inr () \<longrightarrow> issued new = map (stop_call c) [0..<length (rc_hosts c)]) \<and>
    (r = Inr () \<longrightarrow> waited new = handles new) \<and>
    (r = Inr () \<or> (\<exists>x. r = Inl (Throws x))) \<and> (responsive P \<longrightarrow> r = Inr ())"

text \<open>A loop that is left by an exception has not done all its calls.\<close>

lemma issue_loop_short:
  "loop_run (issue_outcome P what) xs acc r new \<Longrightarrow> isl r \<Longrightarrow> length (issued new) < length xs"
  by (induction rule: loop_run.induct) (auto simp: issue_outcome_def)

lemma wait_loop_short:
  "loop_run (wait_outcome P) hs acc r new \<Longrightarrow> isl r \<Longrightarrow> length (waited new) < length hs"
  by (induction rule: loop_run.induct) (auto simp: wait_outcome_def)

lemma stop_all_daemons_short:
  assumes "can_call s" "roomy P"
  shows "\<exists>r new. stop_all_daemons P s = Some (r, extended new s) \<and> stop_outcome P (sy_ctx s) r new \<and>
    (isl r \<longrightarrow> length (issued new) < length (rc_hosts (sy_ctx s)) \<or> length (waited new) < length (rc_hosts (sy_ctx s)))"
proof -
  let ?n = "length (rc_hosts (sy_ctx s))" and ?what = "\<lambda>i. stop_call (sy_ctx s) (unat i - 1)"
  have n: "?n < 2 ^ 32"
    using assms(1) by (simp add: can_call_def rc_table_def)
  obtain r1 a where a: "node_loop (issue_stop P) (num_hosts (sy_ctx s)) 1 [] s = Some (r1, extended a s)"
    "loop_run (issue_outcome P ?what) (node_ids ?n) [] r1 a"
    using node_loop_emits[OF assms(1), of "issue_stop P" "issue_outcome P ?what" "[]"] issue_stop_emits by metis
  note asked = issue_loop[OF a(2), unfolded map_node_ids[OF n]]
  have run: "stop_all_daemons P s = (case r1 of Inl e \<Rightarrow> Some (Inl e, extended a s)
      | Inr hs \<Rightarrow> Some (fold_step (wait_each P) hs () (extended a s)))"
    using a(1) assms reserve_hosts[OF assms(2,1), of s]
    by (simp add: stop_all_daemons_def the_rpc_can_call obind_Some olift_def[abs_def] split: sum.splits)
  show ?thesis
  proof (cases r1)
    case (Inl e)
    with issue_loop_short[OF a(2)] asked run show ?thesis
      by (intro exI[of _ "Inl e"] exI[of _ a])
        (use asks_then_waitsI[of a "[]"] in \<open>auto simp: stop_outcome_def node_ids_def\<close>)
  next
    case (Inr hs)
    obtain r b where b: "emits (fold_step (wait_each P) hs ()) (extended a s) r b" "loop_run (wait_outcome P) hs () r b"
      using wait_handles by blast
    have "stop_all_daemons P s = Some (r, extended (a @ b) s)"
      using run Inr b(1) by (simp add: emits_def)
    moreover have "handles b = []"
      using b(2) by (induction rule: loop_run.induct) (auto simp: wait_outcome_def)
    moreover have "length hs = ?n"
      using asked Inr length_handles[of a] by simp
    then have "isl r \<Longrightarrow> length (waited b) < ?n"
      using wait_loop_short[OF b(2)] by simp
    ultimately show ?thesis
      using asked wait_loop[OF b(2)] Inr by (intro exI[of _ r] exI[of _ "a @ b"])
        (use asks_then_waitsI[of a b] in \<open>cases r; auto simp: stop_outcome_def\<close>)
  qed
qed

lemma stop_all_daemons_run:
  assumes "can_call s" "roomy P"
  shows "\<exists>r new. stop_all_daemons P s = Some (r, extended new s) \<and> stop_outcome P (sy_ctx s) r new"
  using stop_all_daemons_short[OF assms] by blast

text \<open>
  C1: \<open>StopAllDaemons\<close> on an initialised process (and a vector type with room for one response
  per node) returns over every network. It asks the nodes
  to stop in the order of the table, each at its own address and by name \<open>RpcStopDaemon\<close>, up to
  the first request that fails; it waits for the answers in the order of the requests and
  only after all requests were sent. When it ends normally every node was asked once and every
  answer was received; the only other end is an exception, and none comes up when the network
  answers.
\<close>

theorem stop_all_daemons_asks_all:
  assumes "can_call s" "roomy P"
  shows "\<exists>r new. stop_all_daemons P s = Some (r, extended new s) \<and>
    prefix (issued new) (map (stop_call (sy_ctx s)) [0..<length (rc_hosts (sy_ctx s))]) \<and>
    answered new = [] \<and> prefix (waited new) (handles new) \<and>
    (\<exists>asks waits. new = asks @ waits \<and> waited asks = [] \<and> issued waits = []) \<and>
    (waited new \<noteq> [] \<or> r = Inr () \<longrightarrow> issued new = map (stop_call (sy_ctx s)) [0..<length (rc_hosts (sy_ctx s))]) \<and>
    (r = Inr () \<longrightarrow> waited new = handles new) \<and>
    (r = Inr () \<or> (\<exists>x. r = Inl (Throws x))) \<and> (responsive P \<longrightarrow> r = Inr ())"
  using stop_all_daemons_run[OF assms] unfolding stop_outcome_def asks_then_waits_def .

text \<open>A platform for the witnesses: every request is answered by the length of the history.\<close>

definition sample_platform :: platform where
  "sample_platform =
     \<lparr>p_hshm = sample_hshm, p_env = sample_netenv, p_net = (\<lambda>tr q. Inr (int (length tr))), p_malloc = sample_malloc,
      p_max_responses = 2 ^ 40, p_max_chars = 2 ^ 40, p_junk_node = 0xDEADBEEF\<rparr>"

definition sample_context :: rpc_context where
  "sample_context = empty_context
     \<lparr>rc_port := 8080, rc_protocol := ''tcp'', rc_node_id := 1, rc_num_threads := 2,
      rc_hosts := [host_info_make ''10.0.0.2'' ''10.0.0.2'' 1, host_info_make ''node3'' ''10.0.0.3'' 2],
      rc_config := Some (sample_cluster [''10.0.0.2'', ''node3''] False)\<rparr>"

definition sample_sys :: sys where
  "sample_sys =
     \<lparr>sy_trace = [], sy_ctx = sample_context, th_rpc = True, th_client = Some 1, th_server = Some 2,
      th_pool = Some 3, th_xstreams = [], sy_heap = (\<lambda>_. None)\<rparr>"

lemma sample_responsive: "responsive sample_platform"
  by (simp add: responsive_def sample_platform_def)

lemma sample_roomy: "roomy sample_platform"
  by (simp add: roomy_def sample_platform_def)

lemma sample_bits: "hshm_bits (p_hshm sample_platform)" "fatal_exits (p_hshm sample_platform)"
  by (simp_all add: sample_platform_def sample_hshm_bits sample_hshm_fatal)

lemma sample_context_inv: "rc_inv sample_context"
  by (auto simp: rc_inv_def rc_table_def sample_context_def host_info_make_def less_Suc_eq nth_Cons')

lemma sample_can_call: "can_call sample_sys"
  using sample_context_inv by (simp add: can_call_def sample_sys_def rc_inv_def)

lemma sample_sys_fields:
  "th_client sample_sys = Some 1" "th_server sample_sys = Some 2" "length (rc_hosts sample_context) = 2"
  "sy_ctx sample_sys = sample_context"
  by (simp_all add: sample_sys_def sample_context_def)

lemma sample_server_name:
  "server_name sample_context 0 = ''tcp://10.0.0.2:'' @ to_string_int 8080"
  "server_name sample_context (Suc 0) = ''tcp://10.0.0.3:'' @ to_string_int 8080"
  by (simp_all add: server_name_def sample_context_def host_info_make_def)

theorem stop_all_daemons_asks_all_witness:
  "\<exists>new. stop_all_daemons sample_platform sample_sys = Some (Inr (), extended new sample_sys) \<and>
     issued new = [(''RpcStopDaemon'', ''tcp://10.0.0.2:'' @ to_string_int 8080, []),
                   (''RpcStopDaemon'', ''tcp://10.0.0.3:'' @ to_string_int 8080, [])]"
proof -
  have calls: "map (stop_call sample_context) [0..<2]
      = [(''RpcStopDaemon'', ''tcp://10.0.0.2:'' @ to_string_int 8080, []),
         (''RpcStopDaemon'', ''tcp://10.0.0.3:'' @ to_string_int 8080, [])]"
    by (simp add: numeral_2_eq_2 stop_call_def sample_server_name)
  obtain r new where "stop_all_daemons sample_platform sample_sys = Some (r, extended new sample_sys)" "r = Inr ()"
    "r = Inr () \<longrightarrow> issued new = map (stop_call sample_context) [0..<2]"
    using stop_all_daemons_asks_all[OF sample_can_call sample_roomy] sample_responsive
    unfolding sample_sys_fields by blast
  then show ?thesis
    unfolding calls by blast
qed

section \<open>Bulk transfers\<close>

text \<open>
  The outcome of exposing the segments \<open>sel\<close>: nothing happens when they hold no bytes;
  otherwise one request exposes exactly them, in order, and its reply decides.
\<close>

definition exposed :: "engine_side \<Rightarrow> bulk_mode \<Rightarrow> data_transfer list \<Rightarrow>
    failure + int option \<times> u64 \<Rightarrow> event list \<Rightarrow> bool" where
  "exposed side mode sel r new \<longleftrightarrow>
     (let total = sum_list (map dt_data_size sel)
      in if total = 0 then r = Inr (None, 0) \<and> new = []
         else \<exists>reply. new = [Asked (Expose side (map (\<lambda>x. (dt_data x, dt_data_size x)) sel) mode) reply] \<and>
                r = map_sum Throws (\<lambda>b. (Some b, total)) reply)"

lemma bulk_segments_filter:
  "bulk_segments H flag xs segs n =
     (segs @ map (\<lambda>x. (dt_data x, dt_data_size x)) (filter (\<lambda>x. bf_any H (dt_flags x) flag) xs),
      n + sum_list (map dt_data_size (filter (\<lambda>x. bf_any H (dt_flags x) flag) xs)))"
  by (induction xs arbitrary: segs n) (simp_all add: add.assoc)

lemma exposed_request:
  "sum_list (map dt_data_size sel) \<noteq> 0 \<Longrightarrow>
   exposed side mode sel (map_sum Throws (\<lambda>b. (Some b, sum_list (map dt_data_size sel))) v)
     [Asked (Expose side (map (\<lambda>x. (dt_data x, dt_data_size x)) sel) mode) v]"
  unfolding exposed_def Let_def by auto

lemma expose_emits:
  assumes "n \<noteq> 0"
  shows "\<exists>v. emits (sbind (perform P (Expose side segs mode)) (\<lambda>bulk. sret (Some bulk, n))) s
      (map_sum Throws (\<lambda>b. (Some b, n)) v) [Asked (Expose side segs mode) v] \<and> (responsive P \<longrightarrow> \<not> isl v)"
proof -
  define v where "v = p_net P (sy_trace s) (Expose side segs mode)"
  have "responsive P \<longrightarrow> \<not> isl v"
    unfolding responsive_def v_def by (metis sum.disc(2))
  moreover have "emits (sbind (perform P (Expose side segs mode)) (\<lambda>bulk. sret (Some bulk, n))) s
      (map_sum Throws (\<lambda>b. (Some b, n)) v) [Asked (Expose side segs mode) v]"
    by (cases v) (simp_all add: emits_def sbind_def sret_def perform_eq flip: v_def)
  ultimately show ?thesis
    by blast
qed

lemma make_bulk_emits:
  assumes "hshm_bits (p_hshm P)"
    and "(case side of Client_engine \<Rightarrow> th_client s | Server_engine \<Rightarrow> th_server s) \<noteq> None"
  shows "\<exists>r new. emits (make_bulk P side xs flag mode) s r new \<and>
    exposed side mode (filter (\<lambda>x. dt_flags x AND flag \<noteq> 0) xs) r new \<and> (responsive P \<longrightarrow> \<not> isl r)"
proof -
  define sel where "sel = filter (\<lambda>x. dt_flags x AND flag \<noteq> 0) xs"
  define segs where "segs = map (\<lambda>x. (dt_data x, dt_data_size x)) sel"
  define n where "n = sum_list (map dt_data_size sel)"
  obtain e where e: "engine_of side s = (Inr e, s)"
    using assms(2) by (auto simp: engine_of_def deref_def split: engine_side.splits)
  have "bulk_segments (p_hshm P) flag xs [] 0 = (segs, n)"
    by (simp add: bulk_segments_filter hshm_bits_simps(4)[OF assms(1)] segs_def n_def sel_def)
  then have run: "make_bulk P side xs flag mode s =
      (if n \<noteq> 0 then sbind (perform P (Expose side segs mode)) (\<lambda>bulk. sret (Some bulk, n)) s else (Inr (None, n), s))"
    using e by (simp add: make_bulk_def sbind_ok sret_def)
  show ?thesis
  proof (cases "n = 0")
    case True
    with run have "emits (make_bulk P side xs flag mode) s (Inr (None, 0)) []"
      by (simp add: emits_def)
    moreover have "exposed side mode sel (Inr (None, 0)) []"
      using True by (simp add: exposed_def n_def)
    ultimately show ?thesis
      unfolding sel_def by (metis sum.disc(2))
  next
    case False
    obtain v where v: "emits (sbind (perform P (Expose side segs mode)) (\<lambda>bulk. sret (Some bulk, n))) s
      (map_sum Throws (\<lambda>b. (Some b, n)) v) [Asked (Expose side segs mode) v]" "responsive P \<longrightarrow> \<not> isl v"
      using expose_emits[OF False] by blast
    moreover have "exposed side mode sel (map_sum Throws (\<lambda>b. (Some b, n)) v) [Asked (Expose side segs mode) v]"
      using False unfolding segs_def n_def by (rule exposed_request)
    ultimately show ?thesis
      using run False unfolding emits_def sel_def by (metis isl_map_sum)
  qed
qed

lemma mode_values:
  assumes "hshm_bits H"
  shows "client_mode H flag = (if flag AND 3 \<noteq> 0 then Bulk_read_only else Bulk_write_only)"
    and "server_mode H flag = (if flag AND 3 \<noteq> 0 then Bulk_write_only else Bulk_read_only)"
  using dt_flag_values[OF assms] by (simp_all add: client_mode_def server_mode_def)

text \<open>
  C14: \<open>MakeBulkClient\<close> and \<open>MakeBulkServer\<close>. Each exposes exactly the segments whose flags
  meet the given ones, in order and in one request to its own engine, or nothing at all when
  these hold no bytes; the byte count is their total. The two sides always take opposite
  modes: for a flag with a bit of \<open>DT_WRITE\<close> the client's memory is read and the server's is
  written, for any other the reverse.
\<close>

theorem make_bulk_sides:
  assumes "hshm_bits (p_hshm P)" "th_client s \<noteq> None" "th_server s \<noteq> None"
  shows "let sel = filter (\<lambda>x. dt_flags x AND flag \<noteq> 0) xs;
             (cmode, smode) = (if flag AND 3 \<noteq> 0 then (Bulk_read_only, Bulk_write_only) else (Bulk_write_only, Bulk_read_only))
    in (\<exists>r new. make_bulk_client P xs flag s = (r, extended new s) \<and> exposed Client_engine cmode sel r new) \<and>
       (\<exists>r new. make_bulk_server P xs flag s = (r, extended new s) \<and> exposed Server_engine smode sel r new)"
  using make_bulk_emits[OF assms(1), where side = Client_engine and s = s and xs = xs and flag = flag]
    make_bulk_emits[OF assms(1), where side = Server_engine and s = s and xs = xs and flag = flag] assms(2,3)
  unfolding make_bulk_client_def make_bulk_server_def mode_values[OF assms(1)] Let_def emits_def
  by (cases "flag AND 3 = 0") (simp, blast, simp, blast)

theorem make_bulk_sides_witness:
  "\<exists>new. make_bulk_client sample_platform [dt_make 3 4096 10, dt_make 0 8192 7] 3 sample_sys =
     (Inr (Some 0, 10), extended new sample_sys)"
proof -
  let ?xs = "[dt_make 3 4096 10, dt_make 0 8192 7]"
  have "filter (\<lambda>x. dt_flags x AND 3 \<noteq> 0) ?xs = [dt_make 3 4096 10]"
    by code_simp
  then obtain r new where r: "make_bulk_client sample_platform ?xs 3 sample_sys = (r, extended new sample_sys)"
    "exposed Client_engine Bulk_read_only [dt_make 3 4096 10] r new"
    using make_bulk_sides[OF sample_bits(1), of sample_sys 3 ?xs] sample_sys_fields by (auto simp: Let_def)
  moreover have "fst (make_bulk_client sample_platform ?xs 3 sample_sys) = Inr (Some 0, 10)"
    by code_simp
  ultimately show ?thesis
    by auto
qed

section \<open>I/O calls\<close>

lemma make_bulk_client_emits:
  assumes "hshm_bits (p_hshm P)" "th_client s \<noteq> None"
  shows "\<exists>r new. emits (make_bulk_client P xs flag) s r new \<and>
    exposed Client_engine (if flag AND 3 \<noteq> 0 then Bulk_read_only else Bulk_write_only)
      (filter (\<lambda>x. dt_flags x AND flag \<noteq> 0) xs) r new \<and> (responsive P \<longrightarrow> \<not> isl r)"
  unfolding make_bulk_client_def mode_values[OF assms(1)] using assms by (intro make_bulk_emits) simp_all

lemma io_call_order:
  assumes "hshm_bits (p_hshm P)" "can_call s" "1 \<le> unat i" "unat i \<le> length (rc_hosts (sy_ctx s))"
  shows "sync_io_call P i f x flag s =
      sbind (make_bulk_client P (st_bulk x) flag) (\<lambda>(bulk, n). sync_call P i f [Arg_bulk bulk, Arg_xfer x]) s"
    and "async_io_call P i f x flag s =
      sbind (make_bulk_client P (st_bulk x) flag) (\<lambda>(bulk, n). async_call P i f [Arg_bulk bulk, Arg_xfer x]) s"
proof -
  have name: "get_server_name (sy_ctx s) i = Inr (server_name (sy_ctx s) (unat i - 1))"
    using assms by (intro get_server_name_known) (simp_all add: can_call_def)
  obtain e where e: "engine_of Client_engine (extended new s) = (Inr e, extended new s)" for new
    using assms(2) by (auto simp: can_call_def engine_of_def deref_def)
  obtain r a where a: "make_bulk_client P (st_bulk x) flag s = (r, extended a s)"
    using make_bulk_client_emits[OF assms(1)] assms(2) by (fastforce simp: emits_def can_call_def)
  have rpc: "the_rpc (extended a s) = (Inr (sy_ctx s), extended a s)" for a
    using the_rpc_can_call[of "extended a s"] assms(2) by simp
  have target: "rpc_target P i f (extended a s) =
    sbind (perform P (Define_client f)) (\<lambda>proc.
    sbind (perform P (Lookup (server_name (sy_ctx s) (unat i - 1)))) (\<lambda>server.
    sret ((f, proc), (server_name (sy_ctx s) (unat i - 1), server)))) (extended a s)"
    using rpc_target_unfold[of "extended a s" i P f] assms by simp
  have io: "io_target P i f x flag s = sbind (make_bulk_client P (st_bulk x) flag) (\<lambda>(bulk, n).
      sbind (rpc_target P i f) (\<lambda>(proc, server). sret (proc, server, [Arg_bulk bulk, Arg_xfer x]))) s"
    using rpc[of "[]"] name a e[of a] target
    by (simp add: io_target_def sbind_ok the_rpc_can_call[OF assms(2)])
      (auto simp: sbind_def slift_def sret_def perform_eq split: sum.splits prod.splits)
  show "sync_io_call P i f x flag s =
      sbind (make_bulk_client P (st_bulk x) flag) (\<lambda>(bulk, n). sync_call P i f [Arg_bulk bulk, Arg_xfer x]) s"
    using io a unfolding sync_io_call_def sync_call_def
    by (auto simp: sbind_def sret_def split: sum.splits prod.splits)
  show "async_io_call P i f x flag s =
      sbind (make_bulk_client P (st_bulk x) flag) (\<lambda>(bulk, n). async_call P i f [Arg_bulk bulk, Arg_xfer x]) s"
    using io a unfolding async_io_call_def async_call_def
    by (auto simp: sbind_def sret_def split: sum.splits prod.splits)
qed

text \<open>
  The outcome of an I/O call: the client memory is exposed first, and only when that worked
  the call is made, with the bulk (none for an empty payload) and the descriptor.
\<close>

definition io_outcome ::
    "(string \<Rightarrow> string \<Rightarrow> rpc_arg list \<Rightarrow> failure + int \<Rightarrow> event list \<Rightarrow> bool) \<Rightarrow>
     string \<Rightarrow> string \<Rightarrow> segmented_transfer \<Rightarrow> u32 \<Rightarrow> failure + int \<Rightarrow> event list \<Rightarrow> bool" where
  "io_outcome outcome f name x flag r new \<longleftrightarrow>
     (\<exists>rb a b. new = a @ b \<and>
        exposed Client_engine (if flag AND 3 \<noteq> 0 then Bulk_read_only else Bulk_write_only)
          (filter (\<lambda>d. dt_flags d AND flag \<noteq> 0) (st_bulk x)) rb a \<and>
        (case rb of Inl e \<Rightarrow> r = Inl e \<and> b = []
         | Inr (bulk, n) \<Rightarrow> outcome f name [Arg_bulk bulk, Arg_xfer x] r b))"

lemma io_bind_emits:
  assumes "hshm_bits (p_hshm P)" "can_call s"
    and call: "\<And>bulk t. can_call t \<Longrightarrow> sy_ctx t = sy_ctx s \<Longrightarrow>
      \<exists>r new. emits (k [Arg_bulk bulk, Arg_xfer x]) t r new \<and> outcome f name [Arg_bulk bulk, Arg_xfer x] r new \<and>
        (responsive P \<longrightarrow> \<not> isl r)"
  shows "\<exists>r new. emits (sbind (make_bulk_client P (st_bulk x) flag) (\<lambda>(bulk, n). k [Arg_bulk bulk, Arg_xfer x])) s r new \<and>
    io_outcome outcome f name x flag r new \<and> (responsive P \<longrightarrow> \<not> isl r)"
proof -
  let ?mode = "if flag AND 3 \<noteq> 0 then Bulk_read_only else Bulk_write_only"
  let ?sel = "filter (\<lambda>d. dt_flags d AND flag \<noteq> 0) (st_bulk x)"
  obtain rb a where a: "emits (make_bulk_client P (st_bulk x) flag) s rb a"
    "exposed Client_engine ?mode ?sel rb a" "responsive P \<longrightarrow> \<not> isl rb"
    using make_bulk_client_emits[OF assms(1)] assms(2) unfolding can_call_def by meson
  show ?thesis
  proof (cases rb)
    case (Inl e)
    have "io_outcome outcome f name x flag (Inl e) a"
      unfolding io_outcome_def using a(2) Inl by (intro exI[of _ rb] exI[of _ a] exI[of _ "[]"]) simp
    moreover have "emits (sbind (make_bulk_client P (st_bulk x) flag) (\<lambda>(bulk, n). k [Arg_bulk bulk, Arg_xfer x])) s (Inl e) a"
      using a(1) unfolding Inl by (rule emits_bind_fail)
    moreover have "responsive P \<longrightarrow> \<not> isl (Inl e :: failure + int)"
      using a(3) Inl by simp
    ultimately show ?thesis
      by blast
  next
    case (Inr bn)
    obtain bulk n where bn: "bn = (bulk, n)"
      by (cases bn)
    obtain r b where b: "emits (k [Arg_bulk bulk, Arg_xfer x]) (extended a s) r b"
      "outcome f name [Arg_bulk bulk, Arg_xfer x] r b" "responsive P \<longrightarrow> \<not> isl r"
      using call[of "extended a s" bulk] assms(2) by auto
    have "emits (sbind (make_bulk_client P (st_bulk x) flag) (\<lambda>(bulk, n). k [Arg_bulk bulk, Arg_xfer x])) s r (a @ b)"
      using a(1) b(1) Inr bn by (intro emits_bind[where x = bn]) simp_all
    moreover have "io_outcome outcome f name x flag r (a @ b)"
      unfolding io_outcome_def using a(2) b(2) Inr bn by (intro exI[of _ rb] exI[of _ a] exI[of _ b]) simp
    ultimately show ?thesis
      using b(3) by blast
  qed
qed

lemma sync_io_call_emits:
  assumes "hshm_bits (p_hshm P)" "can_call s" "1 \<le> unat i" "unat i \<le> length (rc_hosts (sy_ctx s))"
  shows "\<exists>r new. emits (sync_io_call P i f x flag) s r new \<and>
    io_outcome sync_outcome f (server_name (sy_ctx s) (unat i - 1)) x flag r new \<and> (responsive P \<longrightarrow> \<not> isl r)"
proof -
  have "\<exists>r new. emits (sbind (make_bulk_client P (st_bulk x) flag)
      (\<lambda>(bulk, n). sync_call P i f [Arg_bulk bulk, Arg_xfer x])) s r new \<and>
    io_outcome sync_outcome f (server_name (sy_ctx s) (unat i - 1)) x flag r new \<and> (responsive P \<longrightarrow> \<not> isl r)"
    using assms sync_call_emits by (intro io_bind_emits[OF assms(1,2)]) metis
  then show ?thesis
    unfolding emits_def io_call_order(1)[OF assms] .
qed

lemma async_io_call_emits:
  assumes "hshm_bits (p_hshm P)" "can_call s" "1 \<le> unat i" "unat i \<le> length (rc_hosts (sy_ctx s))"
  shows "\<exists>r new. emits (async_io_call P i f x flag) s r new \<and>
    io_outcome async_outcome f (server_name (sy_ctx s) (unat i - 1)) x flag r new \<and> (responsive P \<longrightarrow> \<not> isl r)"
proof -
  have "\<exists>r new. emits (sbind (make_bulk_client P (st_bulk x) flag)
      (\<lambda>(bulk, n). async_call P i f [Arg_bulk bulk, Arg_xfer x])) s r new \<and>
    io_outcome async_outcome f (server_name (sy_ctx s) (unat i - 1)) x flag r new \<and> (responsive P \<longrightarrow> \<not> isl r)"
    using assms async_call_emits by (intro io_bind_emits[OF assms(1,2)]) metis
  then show ?thesis
    unfolding emits_def io_call_order(2)[OF assms] .
qed

text \<open>
  C15: \<open>SyncIoCall\<close> to a known node. Over every network the process does nothing but, first,
  expose the flagged segments for the mode of the flag (when they hold bytes) and then, if
  that worked, call the procedure once at the node's address with the bulk and the
  descriptor; an answer is the reply of exactly that call, and any failure is an exception
  before a reply.
\<close>

theorem sync_io_call_steps:
  assumes "hshm_bits (p_hshm P)" "can_call s" "1 \<le> unat i" "unat i \<le> length (rc_hosts (sy_ctx s))"
  shows "\<exists>r new. sync_io_call P i f x flag s = (r, extended new s) \<and>
    io_outcome sync_outcome f (server_name (sy_ctx s) (unat i - 1)) x flag r new \<and>
    (responsive P \<longrightarrow> (\<exists>v bulk. r = Inr v \<and>
       answered new = [(f, server_name (sy_ctx s) (unat i - 1), [Arg_bulk bulk, Arg_xfer x])]))"
proof -
  have quiet: "answered a = []" if "exposed side mode sel rb a" for side mode sel rb a
    using that by (auto simp: exposed_def Let_def split: if_splits)
  obtain r new where r: "sync_io_call P i f x flag s = (r, extended new s)"
    "io_outcome sync_outcome f (server_name (sy_ctx s) (unat i - 1)) x flag r new" "responsive P \<longrightarrow> \<not> isl r"
    using sync_io_call_emits[OF assms] unfolding emits_def by blast
  have "\<exists>bulk. answered new = [(f, server_name (sy_ctx s) (unat i - 1), [Arg_bulk bulk, Arg_xfer x])]" if "r = Inr v" for v
    using r(2) that quiet unfolding io_outcome_def by (fastforce simp: sync_outcome_def split: sum.splits)
  with r show ?thesis
    by (metis sum.collapse(2))
qed

theorem sync_io_call_steps_witness:
  "\<exists>new v bulk. sync_io_call sample_platform 2 ''RpcTaskSubmit'' sample_transfer 3 sample_sys = (Inr v, extended new sample_sys) \<and>
     answered new = [(''RpcTaskSubmit'', ''tcp://10.0.0.3:'' @ to_string_int 8080, [Arg_bulk bulk, Arg_xfer sample_transfer])]"
  using sync_io_call_steps[OF sample_bits(1) sample_can_call, of 2 "''RpcTaskSubmit''" sample_transfer 3]
    sample_responsive
  by (auto simp: sample_sys_fields sample_server_name)

section \<open>The server side\<close>

text \<open>
  The outcome of \<open>IoCallServerWrite\<close>: \<open>E\<close> is the reply to the request for the client's
  endpoint, \<open>rb\<close> and \<open>a\<close> the exposure of the local segments, \<open>b\<close> the transfer.
\<close>

definition pull_result :: "platform \<Rightarrow> exn + int \<Rightarrow> failure + u64" where
  "pull_result P reply = (case reply of
     Inr moved \<Rightarrow> Inr (word_of_int moved)
   | Inl Other_exn \<Rightarrow> Inl (Throws Other_exn)
   | Inl _ \<Rightarrow> if fatal_exits (p_hshm P) then Inl (Exits 1) else Inr 0)"

definition transfer_outcome ::
    "platform \<Rightarrow> int option \<Rightarrow> int \<Rightarrow> failure + int option \<times> u64 \<Rightarrow> failure + u64 \<Rightarrow> event list \<Rightarrow> bool" where
  "transfer_outcome P bulk ep rb r b \<longleftrightarrow>
     (case rb of
        Inl e \<Rightarrow> r = Inl e \<and> b = []
      | Inr (None, n) \<Rightarrow> r = Inr 0 \<and> b = []
      | Inr (Some local, n) \<Rightarrow>
          (\<exists>reply. b = [Asked (Pull_bulk (case bulk of None \<Rightarrow> 0 | Some h \<Rightarrow> h) ep local) reply] \<and> r = pull_result P reply))"

definition server_write_outcome ::
    "platform \<Rightarrow> int \<Rightarrow> int option \<Rightarrow> segmented_transfer \<Rightarrow> failure + u64 \<Rightarrow> event list \<Rightarrow> bool" where
  "server_write_outcome P req bulk x r new \<longleftrightarrow>
     (\<exists>E rest. new = Asked (Get_endpoint req) E # rest \<and>
       (case E of Inl exc \<Rightarrow> r = Inl (Throws exc) \<and> rest = []
        | Inr ep \<Rightarrow>
            (\<exists>rb a b. rest = a @ b \<and>
               exposed Server_engine Bulk_write_only (filter (\<lambda>d. dt_flags d AND 3 \<noteq> 0) (st_bulk x)) rb a \<and>
               transfer_outcome P bulk ep rb r b)))"

definition pull_step :: "platform \<Rightarrow> int option \<Rightarrow> int \<Rightarrow> int option \<Rightarrow> (sys, u64) step" where
  "pull_step P bulk ep local_bulk =
     scatch
       (sbind (perform P (Pull_bulk (case bulk of None \<Rightarrow> 0 | Some b \<Rightarrow> b) ep
                            (case local_bulk of None \<Rightarrow> 0 | Some b \<Rightarrow> b))) (\<lambda>n. sret (0 + word_of_int n)))
       (on_std (sfatal P (sret 0)))"

lemma pull_step_emits:
  "\<exists>reply. emits (pull_step P bulk ep local_bulk) s (pull_result P reply)
      [Asked (Pull_bulk (case bulk of None \<Rightarrow> 0 | Some h \<Rightarrow> h) ep (case local_bulk of None \<Rightarrow> 0 | Some h \<Rightarrow> h)) reply] \<and>
    (responsive P \<longrightarrow> \<not> isl (pull_result P reply))"
proof -
  let ?q = "Pull_bulk (case bulk of None \<Rightarrow> 0 | Some h \<Rightarrow> h) ep (case local_bulk of None \<Rightarrow> 0 | Some h \<Rightarrow> h)"
  define reply where "reply = p_net P (sy_trace s) ?q"
  have run: "perform P ?q s = (map_sum Throws id reply, extended [Asked ?q reply] s)"
    by (simp only: perform_eq reply_def)
  have "emits (pull_step P bulk ep local_bulk) s (pull_result P reply) [Asked ?q reply]"
    unfolding emits_def pull_step_def pull_result_def
    by (cases reply)
      (auto simp: scatch_def sbind_def run sret_def on_std_def sfatal_def sfail_def split: exn.splits)
  moreover have "responsive P \<longrightarrow> \<not> isl (pull_result P reply)"
  proof
    assume "responsive P"
    then obtain v where "reply = Inr v"
      unfolding reply_def responsive_def by blast
    then show "\<not> isl (pull_result P reply)"
      by (simp add: pull_result_def)
  qed
  ultimately show ?thesis
    by blast
qed

lemma make_bulk_server_emits:
  assumes "hshm_bits (p_hshm P)" "th_server s \<noteq> None"
  shows "\<exists>r new. emits (make_bulk_server P xs (DT_WRITE (p_hshm P))) s r new \<and>
    exposed Server_engine Bulk_write_only (filter (\<lambda>x. dt_flags x AND 3 \<noteq> 0) xs) r new \<and> (responsive P \<longrightarrow> \<not> isl r)"
proof -
  have "(3 :: u32) AND 3 \<noteq> 0"
    by simp
  then show ?thesis
    using make_bulk_emits[OF assms(1), where side = Server_engine and s = s and xs = xs and flag = 3
      and mode = Bulk_write_only] assms(2)
    by (simp add: make_bulk_server_def mode_values[OF assms(1)] dt_flag_values[OF assms(1)])
qed

lemma Inr_map_sum: "Inr y = map_sum f g v \<longleftrightarrow> (\<exists>x. v = Inr x \<and> y = g x)"
  by (cases v) auto

lemma exposed_total:
  "exposed side mode sel (Inr (bulk, n)) new \<Longrightarrow> n = sum_list (map dt_data_size sel) \<and> (n = 0 \<longleftrightarrow> bulk = None)"
  by (cases "sum_list (map dt_data_size sel) = 0") (auto simp: exposed_def Let_def Inr_map_sum)

lemma io_call_server_write_emits:
  assumes "hshm_bits (p_hshm P)" "th_server s \<noteq> None"
  shows "\<exists>r new. emits (io_call_server_write P req bulk x) s r new \<and>
    server_write_outcome P req bulk x r new \<and> (responsive P \<longrightarrow> \<not> isl r)"
proof -
  define E where "E = p_net P (sy_trace s) (Get_endpoint req)"
  define t where "t = extended [Asked (Get_endpoint req) E] s"
  have first: "perform P (Get_endpoint req) s = (map_sum Throws id E, t)"
    by (simp only: perform_eq E_def t_def)
  show ?thesis
  proof (cases E)
    case (Inl exc)
    then have "\<not> responsive P"
      unfolding responsive_def E_def by (metis Inl_Inr_False)
    with Inl first show ?thesis
      by (intro exI[of _ "Inl (Throws exc)"] exI[of _ "[Asked (Get_endpoint req) E]"])
        (simp add: emits_def io_call_server_write_def sbind_def t_def server_write_outcome_def)
  next
    case (Inr ep)
    have run: "io_call_server_write P req bulk x s =
        sbind (make_bulk_server P (st_bulk x) (DT_WRITE (p_hshm P)))
          (\<lambda>(local_bulk, n). if n = 0 then sret 0 else pull_step P bulk ep local_bulk) t"
      unfolding io_call_server_write_def pull_step_def using first Inr by (simp add: sbind_ok)
    obtain rb a where a: "make_bulk_server P (st_bulk x) (DT_WRITE (p_hshm P)) t = (rb, extended a t)"
      "exposed Server_engine Bulk_write_only (filter (\<lambda>d. dt_flags d AND 3 \<noteq> 0) (st_bulk x)) rb a"
      "responsive P \<longrightarrow> \<not> isl rb"
      using make_bulk_server_emits[OF assms(1), of t] assms(2) unfolding emits_def t_def by fastforce
    have outcome: "server_write_outcome P req bulk x r (Asked (Get_endpoint req) E # a @ b)"
      if "transfer_outcome P bulk ep rb r b" for r b
      unfolding server_write_outcome_def using a(2) that Inr by auto
    show ?thesis
    proof (cases rb)
      case rb: (Inl e)
      then have "server_write_outcome P req bulk x (Inl e) (Asked (Get_endpoint req) E # a @ [])"
        by (intro outcome) (simp add: transfer_outcome_def)
      with run a rb show ?thesis
        by (intro exI[of _ "Inl e"] exI[of _ "Asked (Get_endpoint req) E # a"]) (simp add: emits_def sbind_fail t_def)
    next
      case rb: (Inr bn)
      obtain lb n where bn: "bn = (lb, n)"
        by (cases bn)
      have n: "n = 0 \<longleftrightarrow> lb = None"
        using exposed_total a(2) rb bn by blast
      show ?thesis
      proof (cases lb)
        case None
        then have "server_write_outcome P req bulk x (Inr 0) (Asked (Get_endpoint req) E # a @ [])"
          using rb bn by (intro outcome) (simp add: transfer_outcome_def)
        with run a rb bn n None show ?thesis
          by (intro exI[of _ "Inr 0"] exI[of _ "Asked (Get_endpoint req) E # a"]) (simp add: emits_def sbind_ok sret_def t_def)
      next
        case (Some h)
        let ?pull = "Pull_bulk (case bulk of None \<Rightarrow> 0 | Some h \<Rightarrow> h) ep h"
        obtain reply where p: "pull_step P bulk ep lb (extended a t) =
            (pull_result P reply, extended [Asked ?pull reply] (extended a t))"
          "responsive P \<longrightarrow> \<not> isl (pull_result P reply)"
          using pull_step_emits[of P bulk ep lb "extended a t"] Some unfolding emits_def by auto
        have "server_write_outcome P req bulk x (pull_result P reply)
          (Asked (Get_endpoint req) E # a @ [Asked ?pull reply])"
          using rb bn Some by (intro outcome) (simp add: transfer_outcome_def)
        moreover have "io_call_server_write P req bulk x s =
          (pull_result P reply, extended (Asked (Get_endpoint req) E # a @ [Asked ?pull reply]) s)"
          using run a(1) rb bn n Some p(1) by (simp add: sbind_ok t_def)
        ultimately show ?thesis
          using p(2) unfolding emits_def by blast
      qed
    qed
  qed
qed

text \<open>
  C11: \<open>IoCallServerWrite\<close> on every network. The server exposes its own copies of the segments
  with a bit of \<open>DT_WRITE\<close>, for writing, and pulls the client's memory into them; with no such
  bytes it pulls nothing and returns 0. The result is the number of bytes the pull reports; a
  failed pull ends the process, unless the exception is not a \<open>std::exception\<close>, which
  unwinds.
\<close>

theorem io_call_server_write_steps:
  assumes "hshm_bits (p_hshm P)" "th_server s \<noteq> None"
  shows "\<exists>r new. io_call_server_write P req bulk x s = (r, extended new s) \<and>
    server_write_outcome P req bulk x r new \<and> (responsive P \<longrightarrow> \<not> isl r)"
  using io_call_server_write_emits[OF assms] unfolding emits_def .

theorem io_call_server_write_steps_witness:
  "\<exists>new. io_call_server_write sample_platform 7 (Some 5) sample_transfer sample_sys = (Inr 2, extended new sample_sys) \<and>
     server_write_outcome sample_platform 7 (Some 5) sample_transfer (Inr 2) new"
proof -
  obtain r new where r: "io_call_server_write sample_platform 7 (Some 5) sample_transfer sample_sys = (r, extended new sample_sys)"
    "server_write_outcome sample_platform 7 (Some 5) sample_transfer r new"
    using io_call_server_write_steps[OF sample_bits(1), of sample_sys 7 "Some 5" sample_transfer] sample_sys_fields by auto
  moreover have "fst (io_call_server_write sample_platform 7 (Some 5) sample_transfer sample_sys) = Inr 2"
    by code_simp
  ultimately show ?thesis
    by auto
qed

end
