(* ===== verification/Rpc_Life.thy ===== *)
theory Rpc_Life
  imports Rpc_Calls
begin

text \<open>
  The life cycle of \<open>ThalliumRpc\<close>: what \<open>ServerInit\<close> of \<open>rpc_thallium.h\<close> sets up, under which
  address the server listens compared with the name its clients call, and how a daemon stops.
\<close>

section \<open>Names and addresses\<close>

lemma ipv4_text_looks_like_ip: "looks_like_ip (ipv4_text a)"
  using ipv4_text_dots[of a] ipv4_text_chars[of _ a] by (auto simp: looks_like_ip_def list_all_iff)

lemma get_ip_address_text:
  assumes "fatal_exits H" "get_ip_address H E name = Inr ip"
  shows "looks_like_ip ip"
  using assms ipv4_text_looks_like_ip
  by (auto simp: get_ip_address_def Let_def split: if_splits option.splits list.splits prod.splits)

lemma get_ip_address_same:
  assumes "fatal_exits H" "get_ip_address H E name = Inr ip"
  shows "name = ip \<longleftrightarrow> looks_like_ip name"
  using get_ip_address_text[OF assms] assms by (auto simp: get_ip_address_def)

lemma looks_like_ip_no_slash: "looks_like_ip ip \<Longrightarrow> CHR ''/'' \<notin> set ip"
  using is_digit_not_special[of "CHR ''/''"] unfolding looks_like_ip_def list_all_iff by auto

lemma initialised_hosts:
  assumes "build_hosts H E (ri_host_names (sc_rpc cfg)) 1 = Inr hosts" "k < length hosts"
    and "i < length (rc_hosts (initialised cfg hosts k c))"
  shows "\<exists>name ip j. get_ip_address H E name = Inr ip \<and>
    rc_hosts (initialised cfg hosts k c) ! i = host_info_make name ip j"
proof -
  have at: "\<exists>name ip j. get_ip_address H E name = Inr ip \<and> hosts ! m = host_info_make name ip j" if "m < length hosts" for m
    using build_hosts_nth[OF assms(1)] build_hosts_length[OF assms(1)] that by metis
  show ?thesis
  proof (cases "sc_local_only cfg")
    case True
    obtain name ip j where "get_ip_address H E name = Inr ip" "hosts ! k = host_info_make name ip j"
      using at[OF assms(2)] by blast
    with True assms(3) show ?thesis
      by (auto simp: initialised_def host_info_make_renumber)
  next
    case False
    with at assms(3) show ?thesis
      by (simp add: initialised_def)
  qed
qed

text \<open>
  C20: the two names of a node. After \<open>RpcContext::ServerInit\<close> the name that \<open>Call\<close> looks up
  for a node (\<open>GetServerName\<close>) is the address that node's server was started with
  (\<open>GetRpcAddress\<close>) exactly when the protocol is not \<open>shm\<close>, no domain is configured and the
  host file names the node by an IPv4 address. In every other configuration the program
  relies on the transport to treat the two texts as one endpoint.
\<close>

theorem server_name_is_listen_address:
  assumes "fatal_exits H" "rc_hosts c = []" "length (ri_host_names (sc_rpc cfg)) < 2 ^ 31"
    and "server_init H E cfg c = Inr c'" "1 \<le> unat i" "unat i \<le> length (rc_hosts c')"
  shows "get_server_name c' i = get_rpc_address H c' i (rc_port c') \<longleftrightarrow>
    ri_protocol (sc_rpc cfg) \<noteq> ''shm'' \<and> ri_domain (sc_rpc cfg) = [] \<and>
    looks_like_ip (hi_hostname (rc_hosts c' ! (unat i - 1)))"
proof -
  obtain hosts k where h: "build_hosts H E (ri_host_names (sc_rpc cfg)) 1 = Inr hosts" "k < length hosts"
    "c' = initialised cfg hosts k c"
    using server_init_Inr[OF assms(1-4)] by blast
  let ?i = "unat i - 1" and ?pre = "ri_protocol (sc_rpc cfg) @ ''://''" and ?dom = "ri_domain (sc_rpc cfg)"
  let ?post = "'':'' @ to_string_int (rc_port c')"
  obtain name ip j where e: "get_ip_address H E name = Inr ip" "rc_hosts c' ! ?i = host_info_make name ip j"
    using initialised_hosts[OF h(1,2), of ?i c] assms(5,6) unfolding h(3)[symmetric] by force
  have tab: "rc_table c'"
    using initialised_inv[OF h(1) assms(3) h(2)] by (simp add: rc_inv_def h(3))
  have fields: "rc_config c' = Some cfg" "rc_protocol c' = ri_protocol (sc_rpc cfg)"
    by (simp_all add: h(3) initialised_def)
  have server: "get_server_name c' i = Inr (?pre @ ip @ ?post)"
    using get_server_name_known[OF tab assms(5,6)] e(2) fields by (simp add: server_name_def host_info_make_def)
  have listen: "get_rpc_address H c' i (rc_port c') =
      Inr (if ri_protocol (sc_rpc cfg) = ''shm'' then ''shm''
           else ?pre @ (if ?dom = [] then [] else ?dom @ ''/'') @ name @ ?post)"
    using name_dir.lookup_entry[OF tab assms(5,6), of H] e(2) fields
    by (simp add: get_rpc_address_def Let_def host_info_make_def)
  have "CHR ''/'' \<notin> set ip"
    using looks_like_ip_no_slash get_ip_address_text[OF assms(1) e(1)] by blast
  then have slash: "ip \<noteq> ?dom @ ''/'' @ name"
    by auto
  have "name = ip \<longleftrightarrow> looks_like_ip name"
    by (rule get_ip_address_same[OF assms(1) e(1)])
  with slash show ?thesis
    unfolding server listen using e(2) by (auto simp: host_info_make_def)
qed

theorem server_name_is_listen_address_witness:
  "\<exists>c'. server_init sample_hshm sample_netenv (sample_cluster [''10.0.0.2''] False) empty_context = Inr c' \<and>
     get_server_name c' 1 \<noteq> get_rpc_address sample_hshm c' 1 (rc_port c')"
proof -
  let ?cfg = "sample_cluster [''10.0.0.2''] False"
  have "isl (server_init sample_hshm sample_netenv ?cfg empty_context) = False"
    by code_simp
  then obtain c' where c': "server_init sample_hshm sample_netenv ?cfg empty_context = Inr c'"
    by (cases "server_init sample_hshm sample_netenv ?cfg empty_context") auto
  have "length (rc_hosts (projr (server_init sample_hshm sample_netenv ?cfg empty_context))) = 1"
    by code_simp
  then have "length (rc_hosts c') = 1"
    by (simp add: c')
  moreover have "rc_hosts empty_context = []" "length (ri_host_names (sc_rpc ?cfg)) < 2 ^ 31" "ri_domain (sc_rpc ?cfg) = ''lo''"
    by (simp_all add: empty_context_def sample_cluster_def)
  ultimately show ?thesis
    using server_name_is_listen_address[OF sample_hshm_fatal _ _ c', of 1] c' by auto
qed

section \<open>Starting a server\<close>

lemma performs: "responsive P \<Longrightarrow> \<exists>v. perform P q s = (Inr v, extended [Asked q (Inr v)] s)"
  using perform_responsive unfolding emits_def by blast

text \<open>The requests of a trace, without the replies.\<close>

fun requests :: "event list \<Rightarrow> request list" where
  "requests [] = []"
| "requests (Asked q r # tr) = q # requests tr"
| "requests (Logged l # tr) = requests tr"

lemma requests_append [simp]: "requests (a @ b) = requests a @ requests b"
  by (induction a rule: requests.induct) simp_all

lemma start_xstreams:
  assumes "responsive P"
  shows "\<exists>ess new. iterate n (start_xstream P pool) () s =
      (Inr (), (extended new s)\<lparr>th_xstreams := th_xstreams s @ ess\<rparr>) \<and>
    length ess = n \<and> requests new = replicate n (Create_xstream pool)"
proof (induction n arbitrary: s)
  case 0
  show ?case
    by (intro exI[of _ "[]"]) (simp add: sret_def)
next
  case (Suc n)
  obtain v where v: "perform P (Create_xstream pool) s = (Inr v, extended [Asked (Create_xstream pool) (Inr v)] s)"
    using performs[OF assms] by blast
  let ?s = "(extended [Asked (Create_xstream pool) (Inr v)] s)\<lparr>th_xstreams := th_xstreams s @ [v]\<rparr>"
  obtain ess new where i: "iterate n (start_xstream P pool) () ?s =
      (Inr (), (extended new ?s)\<lparr>th_xstreams := th_xstreams ?s @ ess\<rparr>)"
    "length ess = n" "requests new = replicate n (Create_xstream pool)"
    using Suc.IH by blast
  have "start_xstream P pool () s = (Inr (), ?s)"
    by (simp add: start_xstream_def sbind_def v supd_def)
  then have "iterate (Suc n) (start_xstream P pool) () s = iterate n (start_xstream P pool) () ?s"
    by (simp add: sbind_ok)
  also have "\<dots> = (Inr (), (extended (Asked (Create_xstream pool) (Inr v) # new) s)\<lparr>th_xstreams := th_xstreams s @ v # ess\<rparr>)"
    unfolding i(1) by (simp add: extended_def)
  finally show ?case
    using i(2,3) by (intro exI[of _ "v # ess"] exI[of _ "Asked (Create_xstream pool) (Inr v) # new"]) simp
qed

lemma extended_updates [simp]:
  "extended a (s\<lparr>th_rpc := b\<rparr>) = (extended a s)\<lparr>th_rpc := b\<rparr>"
  "extended a (s\<lparr>th_client := c\<rparr>) = (extended a s)\<lparr>th_client := c\<rparr>"
  "extended a (s\<lparr>th_server := c\<rparr>) = (extended a s)\<lparr>th_server := c\<rparr>"
  "extended a (s\<lparr>th_pool := c\<rparr>) = (extended a s)\<lparr>th_pool := c\<rparr>"
  "extended a (s\<lparr>th_xstreams := x\<rparr>) = (extended a s)\<lparr>th_xstreams := x\<rparr>"
  by (simp_all add: extended_def)

lemma my_address_defined:
  "rc_inv c \<Longrightarrow> rc_config c = Some cfg \<Longrightarrow> \<exists>a. get_my_rpc_address H c = Inr a"
  using name_dir.lookup_known[of c "rc_node_id c" H]
  by (auto simp: rc_inv_def get_my_rpc_address_def get_rpc_address_def Let_def)

lemma client_init_ok:
  assumes "responsive P" "rc_inv (sy_ctx s)" "rc_config (sy_ctx s) = Some cfg"
  shows "\<exists>c. client_init P s = (Inr (),
    (extended [Asked (Start_client (ri_protocol (sc_rpc cfg))) (Inr c)] s)\<lparr>th_rpc := True, th_client := Some c\<rparr>)"
proof -
  let ?q = "Start_client (ri_protocol (sc_rpc cfg))"
  obtain v where v: "perform P ?q (s\<lparr>th_rpc := True\<rparr>) = (Inr v, extended [Asked ?q (Inr v)] (s\<lparr>th_rpc := True\<rparr>))"
    using performs[OF assms(1)] by blast
  obtain a where "get_rpc_address (p_hshm P) (sy_ctx s) (rc_node_id (sy_ctx s)) (rc_port (sy_ctx s)) = Inr a"
    using my_address_defined[OF assms(2,3)] by (auto simp: get_my_rpc_address_def)
  with v assms(3) show ?thesis
    by (intro exI[of _ v])
      (simp add: client_init_def sbind_def supd_def the_rpc_def deref_def slift_def get_protocol_def sret_def)
qed

definition server_requests :: "string \<Rightarrow> int \<Rightarrow> nat \<Rightarrow> string \<Rightarrow> request list" where
  "server_requests addr pool threads protocol =
     [Start_server addr, Self_name, Create_pool] @ replicate threads (Create_xstream pool) @
     [Define_server ''RpcStopDaemon'' pool, Start_client protocol]"

lemma thallium_server_init_run:
  assumes "responsive P" "rc_inv (sy_ctx s)" "rc_config (sy_ctx s) = Some cfg"
    and "unat (rc_num_threads (sy_ctx s)) < 2 ^ 31"
  shows "\<exists>addr e pool ess c new. get_my_rpc_address (p_hshm P) (sy_ctx s) = Inr addr \<and>
    thallium_server_init P s = (Inr (), (extended new s)\<lparr>th_rpc := True, th_server := Some e, th_pool := Some pool,
      th_xstreams := th_xstreams s @ ess, th_client := Some c\<rparr>) \<and>
    length ess = unat (rc_num_threads (sy_ctx s)) \<and>
    requests new = server_requests addr pool (unat (rc_num_threads (sy_ctx s))) (ri_protocol (sc_rpc cfg))"
proof -
  let ?n = "unat (rc_num_threads (sy_ctx s))"
  obtain addr where addr: "get_my_rpc_address (p_hshm P) (sy_ctx s) = Inr addr"
    using my_address_defined[OF assms(2,3)] by blast
  define s0 where "s0 = s\<lparr>th_rpc := True\<rparr>"
  obtain e where e: "perform P (Start_server addr) s0 = (Inr e, extended [Asked (Start_server addr) (Inr e)] s0)"
    using performs[OF assms(1)] by blast
  define s1 where "s1 = (extended [Asked (Start_server addr) (Inr e)] s0)\<lparr>th_server := Some e\<rparr>"
  obtain v where v: "perform P Self_name s1 = (Inr v, extended [Asked Self_name (Inr v)] s1)"
    using performs[OF assms(1)] by blast
  define s2 where "s2 = extended [Asked Self_name (Inr v)] s1"
  obtain pool where pool: "perform P Create_pool s2 = (Inr pool, extended [Asked Create_pool (Inr pool)] s2)"
    using performs[OF assms(1)] by blast
  define s3 where "s3 = (extended [Asked Create_pool (Inr pool)] s2)\<lparr>th_pool := Some pool\<rparr>"
  obtain ess a where ess: "iterate ?n (start_xstream P pool) () s3 =
      (Inr (), (extended a s3)\<lparr>th_xstreams := th_xstreams s3 @ ess\<rparr>)"
    "length ess = ?n" "requests a = replicate ?n (Create_xstream pool)"
    using start_xstreams[OF assms(1)] by blast
  define s4 where "s4 = (extended a s3)\<lparr>th_xstreams := th_xstreams s3 @ ess\<rparr>"
  have loop: "rep_loop (uint (rc_num_threads (sy_ctx s))) 0 (start_xstream P pool) () s3 = (Inr (), s4)"
    using rep_loop_int[OF assms(4), of "start_xstream P pool" "()" s3] ess(1) by (simp add: s4_def)
  let ?d = "Define_server ''RpcStopDaemon'' pool"
  obtain w where w: "perform P ?d s4 = (Inr w, extended [Asked ?d (Inr w)] s4)"
    using performs[OF assms(1)] by blast
  define s5 where "s5 = extended [Asked ?d (Inr w)] s4"
  let ?new = "[Asked (Start_server addr) (Inr e), Asked Self_name (Inr v), Asked Create_pool (Inr pool)] @ a @ [Asked ?d (Inr w)]"
  have s5: "s5 = (extended ?new s)\<lparr>th_rpc := True, th_server := Some e, th_pool := Some pool, th_xstreams := th_xstreams s @ ess\<rparr>"
    by (simp add: s5_def s4_def s3_def s2_def s1_def s0_def)
  have reg: "register_rpc P ''RpcStopDaemon'' s4 = (Inr (), s5)"
    using w by (simp add: register_rpc_def sbind_def deref_def engine_of_def sret_def s5_def s4_def s3_def s2_def s1_def)
  have steps: "thallium_server_init P s = client_init P s5"
  proof -
    have "scatch (sbind (perform P (Start_server addr)) (\<lambda>e. supd (\<lambda>s. s\<lparr>th_server := Some e\<rparr>))) k s0 = (Inr (), s1)" for k
      by (simp add: scatch_def sbind_def e supd_def s1_def)
    moreover have "th_server s1 = Some e" "th_pool s3 = Some pool" "th_rpc s0" "sy_ctx s0 = sy_ctx s"
      by (simp_all add: s1_def s3_def s0_def)
    ultimately show ?thesis
      using addr v pool loop reg
      by (simp add: thallium_server_init_def sbind_def supd_def the_rpc_def deref_def slift_def engine_of_def
          flip: s0_def s2_def s3_def)
  qed
  have "rc_inv (sy_ctx s5)" "rc_config (sy_ctx s5) = Some cfg"
    using assms(2,3) by (simp_all add: s5)
  then obtain c where c: "client_init P s5 = (Inr (),
      (extended [Asked (Start_client (ri_protocol (sc_rpc cfg))) (Inr c)] s5)\<lparr>th_rpc := True, th_client := Some c\<rparr>)"
    using client_init_ok[OF assms(1)] by blast
  let ?all = "?new @ [Asked (Start_client (ri_protocol (sc_rpc cfg))) (Inr c)]"
  have run: "thallium_server_init P s = (Inr (), (extended ?all s)\<lparr>th_rpc := True, th_server := Some e, th_pool := Some pool,
      th_xstreams := th_xstreams s @ ess, th_client := Some c\<rparr>)"
    unfolding steps c by (simp add: s5)
  have "requests ?all = server_requests addr pool ?n (ri_protocol (sc_rpc cfg))"
    using ess(3) by (simp add: server_requests_def)
  then show ?thesis
    using addr run ess(2) by blast
qed

text \<open>
  C16: \<open>ThalliumRpc::ServerInit\<close> on an initialised context, when the network answers. It starts
  one server at this node's own address, one pool and exactly \<open>num_threads_\<close> execution streams
  on it, registers \<open>RpcStopDaemon\<close> on that pool and then starts one client, in this order and
  with no other request; afterwards both engines and the pool are set, so that the process
  can call every node and handlers can be registered.
\<close>

theorem thallium_server_init_sets_up:
  assumes "responsive P" "rc_inv (sy_ctx s)" "rc_config (sy_ctx s) = Some cfg"
    and "unat (rc_num_threads (sy_ctx s)) < 2 ^ 31"
  shows "\<exists>addr e pool ess c new. get_my_rpc_address (p_hshm P) (sy_ctx s) = Inr addr \<and>
    thallium_server_init P s = (Inr (), (extended new s)\<lparr>th_rpc := True, th_server := Some e, th_pool := Some pool,
      th_xstreams := th_xstreams s @ ess, th_client := Some c\<rparr>) \<and>
    length ess = unat (rc_num_threads (sy_ctx s)) \<and>
    requests new = server_requests addr pool (unat (rc_num_threads (sy_ctx s))) (ri_protocol (sc_rpc cfg)) \<and>
    can_call (snd (thallium_server_init P s))"
proof -
  have "can_call ((extended new s)\<lparr>th_rpc := True, th_server := e, th_pool := pool, th_xstreams := x, th_client := Some c\<rparr>)"
    for new e pool x c
    using assms(2) by (simp add: can_call_def rc_inv_def)
  then show ?thesis
    using thallium_server_init_run[OF assms] by (metis snd_conv)
qed

theorem thallium_server_init_sets_up_witness:
  "\<exists>addr e pool ess c new. thallium_server_init sample_platform sample_sys = (Inr (),
      (extended new sample_sys)\<lparr>th_rpc := True, th_server := Some e, th_pool := Some pool,
        th_xstreams := ess, th_client := Some c\<rparr>) \<and>
    length ess = 2 \<and> requests new = server_requests addr pool 2 ''tcp''"
proof -
  have "rc_inv (sy_ctx sample_sys)" "unat (rc_num_threads (sy_ctx sample_sys)) = 2"
    "rc_config (sy_ctx sample_sys) = Some (sample_cluster [''10.0.0.2'', ''node3''] False)"
    "ri_protocol (sc_rpc (sample_cluster [''10.0.0.2'', ''node3''] False)) = ''tcp''" "th_xstreams sample_sys = []"
    using sample_context_inv by (simp_all add: sample_sys_def sample_context_def sample_cluster_def)
  then show ?thesis
    using thallium_server_init_sets_up[OF sample_responsive, of sample_sys] by fastforce
qed

section \<open>Stopping a daemon\<close>

lemma rpc_stop_daemon_run:
  assumes "th_rpc s" "th_client s \<noteq> None" "th_server s \<noteq> None"
  shows "\<exists>r reply rest. rpc_stop_daemon P req s = (r, extended (Asked (Respond req 0) reply # rest) s) \<and>
    (case reply of
       Inl x \<Rightarrow> r = Inl (Throws x) \<and> rest = []
     | Inr _ \<Rightarrow> r = Inr () \<and>
         ((\<exists>v w. rest = [Asked (Finalize Client_engine) (Inr v), Asked (Finalize Server_engine) (Inr w)]) \<or>
          (\<exists>x. rest = [Asked (Finalize Client_engine) (Inl x), Logged (Log_error ''Failed to stop daemon'')]) \<or>
          (\<exists>v x. rest = [Asked (Finalize Client_engine) (Inr v), Asked (Finalize Server_engine) (Inl x),
                        Logged (Log_error ''Failed to stop daemon'')])))"
proof -
  define reply where "reply = p_net P (sy_trace s) (Respond req 0)"
  define t where "t = extended [Asked (Respond req 0) reply] s"
  define v where "v = p_net P (sy_trace t) (Finalize Client_engine)"
  define u where "u = extended [Asked (Finalize Client_engine) v] t"
  define w where "w = p_net P (sy_trace u) (Finalize Server_engine)"
  have p: "perform P (Respond req 0) s = (map_sum Throws id reply, t)"
    "perform P (Finalize Client_engine) t = (map_sum Throws id v, u)"
    "perform P (Finalize Server_engine) u = (map_sum Throws id w, extended [Asked (Finalize Server_engine) w] u)"
    by (simp_all only: perform_eq reply_def t_def v_def u_def w_def)
  have e: "th_client t \<noteq> None" "th_server u \<noteq> None" "the_rpc s = (Inr (sy_ctx s), s)"
    using assms by (simp_all add: t_def u_def the_rpc_def deref_def)
  have stop: "stop_this_daemon P t =
      (case v of Inl x \<Rightarrow> (Inl (Throws x), u) | Inr _ \<Rightarrow> (map_sum Throws (\<lambda>_. ()) w, extended [Asked (Finalize Server_engine) w] u))"
    using e p(2,3) unfolding stop_this_daemon_def
    by (cases v; cases w) (auto simp: sbind_def engine_of_def deref_def sret_def)
  have run: "rpc_stop_daemon P req s = (case reply of Inl x \<Rightarrow> (Inl (Throws x), t)
      | Inr _ \<Rightarrow> scatch (stop_this_daemon P) (on_any (log_info (Log_error ''Failed to stop daemon''))) t)"
    using e p(1) unfolding rpc_stop_daemon_def by (auto simp: sbind_def split: sum.splits)
  show ?thesis
  proof (cases reply)
    case (Inl x)
    with run show ?thesis
      by (intro exI[of _ "Inl (Throws x)"] exI[of _ reply] exI[of _ "[]"]) (simp add: t_def)
  next
    case (Inr y)
    let ?err = "Logged (Log_error ''Failed to stop daemon'')"
    define rest where "rest = Asked (Finalize Client_engine) v # (case v of Inl _ \<Rightarrow> [?err]
      | Inr _ \<Rightarrow> Asked (Finalize Server_engine) w # (case w of Inl _ \<Rightarrow> [?err] | Inr _ \<Rightarrow> []))"
    have "rpc_stop_daemon P req s = (Inr (), extended (Asked (Respond req 0) reply # rest) s)"
      unfolding run scatch_def stop rest_def using Inr
      by (cases v; cases w) (simp_all add: on_any_def log_info_eq t_def u_def)
    then show ?thesis
      using Inr unfolding rest_def
      by (intro exI[of _ "Inr ()"] exI[of _ reply] exI[of _ rest]) (auto simp: rest_def split: sum.splits)
  qed
qed

text \<open>
  C17: the handler \<open>RpcStopDaemon\<close> on every network. It answers the caller first; only then
  it finalises the client engine and after it the server engine, stopping at the first that
  fails. A failure there is logged and never leaves the handler: the only failing end is a
  reply that could not be sent, and then no engine was touched.
\<close>

theorem rpc_stop_daemon_steps:
  assumes "th_rpc s" "th_client s \<noteq> None" "th_server s \<noteq> None"
  shows "\<exists>r reply rest. rpc_stop_daemon P req s = (r, extended (Asked (Respond req 0) reply # rest) s) \<and>
    (case reply of
       Inl x \<Rightarrow> r = Inl (Throws x) \<and> rest = []
     | Inr _ \<Rightarrow> r = Inr () \<and>
         ((\<exists>v w. rest = [Asked (Finalize Client_engine) (Inr v), Asked (Finalize Server_engine) (Inr w)]) \<or>
          (\<exists>x. rest = [Asked (Finalize Client_engine) (Inl x), Logged (Log_error ''Failed to stop daemon'')]) \<or>
          (\<exists>v x. rest = [Asked (Finalize Client_engine) (Inr v), Asked (Finalize Server_engine) (Inl x),
                        Logged (Log_error ''Failed to stop daemon'')])))"
  using rpc_stop_daemon_run[OF assms] .

theorem rpc_stop_daemon_steps_witness:
  "fst (rpc_stop_daemon sample_platform 9 sample_sys) = Inr ()"
proof -
  have "th_rpc sample_sys"
    by (simp add: sample_sys_def)
  then obtain r reply rest where r: "rpc_stop_daemon sample_platform 9 sample_sys =
      (r, extended (Asked (Respond 9 0) reply # rest) sample_sys)" "\<not> isl reply \<longrightarrow> r = Inr ()" "isl reply \<longrightarrow> rest = []"
    using rpc_stop_daemon_steps[of sample_sys sample_platform 9] sample_sys_fields by (fastforce split: sum.splits)
  have "length (sy_trace (snd (rpc_stop_daemon sample_platform 9 sample_sys))) = 3"
    by code_simp
  then have "rest \<noteq> []"
    using r(1) by (auto simp: sample_sys_def)
  then show ?thesis
    using r by auto
qed

end
