(* ===== verification/Net_Bench.thy ===== *)
theory Net_Bench
  imports Rpc_Life
begin

text \<open>
  \<open>src/chi_net_bench.cc\<close>: the handlers of the benchmark's \<open>TestRunner\<close>, its three kinds of
  measurement (each in a synchronous and an asynchronous variant, the template parameter
  \<open>ASYNC\<close>) and \<open>main\<close>. The timer is the library's and has no effect on the run, so only the
  operation count of the final log line is kept. An exception that leaves \<open>main\<close> is the
  result of the run.
\<close>

section \<open>Handlers\<close>

definition register_handlers :: "platform \<Rightarrow> (sys, unit) step" where
  "register_handlers P =
     sbind (register_rpc P ''RpcPing'') (\<lambda>_. register_rpc P ''RpcTaskSubmit'')"

definition rpc_ping :: "platform \<Rightarrow> int \<Rightarrow> string \<Rightarrow> (sys, unit) step" where
  "rpc_ping P req md = sbind (perform P (Respond req 0)) (\<lambda>_. sret ())"

definition salloc_bulks :: "platform \<Rightarrow> segmented_transfer \<Rightarrow> (sys, segmented_transfer) step" where
  "salloc_bulks P xfer s =
     (let (h, xfer') = allocate_bulks_server (p_malloc P) (sy_heap s) xfer in (Inr xfer', s\<lparr>sy_heap := h\<rparr>))"

definition rpc_task_submit :: "platform \<Rightarrow> int \<Rightarrow> int option \<Rightarrow> segmented_transfer \<Rightarrow> (sys, unit) step" where
  "rpc_task_submit P req bulk xfer =
     sbind (salloc_bulks P xfer) (\<lambda>xfer.
     sbind (io_call_server_write P req bulk xfer) (\<lambda>_.
     sbind (perform P (Respond req 0)) (\<lambda>_. sret ())))"

section \<open>Ping\<close>

definition ping_one :: "platform \<Rightarrow> bool \<Rightarrow> u32 \<Rightarrow> int list \<times> u64 \<Rightarrow> (sys, int list \<times> u64) step" where
  "ping_one P ASYNC node_id acc =
     (let (responses, count) = acc in
      scatch
        (if ASYNC
         then sbind (async_call P node_id ''RpcPing'' [Arg_md []]) (\<lambda>ret. sret (responses @ [ret], count))
         else sbind (sync_call P node_id ''RpcPing'' [Arg_md []]) (\<lambda>_. sret (responses, count + 1)))
        (on_margo (sret (responses, count))))"

text \<open>The waiting loop is inside the \<open>try\<close>: the first margo exception ends it and keeps the count.\<close>

fun wait_count :: "platform \<Rightarrow> int list \<Rightarrow> u64 \<Rightarrow> (sys, u64) step" where
  "wait_count P [] count = sret count"
| "wait_count P (resp # responses) count =
     sbind (scatch (sbind (wait_int P resp) (\<lambda>_. sret True)) (on_margo (sret False))) (\<lambda>received.
     if received then wait_count P responses (count + 1) else sret count)"

definition ping_all :: "platform \<Rightarrow> bool \<Rightarrow> (sys, unit) ostep" where
  "ping_all P ASYNC =
     obind (olift (sget sy_ctx)) (\<lambda>c.
     obind (olift (reserve P (num_hosts c))) (\<lambda>_.
     obind (node_loop (ping_one P ASYNC) (num_hosts c) 1 ([], 0)) (\<lambda>(responses, count).
     obind (olift (if ASYNC then wait_count P responses count else sret count)) (\<lambda>count.
     olift (log_info (Log_pinged count))))))"

section \<open>I/O and metadata calls\<close>

text \<open>\<open>std::string(n, 1)\<close>\<close>

definition make_string :: "platform \<Rightarrow> u64 \<Rightarrow> (sys, string) step" where
  "make_string P n =
     (if p_max_chars P < n then sfail (Throws Std_exn) else sret (replicate (unat n) (CHR 0x01)))"

definition smalloc :: "platform \<Rightarrow> u64 \<Rightarrow> (sys, u64) step" where
  "smalloc P n s = (let (h, p) = malloc (p_malloc P) (sy_heap s) n in (Inr p, s\<lparr>sy_heap := h\<rparr>))"

definition io_one :: "platform \<Rightarrow> bool \<Rightarrow> segmented_transfer \<Rightarrow> u32 \<Rightarrow> int list \<Rightarrow> (sys, int list) step" where
  "io_one P ASYNC xfer node_id responses =
     (if ASYNC
      then sbind (async_io_call P node_id ''RpcTaskSubmit'' xfer (DT_WRITE (p_hshm P))) (\<lambda>ret. sret (responses @ [ret]))
      else sbind (sync_io_call P node_id ''RpcTaskSubmit'' xfer (DT_WRITE (p_hshm P))) (\<lambda>_. sret responses))"

definition io_calls :: "platform \<Rightarrow> bool \<Rightarrow> u64 \<Rightarrow> u64 \<Rightarrow> u64 \<Rightarrow> (sys, unit) ostep" where
  "io_calls P ASYNC md_size io_size rep =
     obind (olift (make_string P md_size)) (\<lambda>md.
     obind (olift (smalloc P io_size)) (\<lambda>data.
     let xfer = \<lparr>st_ret_node = p_junk_node P, st_bulk = [dt_make (DT_WRITE (p_hshm P)) data io_size], st_md = md\<rparr> in
     obind (olift (sget sy_ctx)) (\<lambda>c.
     obind (olift (reserve P (num_hosts c * rep))) (\<lambda>_.
     obind (node_loop (\<lambda>node_id. rep_loop (uint rep) 0 (io_one P ASYNC xfer node_id)) (num_hosts c) 1 []) (\<lambda>responses.
     obind (olift (if ASYNC then fold_step (wait_each P) responses () else sret ())) (\<lambda>_.
     olift (log_info (Log_ops (num_hosts c * rep * (io_size + md_size))))))))))"

definition metadata_one :: "platform \<Rightarrow> bool \<Rightarrow> string \<Rightarrow> u32 \<Rightarrow> int list \<Rightarrow> (sys, int list) step" where
  "metadata_one P ASYNC md node_id responses =
     (if ASYNC
      then sbind (async_call P node_id ''RpcPing'' [Arg_md md]) (\<lambda>ret. sret (responses @ [ret]))
      else sbind (sync_call P node_id ''RpcPing'' [Arg_md md]) (\<lambda>_. sret responses))"

text \<open>Here \<open>rep\<close> is an \<open>int\<close>; in the products it is converted to \<open>size_t\<close>.\<close>

definition metadata_calls :: "platform \<Rightarrow> bool \<Rightarrow> u64 \<Rightarrow> int \<Rightarrow> (sys, unit) ostep" where
  "metadata_calls P ASYNC md_size rep =
     obind (olift (make_string P md_size)) (\<lambda>md.
     obind (olift (sget sy_ctx)) (\<lambda>c.
     obind (olift (reserve P (num_hosts c * word_of_int rep))) (\<lambda>_.
     obind (node_loop (\<lambda>node_id. rep_loop rep 0 (metadata_one P ASYNC md node_id)) (num_hosts c) 1 []) (\<lambda>responses.
     obind (olift (if ASYNC then fold_step (wait_each P) responses () else sret ())) (\<lambda>_.
     olift (log_info (Log_ops (num_hosts c * word_of_int rep))))))))"

text \<open>The call sites pass the \<open>size_t\<close> \<open>rep_\<close> for the \<open>int\<close> parameter.\<close>

definition narrow_int :: "u64 \<Rightarrow> int" where
  "narrow_int w = sint (ucast w :: 32 word)"

section \<open>The program\<close>

definition bench_test :: "platform \<Rightarrow> server_config \<Rightarrow> (sys, unit) ostep" where
  "bench_test P info =
     (if sc_test info = ''ping'' then ping_all P False
      else if sc_test info = ''ping_async'' then ping_all P True
      else if sc_test info = ''io'' then io_calls P False (sc_md_size info) (sc_io_size info) (sc_rep info)
      else if sc_test info = ''io_async'' then io_calls P True (sc_md_size info) (sc_io_size info) (sc_rep info)
      else if sc_test info = ''metadata'' then metadata_calls P False (sc_md_size info) (narrow_int (sc_rep info))
      else if sc_test info = ''metadata_async'' then metadata_calls P True (sc_md_size info) (narrow_int (sc_rep info))
      else olift (log_info (Log_error (''Unknown test: '' @ sc_test info))))"

definition srpc_init :: "platform \<Rightarrow> server_config \<Rightarrow> (sys, unit) step" where
  "srpc_init P info s =
     (case server_init (p_hshm P) (p_env P) info (sy_ctx s) of
        Inl e \<Rightarrow> (Inl e, s)
      | Inr c \<Rightarrow> (Inr (), s\<lparr>sy_ctx := c\<rparr>))"

definition bench_main :: "platform \<Rightarrow> string list \<Rightarrow> server_config \<Rightarrow> (sys, int) ostep" where
  "bench_main P argv info0 =
     obind (olift (slift (benchmark_init (p_hshm P) argv info0))) (\<lambda>info.
     obind (olift (srpc_init P info)) (\<lambda>_.
     obind (olift (thallium_server_init P)) (\<lambda>_.
     obind (olift (perform P (Sleep_for (sc_sleep info)))) (\<lambda>_.
     obind (olift (register_handlers P)) (\<lambda>_.
     obind (olift (sget sy_ctx)) (\<lambda>c.
     obind (if rc_node_id c = 1
            then obind (bench_test P info) (\<lambda>_. stop_all_daemons P)
            else olift (run_daemon P)) (\<lambda>_.
     olift (sret 0))))))))"

section \<open>Loops of calls\<close>

text \<open>The calls of a trace that got their answer (or their handle), without the bulk argument.\<close>

definition made :: "bool \<Rightarrow> event list \<Rightarrow> (string \<times> string \<times> rpc_arg) list" where
  "made ASYNC tr = map (\<lambda>(f, name, args). (f, name, last args)) (if ASYNC then issued tr else answered tr)"

lemma made_append [simp]: "made A (a @ b) = made A a @ made A b"
  by (simp add: made_def)

lemma made_Nil [simp]: "made A [] = []"
  by (simp add: made_def)

definition call_done :: "bool \<Rightarrow> string \<times> string \<times> rpc_arg \<Rightarrow> failure + int \<Rightarrow> event list \<Rightarrow> bool" where
  "call_done A call r new \<longleftrightarrow>
     (if A then answered new = [] else issued new = []) \<and> waited new = [] \<and>
     (case r of Inl e \<Rightarrow> (\<exists>x. e = Throws x) \<and> made A new = [] \<and> handles new = []
      | Inr v \<Rightarrow> made A new = [call] \<and> handles new = (if A then [v] else []))"

lemma exposed_quiet:
  assumes "exposed side mode sel rb a"
  shows "answered a = [] \<and> issued a = [] \<and> waited a = [] \<and> handles a = [] \<and> (\<forall>e. rb = Inl e \<longrightarrow> (\<exists>x. e = Throws x))"
proof -
  have "\<exists>x. e = Throws x" if "map_sum Throws g reply = Inl e" for e g and reply :: "exn + int"
    using that by (cases reply) auto
  with assms show ?thesis
    by (auto simp: exposed_def Let_def split: if_splits)
qed

lemma sync_done: "sync_outcome f name args r new \<Longrightarrow> call_done False (f, name, last args) r new"
  by (auto simp: sync_outcome_def call_done_def made_def split: sum.splits)

lemma async_done: "async_outcome f name args r new \<Longrightarrow> call_done True (f, name, last args) r new"
  by (auto simp: async_outcome_def call_done_def made_def split: sum.splits)

lemma io_done:
  assumes "io_outcome outcome f name x flag r new"
    and "\<And>args r b. outcome f name args r b \<Longrightarrow> call_done A (f, name, last args) r b"
  shows "call_done A (f, name, Arg_xfer x) r new"
proof -
  obtain mode sel rb a b where o: "new = a @ b" "exposed Client_engine mode sel rb a"
    "case rb of Inl e \<Rightarrow> r = Inl e \<and> b = [] | Inr (bulk, n) \<Rightarrow> outcome f name [Arg_bulk bulk, Arg_xfer x] r b"
    using assms(1) unfolding io_outcome_def by blast
  show ?thesis
  proof (cases rb)
    case (Inl e)
    with o exposed_quiet[OF o(2)] show ?thesis
      by (auto simp: call_done_def made_def)
  next
    case (Inr bn)
    obtain bulk n where "bn = (bulk, n)"
      by (cases bn)
    with Inr o(3) have "call_done A (f, name, Arg_xfer x) r b"
      using assms(2)[of "[Arg_bulk bulk, Arg_xfer x]" r b] by simp
    with o(1) exposed_quiet[OF o(2)] show ?thesis
      by (auto simp: call_done_def made_def split: sum.splits)
  qed
qed

text \<open>
  The outcome of a piece of a benchmark loop that is to make the calls \<open>calls\<close>, collecting
  handles in \<open>acc\<close>; pieces compose by concatenation of what they are to call.
\<close>

definition calls_outcome ::
    "platform \<Rightarrow> bool \<Rightarrow> (string \<times> string \<times> rpc_arg) list \<Rightarrow> int list \<Rightarrow> failure + int list \<Rightarrow> event list \<Rightarrow> bool" where
  "calls_outcome P A calls acc r new \<longleftrightarrow>
     (if A then answered new = [] else issued new = []) \<and> waited new = [] \<and> prefix (made A new) calls \<and>
     (\<forall>e. r = Inl e \<longrightarrow> (\<exists>x. e = Throws x)) \<and>
     (\<forall>acc'. r = Inr acc' \<longrightarrow> made A new = calls \<and> acc' = acc @ handles new) \<and> (responsive P \<longrightarrow> \<not> isl r)"

lemma calls_concat:
  "loop_run (\<lambda>i. calls_outcome P A (f i)) xs acc r new \<Longrightarrow> calls_outcome P A (concat (map f xs)) acc r new"
proof (induction rule: loop_run.induct)
  case (loop_next x acc acc' a xs r b)
  then show ?case
    by (auto simp: calls_outcome_def)
qed (auto simp: calls_outcome_def)

lemma one_call:
  assumes "emits m t r new" "call_done A call r new" "responsive P \<longrightarrow> \<not> isl r"
  shows "\<exists>r new. emits (sbind m (\<lambda>v. sret (acc @ (if A then [v] else [])))) t r new \<and> calls_outcome P A [call] acc r new"
proof (cases r)
  case (Inl e)
  with assms show ?thesis
    by (intro exI[of _ "Inl e"] exI[of _ new]) (auto simp: emits_bind_fail calls_outcome_def call_done_def)
next
  case (Inr v)
  have "emits (sbind m (\<lambda>v. sret (acc @ (if A then [v] else [])))) t (Inr (acc @ (if A then [v] else []))) (new @ [])"
    using assms(1) unfolding Inr by (rule emits_bind) (rule emits_sret)
  with Inr assms show ?thesis
    by (intro exI[of _ "Inr (acc @ (if A then [v] else []))"] exI[of _ new]) (simp add: calls_outcome_def call_done_def)
qed

lemma metadata_one_emits:
  assumes "can_call t" "1 \<le> unat i" "unat i \<le> length (rc_hosts (sy_ctx t))"
  shows "\<exists>r new. emits (metadata_one P A md i acc) t r new \<and>
    calls_outcome P A [(''RpcPing'', server_name (sy_ctx t) (unat i - 1), Arg_md md)] acc r new"
proof (cases A)
  case True
  obtain r new where "emits (async_call P i ''RpcPing'' [Arg_md md]) t r new"
    "async_outcome ''RpcPing'' (server_name (sy_ctx t) (unat i - 1)) [Arg_md md] r new" "responsive P \<longrightarrow> \<not> isl r"
    using async_call_emits[OF assms] by blast
  with one_call[OF _ async_done] True show ?thesis
    by (fastforce simp: metadata_one_def)
next
  case False
  obtain r new where "emits (sync_call P i ''RpcPing'' [Arg_md md]) t r new"
    "sync_outcome ''RpcPing'' (server_name (sy_ctx t) (unat i - 1)) [Arg_md md] r new" "responsive P \<longrightarrow> \<not> isl r"
    using sync_call_emits[OF assms] by blast
  with one_call[OF _ sync_done] False show ?thesis
    by (fastforce simp: metadata_one_def)
qed

lemma io_one_emits:
  assumes "hshm_bits (p_hshm P)" "can_call t" "1 \<le> unat i" "unat i \<le> length (rc_hosts (sy_ctx t))"
  shows "\<exists>r new. emits (io_one P A x i acc) t r new \<and>
    calls_outcome P A [(''RpcTaskSubmit'', server_name (sy_ctx t) (unat i - 1), Arg_xfer x)] acc r new"
proof (cases A)
  case True
  obtain r new where "emits (async_io_call P i ''RpcTaskSubmit'' x (DT_WRITE (p_hshm P))) t r new"
    "io_outcome async_outcome ''RpcTaskSubmit'' (server_name (sy_ctx t) (unat i - 1)) x (DT_WRITE (p_hshm P)) r new"
    "responsive P \<longrightarrow> \<not> isl r"
    using async_io_call_emits[OF assms] by blast
  with one_call[OF _ io_done[OF _ async_done]] True show ?thesis
    by (fastforce simp: io_one_def)
next
  case False
  obtain r new where "emits (sync_io_call P i ''RpcTaskSubmit'' x (DT_WRITE (p_hshm P))) t r new"
    "io_outcome sync_outcome ''RpcTaskSubmit'' (server_name (sy_ctx t) (unat i - 1)) x (DT_WRITE (p_hshm P)) r new"
    "responsive P \<longrightarrow> \<not> isl r"
    using sync_io_call_emits[OF assms] by blast
  with one_call[OF _ io_done[OF _ sync_done]] False show ?thesis
    by (fastforce simp: io_one_def)
qed

lemma rep_calls:
  assumes "n < 2 ^ 31"
    and "\<And>acc t. I t \<Longrightarrow> \<exists>r new. emits (body acc) t r new \<and> calls_outcome P A [call] acc r new"
    and "\<And>t new. I t \<Longrightarrow> I (extended new t)" and "I s"
  shows "\<exists>r new. emits (rep_loop (int n) 0 body acc) s r new \<and> calls_outcome P A (replicate n call) acc r new"
proof -
  obtain r new where l: "emits (iterate n body acc) s r new"
    "loop_run (\<lambda>_. calls_outcome P A [call]) (replicate n ()) acc r new"
    using iterate_emits[of I body "calls_outcome P A [call]" s n acc] assms(2-4) by blast
  have "concat (map (\<lambda>_. [call]) (replicate n ())) = replicate n call"
    by (induction n) simp_all
  with calls_concat[OF l(2)] l(1) show ?thesis
    unfolding emits_def rep_loop_int[OF assms(1), of body acc s] by auto
qed

lemma node_calls:
  assumes "can_call s" "n < 2 ^ 31"
    and body: "\<And>i acc t. can_call t \<Longrightarrow> sy_ctx t = sy_ctx s \<Longrightarrow> 1 \<le> unat i \<Longrightarrow> unat i \<le> length (rc_hosts (sy_ctx s)) \<Longrightarrow>
      \<exists>r new. emits (body i acc) t r new \<and> calls_outcome P A [what (unat i - 1)] acc r new"
  shows "\<exists>r new. node_loop (\<lambda>i. rep_loop (int n) 0 (body i)) (num_hosts (sy_ctx s)) 1 [] s = Some (r, extended new s) \<and>
    calls_outcome P A (concat (map (\<lambda>k. replicate n (what k)) [0..<length (rc_hosts (sy_ctx s))])) [] r new"
proof -
  let ?n = "length (rc_hosts (sy_ctx s))"
  have small: "?n < 2 ^ 32"
    using assms(1) by (simp add: can_call_def rc_table_def)
  have "\<exists>r new. emits (rep_loop (int n) 0 (body i) acc) t r new \<and>
      calls_outcome P A (replicate n (what (unat i - 1))) acc r new"
    if "i \<in> set (node_ids ?n)" "can_call t" "sy_ctx t = sy_ctx s" for i acc t
  proof (rule rep_calls[where I = "\<lambda>t. can_call t \<and> sy_ctx t = sy_ctx s"])
    show "\<exists>r new. emits (body i acc) t r new \<and> calls_outcome P A [what (unat i - 1)] acc r new"
      if "can_call t \<and> sy_ctx t = sy_ctx s" for acc t
      using body[of t i acc] that \<open>i \<in> set (node_ids ?n)\<close> set_node_ids[OF small, of i] by blast
  qed (use that assms(2) in simp_all)
  then obtain r new where l: "node_loop (\<lambda>i. rep_loop (int n) 0 (body i)) (num_hosts (sy_ctx s)) 1 [] s = Some (r, extended new s)"
    "loop_run (\<lambda>i. calls_outcome P A (replicate n (what (unat i - 1)))) (node_ids ?n) [] r new"
    using node_loop_emits[OF assms(1), of "\<lambda>i. rep_loop (int n) 0 (body i)"
        "\<lambda>i. calls_outcome P A (replicate n (what (unat i - 1)))" "[]"] by blast
  show ?thesis
    using l(1) calls_concat[OF l(2)] unfolding map_node_ids[OF small, of "\<lambda>k. replicate n (what k)"] by blast
qed

text \<open>
  The outcome of a whole measurement that is to make \<open>calls\<close>: they are made in order, up to
  the first that fails; at a normal end all were made, an asynchronous run has received the
  answer of each in the order of issue, and the last thing done was to log \<open>l\<close>.
\<close>

definition bench_outcome ::
    "platform \<Rightarrow> bool \<Rightarrow> (string \<times> string \<times> rpc_arg) list \<Rightarrow> log_line \<Rightarrow> failure + unit \<Rightarrow> event list \<Rightarrow> bool" where
  "bench_outcome P A calls l r new \<longleftrightarrow>
     prefix (made A new) calls \<and> made (\<not> A) new = [] \<and>
     (r = Inr () \<or> (\<exists>x. r = Inl (Throws x))) \<and>
     (r = Inr () \<longrightarrow> made A new = calls \<and> (A \<longrightarrow> waited new = handles new) \<and> new \<noteq> [] \<and> last new = Logged l) \<and>
     (responsive P \<longrightarrow> r = Inr ())"

lemma wait_loop_handles: "loop_run (wait_outcome P) hs acc r new \<Longrightarrow> handles new = []"
  by (induction rule: loop_run.induct) (auto simp: wait_outcome_def)

lemma finish_calls:
  assumes "m s = Some (r1, extended a s)" "calls_outcome P A calls [] r1 a"
  shows "\<exists>r new. obind m (\<lambda>responses.
      obind (olift (if A then fold_step (wait_each P) responses () else sret ())) (\<lambda>_. olift (log_info l))) s =
      Some (r, extended new s) \<and> bench_outcome P A calls l r new"
proof (cases r1)
  case (Inl e)
  with assms show ?thesis
    by (intro exI[of _ "Inl e"] exI[of _ a]) (auto simp: obind_Some calls_outcome_def bench_outcome_def made_def)
next
  case (Inr hs)
  let ?log = "Logged l"
  have run: "obind m (\<lambda>responses.
      obind (olift (if A then fold_step (wait_each P) responses () else sret ())) (\<lambda>_. olift (log_info l))) s =
      Some (sbind (if A then fold_step (wait_each P) hs () else sret ()) (\<lambda>_. log_info l) (extended a s))"
    using assms(1) Inr by (simp add: obind_Some obind_olift_olift) (simp add: olift_def)
  show ?thesis
  proof (cases A)
    case False
    then have "sbind (if A then fold_step (wait_each P) hs () else sret ()) (\<lambda>_. log_info l) (extended a s) =
        (Inr (), extended (a @ [?log]) s)"
      by (simp add: log_info_eq)
    moreover have "bench_outcome P A calls l (Inr ()) (a @ [?log])"
      using assms(2) Inr False by (simp add: calls_outcome_def bench_outcome_def made_def)
    ultimately show ?thesis
      using run by metis
  next
    case True
    obtain r b where b: "emits (fold_step (wait_each P) hs ()) (extended a s) r b" "loop_run (wait_outcome P) hs () r b"
      using wait_handles by blast
    note w = wait_loop[OF b(2)] wait_loop_handles[OF b(2)]
    show ?thesis
    proof (cases r)
      case (Inl e)
      have "sbind (if A then fold_step (wait_each P) hs () else sret ()) (\<lambda>_. log_info l) (extended a s) =
          (Inl e, extended (a @ b) s)"
        using b(1) True Inl by (simp add: emits_def sbind_def)
      moreover have "bench_outcome P A calls l (Inl e) (a @ b)"
        using assms(2) \<open>r1 = Inr hs\<close> True w Inl by (auto simp: calls_outcome_def bench_outcome_def made_def)
      ultimately show ?thesis
        using run by metis
    next
      case r: (Inr u)
      have "sbind (if A then fold_step (wait_each P) hs () else sret ()) (\<lambda>_. log_info l) (extended a s) =
          (Inr (), extended (a @ b @ [?log]) s)"
        using b(1) True r by (simp add: emits_def sbind_def log_info_eq)
      moreover have "bench_outcome P A calls l (Inr ()) (a @ b @ [?log])"
        using assms(2) \<open>r1 = Inr hs\<close> True w r by (auto simp: calls_outcome_def bench_outcome_def made_def)
      ultimately show ?thesis
        using run by metis
    qed
  qed
qed

section \<open>Properties of the measurements\<close>

definition io_descriptor :: "platform \<Rightarrow> u64 \<Rightarrow> u64 \<Rightarrow> u64 \<Rightarrow> segmented_transfer" where
  "io_descriptor P md_size io_size data =
     \<lparr>st_ret_node = p_junk_node P, st_bulk = [dt_make (DT_WRITE (p_hshm P)) data io_size],
      st_md = replicate (unat md_size) (CHR 0x01)\<rparr>"

lemma word_not_less: "unat w \<le> unat v \<Longrightarrow> \<not> (v :: u64) < w"
  by (simp add: word_less_nat_alt)

text \<open>
  C9: \<open>IoCalls\<close>, on every network. For a repetition count below \<open>2^31\<close> and a total that the
  vector can hold it returns; it allocates one block of \<open>io_size\<close> and never frees it, and
  calls \<open>RpcTaskSubmit\<close> on every node \<open>rep\<close> times, node by node, with one descriptor of that
  block, up to the first failing call. A normal end means that all calls were answered (in the
  asynchronous variant: that every handle was waited for, in order) and that the logged number
  is \<open>hosts * rep * (io_size + md_size)\<close> in 64 bits.
\<close>

theorem io_calls_cover_nodes:
  assumes "hshm_bits (p_hshm P)" "can_call s" "unat rep < 2 ^ 31" "unat md_size \<le> unat (p_max_chars P)"
    and "unat (num_hosts (sy_ctx s) * rep) \<le> unat (p_max_responses P)"
  shows "let (h, data) = malloc (p_malloc P) (sy_heap s) io_size;
             calls = concat (map (\<lambda>k. replicate (unat rep)
               (''RpcTaskSubmit'', server_name (sy_ctx s) k, Arg_xfer (io_descriptor P md_size io_size data)))
               [0..<length (rc_hosts (sy_ctx s))])
    in \<exists>r new. io_calls P A md_size io_size rep s = Some (r, (extended new s)\<lparr>sy_heap := h\<rparr>) \<and>
      bench_outcome P A calls (Log_ops (num_hosts (sy_ctx s) * rep * (io_size + md_size))) r new"
proof -
  obtain h data where m: "malloc (p_malloc P) (sy_heap s) io_size = (h, data)"
    by force
  let ?s = "s\<lparr>sy_heap := h\<rparr>" and ?x = "io_descriptor P md_size io_size data"
  let ?what = "\<lambda>k. (''RpcTaskSubmit'', server_name (sy_ctx s) k, Arg_xfer ?x)"
  let ?loop = "node_loop (\<lambda>i. rep_loop (int (unat rep)) 0 (io_one P A ?x i)) (num_hosts (sy_ctx s)) 1 []"
  have cc: "can_call ?s" and ctx: "sy_ctx ?s = sy_ctx s"
    using assms(2) by (simp_all add: can_call_def)
  have one: "\<exists>r new. emits (io_one P A ?x i acc) t r new \<and> calls_outcome P A [?what (unat i - 1)] acc r new"
    if "can_call t" "sy_ctx t = sy_ctx ?s" "1 \<le> unat i" "unat i \<le> length (rc_hosts (sy_ctx ?s))" for i acc t
    using io_one_emits[OF assms(1) that(1,3), of A ?x acc] that by simp
  obtain r1 a where loop: "?loop ?s = Some (r1, extended a ?s)"
    "calls_outcome P A (concat (map (\<lambda>k. replicate (unat rep) (?what k)) [0..<length (rc_hosts (sy_ctx s))])) [] r1 a"
    using node_calls[where body = "io_one P A ?x" and P = P and A = A and what = ?what, OF cc assms(3) one]
    unfolding ctx by blast
  have "\<not> p_max_chars P < md_size" "\<not> p_max_responses P < num_hosts (sy_ctx s) * rep"
    using word_not_less assms(4,5) by blast+
  then have run: "io_calls P A md_size io_size rep s =
    obind ?loop (\<lambda>responses. obind (olift (if A then fold_step (wait_each P) responses () else sret ()))
      (\<lambda>_. olift (log_info (Log_ops (num_hosts (sy_ctx s) * rep * (io_size + md_size)))))) ?s"
    by (simp add: io_calls_def make_string_def sret_def smalloc_def m sget_def reserve_def Let_def io_descriptor_def)
  obtain r new where "io_calls P A md_size io_size rep s = Some (r, extended new ?s)"
    "bench_outcome P A (concat (map (\<lambda>k. replicate (unat rep) (?what k)) [0..<length (rc_hosts (sy_ctx s))]))
       (Log_ops (num_hosts (sy_ctx s) * rep * (io_size + md_size))) r new"
    using finish_calls[where m = ?loop and s = ?s, OF loop] unfolding run by blast
  moreover have "extended new ?s = (extended new s)\<lparr>sy_heap := h\<rparr>"
    by (simp add: extended_def)
  ultimately show ?thesis
    unfolding m Let_def prod.case by metis
qed

theorem io_calls_cover_nodes_witness:
  "\<exists>new h. io_calls sample_platform True 4 16 1 sample_sys = Some (Inr (), (extended new sample_sys)\<lparr>sy_heap := h\<rparr>) \<and>
     new \<noteq> [] \<and> last new = Logged (Log_ops 40)"
proof -
  have "unat (num_hosts (sy_ctx sample_sys) * 1) \<le> unat (p_max_responses sample_platform)"
    "unat (4 :: u64) \<le> unat (p_max_chars sample_platform)" "num_hosts (sy_ctx sample_sys) * 1 * (16 + 4) = (40 :: u64)"
    by (simp_all add: num_hosts_def sample_sys_fields sample_platform_def)
  then show ?thesis
    using io_calls_cover_nodes[OF sample_bits(1) sample_can_call, of 1 4 16 True] sample_responsive
    by (auto simp: bench_outcome_def Let_def split: prod.splits)
qed

text \<open>
  C10: \<open>MetadataCalls\<close>, on every network, for a non-negative \<open>int\<close> repetition count whose
  total the vector can hold: \<open>RpcPing\<close> with the metadata string on every node \<open>rep\<close> times,
  node by node, up to the first failing call; a normal end means that all were answered (and
  in the asynchronous variant waited for in order) and that the logged number of operations is
  \<open>hosts * rep\<close> in 64 bits. The state changes in nothing but the trace.
\<close>

theorem metadata_calls_cover_nodes:
  assumes "can_call s" "rep < 2 ^ 31" "unat md_size \<le> unat (p_max_chars P)"
    and "unat (num_hosts (sy_ctx s) * of_nat rep) \<le> unat (p_max_responses P)"
  shows "\<exists>r new. metadata_calls P A md_size (int rep) s = Some (r, extended new s) \<and>
    bench_outcome P A
      (concat (map (\<lambda>k. replicate rep (''RpcPing'', server_name (sy_ctx s) k, Arg_md (replicate (unat md_size) (CHR 0x01))))
        [0..<length (rc_hosts (sy_ctx s))]))
      (Log_ops (num_hosts (sy_ctx s) * of_nat rep)) r new"
proof -
  let ?md = "replicate (unat md_size) (CHR 0x01)"
  let ?what = "\<lambda>k. (''RpcPing'', server_name (sy_ctx s) k, Arg_md ?md)"
  let ?loop = "node_loop (\<lambda>i. rep_loop (int rep) 0 (metadata_one P A ?md i)) (num_hosts (sy_ctx s)) 1 []"
  have one: "\<exists>r new. emits (metadata_one P A ?md i acc) t r new \<and> calls_outcome P A [?what (unat i - 1)] acc r new"
    if "can_call t" "sy_ctx t = sy_ctx s" "1 \<le> unat i" "unat i \<le> length (rc_hosts (sy_ctx s))" for i acc t
    using metadata_one_emits[OF that(1,3), of P A ?md acc] that by simp
  obtain r1 a where loop: "?loop s = Some (r1, extended a s)"
    "calls_outcome P A (concat (map (\<lambda>k. replicate rep (?what k)) [0..<length (rc_hosts (sy_ctx s))])) [] r1 a"
    using node_calls[where body = "metadata_one P A ?md" and P = P and A = A and what = ?what, OF assms(1,2) one] by blast
  have "\<not> p_max_chars P < md_size" "\<not> p_max_responses P < num_hosts (sy_ctx s) * of_nat rep"
    using word_not_less assms(3,4) by blast+
  then have run: "metadata_calls P A md_size (int rep) s =
    obind ?loop (\<lambda>responses. obind (olift (if A then fold_step (wait_each P) responses () else sret ()))
      (\<lambda>_. olift (log_info (Log_ops (num_hosts (sy_ctx s) * of_nat rep))))) s"
    by (simp add: metadata_calls_def make_string_def sret_def sget_def reserve_def)
  show ?thesis
    using finish_calls[where m = ?loop and s = s, OF loop] unfolding run by blast
qed

theorem metadata_calls_cover_nodes_witness:
  "\<exists>new. metadata_calls sample_platform False 4 (int 3) sample_sys = Some (Inr (), extended new sample_sys) \<and>
     new \<noteq> [] \<and> last new = Logged (Log_ops 6) \<and> length (made False new) = 6"
proof -
  let ?calls = "concat (map (\<lambda>k. replicate 3 (''RpcPing'', server_name (sy_ctx sample_sys) k,
    Arg_md (replicate (unat (4 :: u64)) (CHR 0x01)))) [0..<length (rc_hosts (sy_ctx sample_sys))])"
  have sizes: "unat (num_hosts (sy_ctx sample_sys) * of_nat 3) \<le> unat (p_max_responses sample_platform)"
    "unat (4 :: u64) \<le> unat (p_max_chars sample_platform)" and ops: "num_hosts (sy_ctx sample_sys) * of_nat 3 = (6 :: u64)"
    by (simp_all add: num_hosts_def sample_sys_fields sample_platform_def)
  obtain r new where r: "metadata_calls sample_platform False 4 (int 3) sample_sys = Some (r, extended new sample_sys)"
    "bench_outcome sample_platform False ?calls (Log_ops 6) r new"
    using metadata_calls_cover_nodes[OF sample_can_call _ sizes(2,1), of False] unfolding ops by auto
  have "length ?calls = 6"
    by (simp add: sample_sys_fields numeral_2_eq_2)
  then show ?thesis
    using r sample_responsive unfolding bench_outcome_def by metis
qed

end
