(* ===== verification/Bench_Runs.thy ===== *)
theory Bench_Runs
  imports Net_Bench
begin

text \<open>
  The runs of the benchmark: what \<open>PingAll\<close> counts, what a narrowed repetition count does,
  what the handler of an I/O call leaves on the server, and the whole program on the
  coordinating and on the other nodes.
\<close>

section \<open>Ping\<close>

text \<open>
  What became of the calls that a trace tried: the exception that ended the attempt, at
  whichever request it came up, or the call that was answered (or got its handle).
\<close>

definition tries :: "event list \<Rightarrow> (exn + string \<times> string \<times> rpc_arg) list" where
  "tries tr = concat (map (\<lambda>e. case e of
      Asked q (Inl x) \<Rightarrow> [Inl x]
    | Asked (Call_sync proc server args) (Inr v) \<Rightarrow> [Inr (fst proc, fst server, last args)]
    | Asked (Call_async proc server args) (Inr v) \<Rightarrow> [Inr (fst proc, fst server, last args)]
    | _ \<Rightarrow> []) tr)"

lemma tries_append [simp]: "tries (a @ b) = tries a @ tries b"
  by (simp add: tries_def)

lemma tries_Nil [simp]: "tries [] = []"
  by (simp add: tries_def)

lemma tries_failed [simp]: "tries [Asked q (Inl x)] = [Inl x]"
  by (cases q) (simp_all add: tries_def)

lemma extended_inject: "extended a s = extended b s \<longleftrightarrow> a = b"
  by (metis extended_simps(1) same_append_eq)

lemma rpc_target_tries:
  assumes "can_call s" "1 \<le> unat i" "unat i \<le> length (rc_hosts (sy_ctx s))"
  shows "\<exists>r new. emits (rpc_target P i f) s r new \<and>
    (case r of Inl e \<Rightarrow> \<exists>x. e = Throws x \<and> tries new = [Inl x]
     | Inr (proc, server) \<Rightarrow> tries new = [] \<and> fst proc = f \<and> fst server = server_name (sy_ctx s) (unat i - 1))"
proof -
  let ?name = "server_name (sy_ctx s) (unat i - 1)"
  let ?r1 = "p_net P (sy_trace s) (Define_client f)"
  let ?r2 = "p_net P (sy_trace s @ [Asked (Define_client f) ?r1]) (Lookup ?name)"
  show ?thesis
  proof (cases ?r1)
    case (Inl x)
    then show ?thesis
      unfolding emits_def rpc_target_unfold[OF assms]
      by (intro exI[of _ "Inl (Throws x)"] exI[of _ "[Asked (Define_client f) (Inl x)]"]) (simp add: sbind_def perform_eq tries_def)
  next
    case r1: (Inr p)
    show ?thesis
    proof (cases ?r2)
      case (Inl x)
      with r1 show ?thesis
        unfolding emits_def rpc_target_unfold[OF assms]
        by (intro exI[of _ "Inl (Throws x)"] exI[of _ "[Asked (Define_client f) (Inr p), Asked (Lookup ?name) (Inl x)]"])
          (simp add: sbind_def perform_eq tries_def)
    next
      case (Inr q)
      with r1 show ?thesis
        unfolding emits_def rpc_target_unfold[OF assms]
        by (intro exI[of _ "Inr ((f, p), (?name, q))"] exI[of _ "[Asked (Define_client f) (Inr p), Asked (Lookup ?name) (Inr q)]"])
          (simp add: sbind_def perform_eq tries_def sret_def)
    qed
  qed
qed

text \<open>A call is tried once.\<close>

definition tried :: "string \<times> string \<times> rpc_arg \<Rightarrow> failure + int \<Rightarrow> event list \<Rightarrow> bool" where
  "tried call r new \<longleftrightarrow> (case r of Inl e \<Rightarrow> \<exists>x. e = Throws x \<and> tries new = [Inl x] | Inr v \<Rightarrow> tries new = [Inr call])"

lemma call_tries:
  assumes "can_call s" "1 \<le> unat i" "unat i \<le> length (rc_hosts (sy_ctx s))"
  shows "emits (sync_call P i f args) s r new \<Longrightarrow> tried (f, server_name (sy_ctx s) (unat i - 1), last args) r new"
    and "emits (async_call P i f args) s r new \<Longrightarrow> tried (f, server_name (sy_ctx s) (unat i - 1), last args) r new"
proof -
  obtain r0 new0 where t: "emits (rpc_target P i f) s r0 new0"
    "case r0 of Inl e \<Rightarrow> \<exists>x. e = Throws x \<and> tries new0 = [Inl x]
     | Inr (proc, server) \<Rightarrow> tries new0 = [] \<and> fst proc = f \<and> fst server = server_name (sy_ctx s) (unat i - 1)"
    using rpc_target_tries[OF assms] by blast
  have run: "tried (f, server_name (sy_ctx s) (unat i - 1), last args) r new"
    if "emits (sbind (rpc_target P i f) (\<lambda>(proc, server). perform P (q proc server))) s r new"
      and "\<And>proc server v. tries [Asked (q proc server) (Inr v)] = [Inr (fst proc, fst server, last args)]" for q
  proof (cases r0)
    case (Inl e)
    with that(1) t(1) have "r = Inl e" "new = new0"
      by (simp_all add: emits_def sbind_def extended_inject)
    with Inl t(2) show ?thesis
      by (simp add: tried_def)
  next
    case (Inr p)
    obtain proc server where p: "p = (proc, server)"
      by (cases p)
    let ?v = "p_net P (sy_trace (extended new0 s)) (q proc server)"
    have "r = map_sum Throws id ?v" "new = new0 @ [Asked (q proc server) ?v]"
      using that(1) t(1) Inr p by (simp_all add: emits_def sbind_def perform_eq extended_inject del: extended_simps(1))
    then show ?thesis
      using t(2) Inr p that(2)[of proc server] by (cases ?v) (simp_all add: tried_def)
  qed
  show "emits (sync_call P i f args) s r new \<Longrightarrow> tried (f, server_name (sy_ctx s) (unat i - 1), last args) r new"
    unfolding sync_call_def by (erule run) (simp add: tries_def)
  show "emits (async_call P i f args) s r new \<Longrightarrow> tried (f, server_name (sy_ctx s) (unat i - 1), last args) r new"
    unfolding async_call_def by (erule run) (simp add: tries_def)
qed

text \<open>
  The attempts at a list of calls: each succeeded or raised a margo exception; and the
  attempts of a loop that was left by another exception \<open>x\<close>.
\<close>

definition skipping :: "(exn + string \<times> string \<times> rpc_arg) list \<Rightarrow> (string \<times> string \<times> rpc_arg) list \<Rightarrow> bool" where
  "skipping ts calls \<longleftrightarrow> list_all2 (\<lambda>t call. t = Inr call \<or> t = Inl Margo_exn) ts calls"

definition left_by :: "exn \<Rightarrow> (exn + string \<times> string \<times> rpc_arg) list \<Rightarrow> (string \<times> string \<times> rpc_arg) list \<Rightarrow> bool" where
  "left_by x ts calls \<longleftrightarrow> (\<exists>before call rest ts'. calls = before @ call # rest \<and> ts = ts' @ [Inl x] \<and> skipping ts' before)"

lemma skipping_append: "skipping a xs \<Longrightarrow> skipping b ys \<Longrightarrow> skipping (a @ b) (xs @ ys)"
  unfolding skipping_def by (rule list_all2_appendI)

lemma left_by_append: "skipping a xs \<Longrightarrow> left_by x b ys \<Longrightarrow> left_by x (a @ b) (xs @ ys)"
  unfolding left_by_def by (metis append.assoc skipping_append)

lemma left_by_weaken: "left_by x ts xs \<Longrightarrow> left_by x ts (xs @ ys)"
  unfolding left_by_def by fastforce

definition pings_outcome :: "platform \<Rightarrow> bool \<Rightarrow> (string \<times> string \<times> rpc_arg) list \<Rightarrow>
    int list \<times> u64 \<Rightarrow> failure + int list \<times> u64 \<Rightarrow> event list \<Rightarrow> bool" where
  "pings_outcome P A calls acc r new \<longleftrightarrow>
     (if A then answered new = [] else issued new = []) \<and> waited new = [] \<and> subseq (made A new) calls \<and>
     (\<forall>e. r = Inl e \<longrightarrow> (\<exists>x. e = Throws x \<and> x \<noteq> Margo_exn)) \<and>
     (\<forall>rs n. r = Inr (rs, n) \<longrightarrow> rs = fst acc @ handles new \<and>
        n = snd acc + (if A then 0 else of_nat (length (made A new)))) \<and>
     (\<not> isl r \<longrightarrow> skipping (tries new) calls) \<and> (\<forall>x. r = Inl (Throws x) \<longrightarrow> left_by x (tries new) calls) \<and>
     (responsive P \<longrightarrow> \<not> isl r \<and> made A new = calls)"

lemma pings_concat:
  "loop_run (\<lambda>i. pings_outcome P A [what i]) xs acc r new \<Longrightarrow> pings_outcome P A (map what xs) acc r new"
proof (induction rule: loop_run.induct)
  case (loop_done acc)
  then show ?case
    by (auto simp: pings_outcome_def skipping_def)
next
  case (loop_stop x acc e a xs)
  then have "subseq (made A a @ []) ([what x] @ map what xs)"
    unfolding pings_outcome_def by (intro list_emb_append_mono) auto
  with loop_stop show ?case
    using left_by_weaken[of _ "tries a" "[what x]" "map what xs"] by (auto simp: pings_outcome_def)
next
  case (loop_next x acc acc' a xs r b)
  then have "subseq (made A a @ made A b) ([what x] @ map what xs)"
    unfolding pings_outcome_def by (intro list_emb_append_mono) blast+
  moreover have "skipping (tries a) [what x]"
    using loop_next(1) by (simp add: pings_outcome_def)
  ultimately show ?case
    using loop_next skipping_append[of "tries a" "[what x]" "tries b" "map what xs"]
      left_by_append[of "tries a" "[what x]" _ "tries b" "map what xs"]
    by (cases acc') (auto simp: pings_outcome_def)
qed

lemma emits_margo:
  "emits m s r a \<Longrightarrow> emits (scatch m (on_margo (sret v))) s (if r = Inl (Throws Margo_exn) then Inr v else r) a"
  by (auto simp: emits_def scatch_def on_margo_def sret_def split: sum.splits failure.splits)

lemma ping_one_emits:
  assumes "can_call t" "1 \<le> unat i" "unat i \<le> length (rc_hosts (sy_ctx t))"
  shows "\<exists>r new. emits (ping_one P A i acc) t r new \<and>
    pings_outcome P A [(''RpcPing'', server_name (sy_ctx t) (unat i - 1), Arg_md [])] acc r new"
proof -
  let ?call = "(''RpcPing'', server_name (sy_ctx t) (unat i - 1), Arg_md [])"
  obtain rs n where acc: "acc = (rs, n)"
    by (cases acc)
  define m where "m = (if A then async_call P i ''RpcPing'' [Arg_md []] else sync_call P i ''RpcPing'' [Arg_md []])"
  define k where "k = (\<lambda>v. if A then (rs @ [v], n) else (rs, n + 1 :: u64))"
  have ping: "ping_one P A i acc = scatch (sbind m (\<lambda>v. sret (k v))) (on_margo (sret (rs, n)))"
    by (simp add: ping_one_def acc m_def k_def)
  obtain r new where r: "emits m t r new" "call_done A ?call r new" "responsive P \<longrightarrow> \<not> isl r"
    using sync_call_emits[OF assms, of P "''RpcPing''" "[Arg_md []]"] async_call_emits[OF assms, of P "''RpcPing''" "[Arg_md []]"]
      sync_done[of "''RpcPing''" _ "[Arg_md []]"] async_done[of "''RpcPing''" _ "[Arg_md []]"]
    by (cases A) (fastforce simp: m_def)+
  have try_one: "tried ?call r new"
    using r(1) call_tries[OF assms, of P "''RpcPing''" "[Arg_md []]" r new] by (simp add: m_def split: if_splits)
  let ?r = "map_sum id k r"
  have "emits (sbind m (\<lambda>v. sret (k v))) t ?r new"
    using r(1) by (cases r) (simp_all add: emits_def sbind_def sret_def)
  then have "emits (ping_one P A i acc) t (if ?r = Inl (Throws Margo_exn) then Inr (rs, n) else ?r) new"
    unfolding ping by (rule emits_margo)
  moreover have "pings_outcome P A [?call] acc (if ?r = Inl (Throws Margo_exn) then Inr (rs, n) else ?r) new"
    using r(2,3) try_one
    by (cases r) (auto simp: pings_outcome_def call_done_def k_def acc tried_def skipping_def left_by_def)
  ultimately show ?thesis
    by blast
qed

lemma wait_count_emits:
  "\<exists>r new. emits (wait_count P hs n) s r new \<and> answered new = [] \<and> issued new = [] \<and> handles new = [] \<and>
     prefix (waited new) hs \<and> (\<forall>e. r = Inl e \<longrightarrow> (\<exists>x. e = Throws x \<and> x \<noteq> Margo_exn)) \<and>
     (\<forall>m. r = Inr m \<longrightarrow> m = n + of_nat (length (waited new))) \<and> (responsive P \<longrightarrow> \<not> isl r \<and> waited new = hs)"
proof (induction hs arbitrary: n s)
  case Nil
  show ?case
    by (intro exI[of _ "Inr n"] exI[of _ "[]"]) (simp add: emits_sret)
next
  case (Cons h hs)
  obtain r1 a where a: "emits (wait_int P h) s r1 a" "answered a = []" "issued a = []" "handles a = []"
    "case r1 of Inl e \<Rightarrow> (\<exists>x. e = Throws x) \<and> waited a = [] | Inr _ \<Rightarrow> waited a = [h]" "responsive P \<longrightarrow> \<not> isl r1"
    using wait_int_emits by blast
  have "emits (sbind (wait_int P h) (\<lambda>_. sret True)) s (map_sum id (\<lambda>_. True) r1) a"
    using a(1) by (cases r1) (simp_all add: emits_def sbind_def sret_def)
  then have t: "emits (scatch (sbind (wait_int P h) (\<lambda>_. sret True)) (on_margo (sret False))) s
      (if map_sum id (\<lambda>_. True) r1 = Inl (Throws Margo_exn) then Inr False else map_sum id (\<lambda>_. True) r1) a"
    by (rule emits_margo)
  show ?case
  proof (cases r1)
    case (Inl e)
    show ?thesis
    proof (cases "e = Throws Margo_exn")
      case True
      with t Inl have "emits (wait_count P (h # hs) n) s (Inr n) (a @ [])"
        unfolding wait_count.simps by (intro emits_bind[where x = False]) (auto intro: emits_sret)
      with a Inl show ?thesis
        by (intro exI[of _ "Inr n"] exI[of _ a]) auto
    next
      case False
      with t Inl have "emits (wait_count P (h # hs) n) s (Inl e) a"
        unfolding wait_count.simps by (intro emits_bind_fail) auto
      with a Inl False show ?thesis
        by (intro exI[of _ "Inl e"] exI[of _ a]) auto
    qed
  next
    case (Inr v)
    obtain r b where b: "emits (wait_count P hs (n + 1)) (extended a s) r b" "answered b = []" "issued b = []" "handles b = []"
      "prefix (waited b) hs" "\<forall>e. r = Inl e \<longrightarrow> (\<exists>x. e = Throws x \<and> x \<noteq> Margo_exn)"
      "\<forall>m. r = Inr m \<longrightarrow> m = n + 1 + of_nat (length (waited b))" "responsive P \<longrightarrow> \<not> isl r \<and> waited b = hs"
      using Cons.IH[of "n + 1" "extended a s"] by blast
    have "emits (wait_count P (h # hs) n) s r (a @ b)"
      unfolding wait_count.simps using t b(1) Inr by (intro emits_bind[where x = True]) auto
    with a b Inr show ?thesis
      by (intro exI[of _ r] exI[of _ "a @ b"]) auto
  qed
qed

definition ping_call :: "rpc_context \<Rightarrow> nat \<Rightarrow> string \<times> string \<times> rpc_arg" where
  "ping_call c k = (''RpcPing'', server_name c k, Arg_md [])"

definition ping_calls :: "rpc_context \<Rightarrow> (string \<times> string \<times> rpc_arg) list" where
  "ping_calls c = map (ping_call c) [0..<length (rc_hosts c)]"

lemma ping_loop:
  assumes "can_call s"
  shows "\<exists>r new. node_loop (ping_one P A) (num_hosts (sy_ctx s)) 1 ([], 0) s = Some (r, extended new s) \<and>
    pings_outcome P A (ping_calls (sy_ctx s)) ([], 0) r new"
proof -
  let ?n = "length (rc_hosts (sy_ctx s))"
  have small: "?n < 2 ^ 32"
    using assms by (simp add: can_call_def rc_table_def)
  have "\<exists>r new. emits (ping_one P A i acc) t r new \<and>
      pings_outcome P A [ping_call (sy_ctx s) (unat i - 1)] acc r new"
    if "i \<in> set (node_ids ?n)" "can_call t" "sy_ctx t = sy_ctx s" for i acc t
    using ping_one_emits[of t i P A acc] that set_node_ids[OF small, of i] by (simp add: ping_call_def)
  then obtain r new where l: "node_loop (ping_one P A) (num_hosts (sy_ctx s)) 1 ([], 0) s = Some (r, extended new s)"
    "loop_run (\<lambda>i. pings_outcome P A [ping_call (sy_ctx s) (unat i - 1)]) (node_ids ?n) ([], 0) r new"
    using node_loop_emits[OF assms, of "ping_one P A" "\<lambda>i. pings_outcome P A [ping_call (sy_ctx s) (unat i - 1)]" "([], 0)"]
    by blast
  show ?thesis
    using l(1) pings_concat[OF l(2)] unfolding ping_calls_def map_node_ids[OF small] by blast
qed

text \<open>
  The trace of \<open>PingAll\<close> begins with one attempt per node, in the order of the table, of which
  each succeeds or raises a margo exception; or with such attempts up to one that raises
  another exception, which then is the outcome. What follows is no further call.
\<close>

definition tried_all :: "bool \<Rightarrow> rpc_context \<Rightarrow> failure + unit \<Rightarrow> event list \<Rightarrow> bool" where
  "tried_all A c r new \<longleftrightarrow> (\<exists>pings rest. new = pings @ rest \<and> made A rest = [] \<and> waited pings = [] \<and>
     (skipping (tries pings) (ping_calls c) \<or>
      rest = [] \<and> (\<exists>x. r = Inl (Throws x) \<and> left_by x (tries pings) (ping_calls c))))"

lemma tried_allI:
  assumes "pings_outcome P A (ping_calls c) acc r1 a"
  shows "r1 = Inl (Throws x) \<Longrightarrow> tried_all A c (Inl (Throws x)) a"
    and "\<not> isl r1 \<Longrightarrow> made A b = [] \<Longrightarrow> tried_all A c r (a @ b)"
proof -
  show "tried_all A c (Inl (Throws x)) a" if "r1 = Inl (Throws x)"
    unfolding tried_all_def
    by (rule exI[of _ a], rule exI[of _ "[]"]) (use assms that in \<open>simp add: pings_outcome_def\<close>)
  show "tried_all A c r (a @ b)" if "\<not> isl r1" "made A b = []"
    unfolding tried_all_def
    by (rule exI[of _ a], rule exI[of _ b]) (use assms that in \<open>simp add: pings_outcome_def\<close>)
qed

text \<open>The outcome of \<open>PingAll\<close> in the context \<open>c\<close>.\<close>

definition ping_outcome :: "platform \<Rightarrow> bool \<Rightarrow> rpc_context \<Rightarrow> failure + unit \<Rightarrow> event list \<Rightarrow> bool" where
  "ping_outcome P A c r new \<longleftrightarrow>
    subseq (made A new) (ping_calls c) \<and> made (\<not> A) new = [] \<and>
    prefix (waited new) (handles new) \<and> tried_all A c r new \<and>
    (r = Inr () \<or> (\<exists>x. r = Inl (Throws x) \<and> x \<noteq> Margo_exn)) \<and>
    (r = Inr () \<longrightarrow> new \<noteq> [] \<and> last new = Logged (Log_pinged (of_nat (if A then length (waited new) else length (made A new))))) \<and>
    (responsive P \<longrightarrow> r = Inr () \<and> made A new = ping_calls c \<and> new \<noteq> [] \<and> last new = Logged (Log_pinged (num_hosts c)))"

lemma ping_all_run:
  assumes "can_call s" "roomy P"
  shows "\<exists>r new. ping_all P A s = Some (r, extended new s) \<and> ping_outcome P A (sy_ctx s) r new"
proof -
  obtain r1 a where loop: "node_loop (ping_one P A) (num_hosts (sy_ctx s)) 1 ([], 0) s = Some (r1, extended a s)"
    "pings_outcome P A (ping_calls (sy_ctx s)) ([], 0) r1 a"
    using ping_loop[OF assms(1)] by blast
  have run: "ping_all P A s = (case r1 of Inl e \<Rightarrow> Some (Inl e, extended a s)
    | Inr (hs, n) \<Rightarrow> Some (sbind (if A then wait_count P hs n else sret n) (\<lambda>n. log_info (Log_pinged n)) (extended a s)))"
    using loop(1) reserve_hosts[OF assms(2,1), of s]
    by (simp add: ping_all_def sget_def obind_Some obind_olift_olift olift_def split: sum.splits prod.splits)
  have count: "length (ping_calls (sy_ctx s)) = length (rc_hosts (sy_ctx s))"
    by (simp add: ping_calls_def)
  have full: "length (if A then issued a else answered a) = length (rc_hosts (sy_ctx s))" if "responsive P"
  proof -
    have "made A a = ping_calls (sy_ctx s)"
      using loop(2) that by (simp add: pings_outcome_def)
    from arg_cong[OF this, of length] show ?thesis
      using count by (simp add: made_def)
  qed
  show ?thesis
  proof (cases r1)
    case (Inl e)
    then obtain x where "e = Throws x"
      using loop(2) by (auto simp: pings_outcome_def)
    then have "tried_all A (sy_ctx s) (Inl e) a"
      using tried_allI(1)[OF loop(2)] Inl by simp
    with Inl loop(2) run show ?thesis
      by (intro exI[of _ "Inl e"] exI[of _ a]) (auto simp: ping_outcome_def pings_outcome_def made_def)
  next
    case (Inr hn)
    obtain hs n where hn: "hn = (hs, n)"
      by (cases hn)
    have tried: "tried_all A (sy_ctx s) r (a @ b)" if "made A b = []" for r b
      using tried_allI(2)[OF loop(2) _ that] Inr by simp
    show ?thesis
    proof (cases A)
      case False
      then have "ping_all P A s = Some (Inr (), extended (a @ [Logged (Log_pinged n)]) s)"
        using run Inr hn by (simp add: log_info_eq)
      then show ?thesis
        using loop(2) Inr hn False full tried[of "[Logged (Log_pinged n)]"]
        by (intro exI[of _ "Inr ()"] exI[of _ "a @ [Logged (Log_pinged n)]"])
          (auto simp: ping_outcome_def pings_outcome_def made_def num_hosts_def)
    next
      case True
      obtain r b where b: "emits (wait_count P hs n) (extended a s) r b" "answered b = []" "issued b = []" "handles b = []"
        "prefix (waited b) hs" "\<forall>e. r = Inl e \<longrightarrow> (\<exists>x. e = Throws x \<and> x \<noteq> Margo_exn)"
        "\<forall>m. r = Inr m \<longrightarrow> m = n + of_nat (length (waited b))" "responsive P \<longrightarrow> \<not> isl r \<and> waited b = hs"
        using wait_count_emits by blast
      have all: "length hs = length (made A a)"
        using loop(2) Inr hn True length_handles[of a] by (simp add: pings_outcome_def made_def)
      show ?thesis
      proof (cases r)
        case (Inl e)
        with run \<open>r1 = Inr hn\<close> hn True b(1) have "ping_all P A s = Some (Inl e, extended (a @ b) s)"
          by (simp add: emits_def sbind_def)
        then show ?thesis
          using loop(2) \<open>r1 = Inr hn\<close> hn True b Inl tried[of b]
          by (intro exI[of _ "Inl e"] exI[of _ "a @ b"]) (auto simp: ping_outcome_def pings_outcome_def made_def)
      next
        case r: (Inr m)
        with run \<open>r1 = Inr hn\<close> hn True b(1) have "ping_all P A s = Some (Inr (), extended (a @ b @ [Logged (Log_pinged m)]) s)"
          by (simp add: emits_def sbind_def log_info_eq)
        then show ?thesis
          using loop(2) \<open>r1 = Inr hn\<close> hn True b r all full tried[of "b @ [Logged (Log_pinged m)]"]
          by (intro exI[of _ "Inr ()"] exI[of _ "a @ b @ [Logged (Log_pinged m)]"])
            (auto simp: ping_outcome_def pings_outcome_def made_def num_hosts_def)
      qed
    qed
  qed
qed

text \<open>
  C6: \<open>PingAll\<close> of the benchmark, on every network. It returns; the nodes that answered (or, in
  the asynchronous variant, that a handle was obtained for) are pinged in the order of the
  table. Every node of the table is tried once and in order, at whichever request (declaring the
  function, the lookup, the call) the attempt fails: after a margo exception the next node is
  tried, and only another exception, raised by a call or later by the wait for an answer,
  leaves the function. The logged count is the number of answers received: in the asynchronous variant answers are
  taken in order of issue up to the first that fails. Over a network that answers, all nodes
  are pinged and the count is the number of hosts.
\<close>

theorem ping_all_counts_answers:
  assumes "can_call s" "roomy P"
  shows "\<exists>r new. ping_all P A s = Some (r, extended new s) \<and>
    subseq (made A new) (ping_calls (sy_ctx s)) \<and> made (\<not> A) new = [] \<and>
    prefix (waited new) (handles new) \<and>
    (\<exists>pings rest. new = pings @ rest \<and> made A rest = [] \<and> waited pings = [] \<and>
       (skipping (tries pings) (ping_calls (sy_ctx s)) \<or>
        rest = [] \<and> (\<exists>x. r = Inl (Throws x) \<and> left_by x (tries pings) (ping_calls (sy_ctx s))))) \<and>
    (r = Inr () \<or> (\<exists>x. r = Inl (Throws x) \<and> x \<noteq> Margo_exn)) \<and>
    (r = Inr () \<longrightarrow> new \<noteq> [] \<and> last new = Logged (Log_pinged (of_nat (if A then length (waited new) else length (made A new))))) \<and>
    (responsive P \<longrightarrow> r = Inr () \<and> made A new = ping_calls (sy_ctx s) \<and> new \<noteq> [] \<and> last new = Logged (Log_pinged (num_hosts (sy_ctx s))))"
  using ping_all_run[OF assms] unfolding ping_outcome_def tried_all_def .

theorem ping_all_counts_answers_witness:
  "\<exists>new. ping_all sample_platform True sample_sys = Some (Inr (), extended new sample_sys) \<and>
     new \<noteq> [] \<and> last new = Logged (Log_pinged 2)"
  using ping_all_counts_answers[OF sample_can_call sample_roomy, of True] sample_responsive
  by (auto simp: num_hosts_def sample_sys_fields)

section \<open>A repetition count that does not fit an \<open>int\<close>\<close>

lemma signed_int_values:
  "(k :: nat) < 2 ^ 31 \<Longrightarrow> signed_take_bit 31 (int k) = int k"
  "2 ^ 31 \<le> (k :: nat) \<Longrightarrow> k < 2 ^ 32 \<Longrightarrow> signed_take_bit 31 (int k) = int k - 2 ^ 32"
proof -
  show "signed_take_bit 31 (int k) = int k" if "k < 2 ^ 31"
    using that by (intro signed_take_bit_int_eq_self) simp_all
  have "signed_take_bit 31 (int k) = signed_take_bit 31 (int k - 2 ^ 32)"
    by (subst signed_take_bit_eq_iff_take_bit_eq) (simp add: take_bit_eq_mod)
  also have "\<dots> = int k - 2 ^ 32" if "2 ^ 31 \<le> k" "k < 2 ^ 32"
    using that by (intro signed_take_bit_int_eq_self) simp_all
  finally show "signed_take_bit 31 (int k) = int k - 2 ^ 32" if "2 ^ 31 \<le> k" "k < 2 ^ 32"
    using that by blast
qed

lemma narrow_int_mod:
  "narrow_int w = (let k = unat w mod 2 ^ 32 in if k < 2 ^ 31 then int k else int k - 2 ^ 32)"
proof -
  define k where "k = unat w mod 2 ^ 32"
  have "unat (ucast w :: 32 word) = k"
    by (simp add: k_def unsigned_ucast_eq take_bit_eq_mod)
  then have "uint (ucast w :: 32 word) = int k"
    by (metis uint_nat)
  then have bits: "narrow_int w = signed_take_bit 31 (int k)"
    by (simp add: narrow_int_def sint_uint del: uint_nat of_nat_unat)
  have "k < 2 ^ 32"
    by (simp add: k_def)
  then show ?thesis
    using signed_int_values[of k] unfolding bits k_def[symmetric] Let_def by auto
qed

lemma reserve_negative:
  assumes "1 \<le> n" "n * (2 ^ 32 - k) \<le> 2 ^ 63" "k < 2 ^ 32" "unat max_size < 2 ^ 63"
  shows "(max_size :: u64) < of_nat n * word_of_int (int k - 2 ^ 32)"
proof -
  let ?p = "int n * (2 ^ 32 - int k)" and ?w = "of_nat n * word_of_int (int k - 2 ^ 32) :: u64"
  have p: "0 < ?p" "?p \<le> 2 ^ 63"
  proof -
    show "0 < ?p"
      using assms(1,3) by simp
    have "int (n * (2 ^ 32 - k)) \<le> 2 ^ 63"
      using assms(2) by (metis of_nat_le_iff of_nat_numeral of_nat_power)
    then show "?p \<le> 2 ^ 63"
      using assms(3) by (simp add: of_nat_diff)
  qed
  have half: "(2 ^ 64 - q) mod 2 ^ 64 = 2 ^ 64 - q" "2 ^ 63 \<le> 2 ^ 64 - q" if "0 < q" "q \<le> 2 ^ 63" for q :: int
  proof -
    show "(2 ^ 64 - q) mod 2 ^ 64 = 2 ^ 64 - q"
      by (rule mod_pos_pos_trivial) (use that in simp_all)
    show "2 ^ 63 \<le> 2 ^ 64 - q"
      using that by simp
  qed
  have neg: "- ?p = int n * (int k - 2 ^ 32)"
    by (simp add: algebra_simps)
  have "?w = word_of_int (- ?p)"
    unfolding neg by simp
  then have "uint ?w = (- ?p) mod 2 ^ 64"
    by (simp only: uint_word_of_int len_num0 len_bit0) simp
  also have "(- ?p) mod 2 ^ 64 = (2 ^ 64 - ?p) mod 2 ^ 64"
    by (metis add_uminus_conv_diff mod_add_self1)
  also have "\<dots> = 2 ^ 64 - ?p"
    by (rule half(1)[OF p])
  finally have "2 ^ 63 \<le> uint ?w"
    using half(2)[OF p] by simp
  moreover have "uint max_size < 2 ^ 63"
  proof -
    have "int (unat max_size) < int (2 ^ 63)"
      using assms(4) by (simp only: of_nat_less_iff)
    then show ?thesis
      by simp
  qed
  ultimately have "uint max_size < uint ?w"
    by (rule order.strict_trans2[rotated])
  then show ?thesis
    by (simp only: word_less_def)
qed

lemma metadata_calls_negative:
  assumes "2 ^ 31 \<le> k" "k < 2 ^ 32" "1 \<le> length (rc_hosts (sy_ctx s))"
    and "length (rc_hosts (sy_ctx s)) * (2 ^ 32 - k) \<le> 2 ^ 63"
    and "unat md_size \<le> unat (p_max_chars P)" "unat (p_max_responses P) < 2 ^ 63"
  shows "metadata_calls P A md_size (int k - 2 ^ 32) s = Some (Inl (Throws Std_exn), s)"
proof -
  have "p_max_responses P < num_hosts (sy_ctx s) * word_of_int (int k - 2 ^ 32)"
    unfolding num_hosts_def using assms(2-4,6) by (intro reserve_negative) simp_all
  moreover have "\<not> p_max_chars P < md_size"
    using word_not_less assms(5) by blast
  ultimately show ?thesis
    by (simp add: metadata_calls_def make_string_def sret_def sget_def reserve_def sfail_def)
qed

lemma fold_step_skip: "(\<And>x acc s. body x acc s = (Inr acc, s)) \<Longrightarrow> fold_step body xs acc s = (Inr acc, s)"
  by (induction xs) (simp_all add: sret_def sbind_def)

lemma metadata_calls_zero:
  assumes "can_call s" "unat md_size \<le> unat (p_max_chars P)"
  shows "metadata_calls P A md_size 0 s = Some (Inr (), extended [Logged (Log_ops 0)] s)"
proof -
  let ?n = "length (rc_hosts (sy_ctx s))"
  have n: "?n < 2 ^ 32 - 1"
    using assms(1) by (simp add: can_call_def rc_table_def)
  have "\<not> p_max_chars P < md_size"
    using word_not_less assms(2) by blast
  moreover have "node_loop (\<lambda>node_id. rep_loop 0 0 (metadata_one P A md node_id)) (num_hosts (sy_ctx s)) 1 [] s =
      Some (Inr [], s)" for md
    unfolding num_hosts_def node_loop_ids[OF n] by (simp add: fold_step_skip rep_loop_none)
  ultimately show ?thesis
    by (simp add: metadata_calls_def make_string_def sret_def sget_def reserve_def obind_Some log_info_eq olift_def)
qed

text \<open>
  C22: the repetition count of the metadata test. The \<open>size_t\<close> \<open>rep_\<close> goes through an \<open>int\<close> parameter,
  which keeps its value modulo \<open>2^32\<close> in two's complement. When bit 31 of it is set, the
  count is negative, the product with the number of hosts turns into a huge \<open>size_t\<close>, and the test
  ends by the exception of \<open>reserve\<close> before any call is made (for as many hosts as keep that product
  above \<open>max_size()\<close>); a positive multiple of \<open>2^32\<close> makes no call at all and logs 0 operations.
  Counts below \<open>2^31\<close> are unchanged.
\<close>

theorem metadata_rep_narrowing:
  assumes "sc_test info = ''metadata'' \<or> sc_test info = ''metadata_async''"
    and "k = unat (sc_rep info) mod 2 ^ 32" "unat (sc_md_size info) \<le> unat (p_max_chars P)"
  shows "narrow_int (sc_rep info) = (if k < 2 ^ 31 then int k else int k - 2 ^ 32) \<and>
    (2 ^ 31 \<le> k \<and> 1 \<le> length (rc_hosts (sy_ctx s)) \<and> length (rc_hosts (sy_ctx s)) * (2 ^ 32 - k) \<le> 2 ^ 63 \<and>
       unat (p_max_responses P) < 2 ^ 63 \<longrightarrow>
       narrow_int (sc_rep info) < 0 \<and> bench_test P info s = Some (Inl (Throws Std_exn), s)) \<and>
    (k = 0 \<and> can_call s \<longrightarrow> bench_test P info s = Some (Inr (), extended [Logged (Log_ops 0)] s))"
proof -
  have k: "k < 2 ^ 32" and narrow: "narrow_int (sc_rep info) = (if k < 2 ^ 31 then int k else int k - 2 ^ 32)"
    using narrow_int_mod[of "sc_rep info"] unfolding assms(2) Let_def by auto
  have test: "\<exists>A. bench_test P info = metadata_calls P A (sc_md_size info) (narrow_int (sc_rep info))"
    using assms(1) by (auto simp: bench_test_def)
  show ?thesis
  proof (intro conjI impI)
    show "narrow_int (sc_rep info) = (if k < 2 ^ 31 then int k else int k - 2 ^ 32)"
      by (rule narrow)
  next
    assume c: "2 ^ 31 \<le> k \<and> 1 \<le> length (rc_hosts (sy_ctx s)) \<and> length (rc_hosts (sy_ctx s)) * (2 ^ 32 - k) \<le> 2 ^ 63 \<and>
       unat (p_max_responses P) < 2 ^ 63"
    then have n: "narrow_int (sc_rep info) = int k - 2 ^ 32"
      using narrow by simp
    then show "narrow_int (sc_rep info) < 0"
      using k by simp
    show "bench_test P info s = Some (Inl (Throws Std_exn), s)"
      using test n metadata_calls_negative[OF _ k, of s] c assms(3) by auto
  next
    assume c: "k = 0 \<and> can_call s"
    then have "narrow_int (sc_rep info) = 0"
      using narrow by simp
    then show "bench_test P info s = Some (Inr (), extended [Logged (Log_ops 0)] s)"
      using test metadata_calls_zero[OF _ assms(3)] c by auto
  qed
qed

theorem metadata_rep_narrowing_witness:
  "bench_test sample_platform (sample_config\<lparr>sc_test := ''metadata'', sc_md_size := 8, sc_rep := 2 ^ 31 + 5\<rparr>) sample_sys =
     Some (Inl (Throws Std_exn), sample_sys) \<and>
   bench_test sample_platform (sample_config\<lparr>sc_test := ''metadata_async'', sc_md_size := 8, sc_rep := 2 ^ 32\<rparr>) sample_sys =
     Some (Inr (), extended [Logged (Log_ops 0)] sample_sys)"
proof
  let ?neg = "sample_config\<lparr>sc_test := ''metadata'', sc_md_size := 8, sc_rep := 2 ^ 31 + 5\<rparr>"
  let ?zero = "sample_config\<lparr>sc_test := ''metadata_async'', sc_md_size := 8, sc_rep := 2 ^ 32\<rparr>"
  have max: "p_max_chars sample_platform = 2 ^ 40" "p_max_responses sample_platform = 2 ^ 40"
    by (simp_all add: sample_platform_def)
  show "bench_test sample_platform ?neg sample_sys = Some (Inl (Throws Std_exn), sample_sys)"
    using metadata_rep_narrowing[of ?neg "2 ^ 31 + 5" sample_platform sample_sys] by (simp add: max sample_sys_fields)
  show "bench_test sample_platform ?zero sample_sys = Some (Inr (), extended [Logged (Log_ops 0)] sample_sys)"
    using metadata_rep_narrowing[of ?zero 0 sample_platform sample_sys] sample_can_call by (simp add: max)
qed

section \<open>The handler of an I/O call\<close>

text \<open>
  C13: \<open>RpcTaskSubmit\<close>, on every network. The handler allocates a fresh block for every segment
  of the received descriptor, transfers into these blocks as \<open>IoCallServerWrite\<close> does, and
  answers 0 as its last action, exactly when the transfer did not fail. Whatever the end, none of the blocks is
  freed: each call leaves all its segments allocated on the server.
\<close>

theorem rpc_task_submit_keeps_buffers:
  assumes "hshm_bits (p_hshm P)" "th_server s \<noteq> None" "malloc_fresh (p_malloc P)"
    and "allocate_bulks_server (p_malloc P) (sy_heap s) x = (h, x')"
  shows "\<exists>r moved new reply. rpc_task_submit P req bulk x s =
      (r, (extended (new @ reply) s)\<lparr>sy_heap := h\<rparr>) \<and>
    server_write_outcome P req bulk x' moved new \<and>
    (case moved of Inl e \<Rightarrow> r = Inl e \<and> reply = []
     | Inr _ \<Rightarrow> (\<exists>a. reply = [Asked (Respond req 0) a] \<and> r = map_sum Throws (\<lambda>_. ()) a)) \<and>
    (\<forall>d \<in> set (st_bulk x'). dt_data d \<noteq> 0 \<longrightarrow>
       sy_heap s (dt_data d) = None \<and> sy_heap (snd (rpc_task_submit P req bulk x s)) (dt_data d) = Some (dt_data_size d)) \<and>
    (responsive P \<longrightarrow> r = Inr ())"
proof -
  let ?s = "s\<lparr>sy_heap := h\<rparr>"
  obtain r1 a where a: "io_call_server_write P req bulk x' ?s = (r1, extended a ?s)"
    "server_write_outcome P req bulk x' r1 a" "responsive P \<longrightarrow> \<not> isl r1"
    using io_call_server_write_emits[OF assms(1), of ?s req bulk x'] assms(2) unfolding emits_def by auto
  have alloc: "\<forall>d \<in> set (st_bulk x'). dt_data d \<noteq> 0 \<longrightarrow> h (dt_data d) = Some (dt_data_size d) \<and> sy_heap s (dt_data d) = None"
    using allocate_bulks_live[OF assms(3)] assms(4) by (auto simp: allocate_bulks_server_def split: prod.splits)
  have ext: "extended new ?s = (extended new s)\<lparr>sy_heap := h\<rparr>" for new
    by (simp add: extended_def)
  define q where "q = p_net P (sy_trace (extended a ?s)) (Respond req 0)"
  have reply: "perform P (Respond req 0) (extended a ?s) = (map_sum Throws id q, extended [Asked (Respond req 0) q] (extended a ?s))"
    by (simp only: perform_eq q_def)
  have run: "rpc_task_submit P req bulk x s = (case r1 of Inl e \<Rightarrow> (Inl e, extended a ?s)
      | Inr n \<Rightarrow> (map_sum Throws (\<lambda>_. ()) q, extended (a @ [Asked (Respond req 0) q]) ?s))"
    by (cases q) (auto simp: rpc_task_submit_def sbind_def salloc_bulks_def assms(4) a(1) reply sret_def split: sum.splits)
  show ?thesis
  proof (cases r1)
    case (Inl e)
    with run a alloc show ?thesis
      by (intro exI[of _ "Inl e"] exI[of _ r1] exI[of _ a] exI[of _ "[]"]) (simp add: ext)
  next
    case (Inr n)
    have "responsive P \<longrightarrow> map_sum Throws (\<lambda>_. ()) q = Inr ()"
      unfolding responsive_def q_def by (metis map_sum.simps(2))
    with run a alloc Inr show ?thesis
      by (intro exI[of _ "map_sum Throws (\<lambda>_. ()) q"] exI[of _ r1] exI[of _ a] exI[of _ "[Asked (Respond req 0) q]"])
        (simp add: ext)
  qed
qed

theorem rpc_task_submit_keeps_buffers_witness:
  "\<exists>s'. rpc_task_submit sample_platform 7 (Some 5) sample_transfer sample_sys = (Inr (), s') \<and> sy_heap s' \<noteq> sy_heap sample_sys"
proof -
  obtain h x' where m: "allocate_bulks_server (p_malloc sample_platform) (sy_heap sample_sys) sample_transfer = (h, x')"
    by force
  have "map dt_data (st_bulk (snd (allocate_bulks_server (p_malloc sample_platform) (sy_heap sample_sys) sample_transfer)))
      = [4106, 4116]"
    by code_simp
  then have "map dt_data (st_bulk x') = [4106, 4116]"
    by (simp add: m)
  then have "st_bulk x' \<noteq> []" "dt_data (hd (st_bulk x')) = 4106"
    by (cases "st_bulk x'"; simp)+
  then obtain d where d: "d \<in> set (st_bulk x')" "dt_data d \<noteq> 0"
    using that[OF hd_in_set] by simp
  have "malloc_fresh (p_malloc sample_platform)"
    by (simp add: sample_platform_def sample_malloc_fresh)
  then obtain r moved new reply where r: "rpc_task_submit sample_platform 7 (Some 5) sample_transfer sample_sys =
      (r, (extended (new @ reply) sample_sys)\<lparr>sy_heap := h\<rparr>)" "r = Inr ()"
    "\<forall>d \<in> set (st_bulk x'). dt_data d \<noteq> 0 \<longrightarrow> sy_heap sample_sys (dt_data d) = None \<and>
       sy_heap (snd (rpc_task_submit sample_platform 7 (Some 5) sample_transfer sample_sys)) (dt_data d) = Some (dt_data_size d)"
    using rpc_task_submit_keeps_buffers[OF sample_bits(1) _ _ m, of 7 "Some 5"] sample_responsive
    by (auto simp: sample_sys_fields)
  then show ?thesis
    using d by (metis option.distinct(1) snd_conv)
qed

section \<open>The whole program\<close>

text \<open>Requests that are no part of a call.\<close>

fun quiet :: "request \<Rightarrow> bool" where
  "quiet (Call_sync _ _ _) = False"
| "quiet (Call_async _ _ _) = False"
| "quiet (Wait_response _) = False"
| "quiet _ = True"

lemma quiet_views:
  "list_all quiet (requests tr) \<Longrightarrow> answered tr = [] \<and> issued tr = [] \<and> waited tr = [] \<and> handles tr = []"
  by (induction tr rule: requests.induct)
    (auto simp: answered_def issued_def waited_def handles_def split: request.splits)

definition setup_requests :: "string \<Rightarrow> int \<Rightarrow> nat \<Rightarrow> server_config \<Rightarrow> request list" where
  "setup_requests addr pool threads info =
     server_requests addr pool threads (ri_protocol (sc_rpc info)) @
     [Sleep_for (sc_sleep info), Define_server ''RpcPing'' pool, Define_server ''RpcTaskSubmit'' pool]"

lemma setup_quiet: "list_all quiet (setup_requests addr pool threads info)"
  by (simp add: setup_requests_def server_requests_def list_all_iff)

lemma register_ok:
  assumes "responsive P" "th_pool s = Some pool" "th_server s \<noteq> None"
  shows "\<exists>v. register_rpc P name s = (Inr (), extended [Asked (Define_server name pool) (Inr v)] s)"
proof -
  obtain v where "perform P (Define_server name pool) s = (Inr v, extended [Asked (Define_server name pool) (Inr v)] s)"
    using performs[OF assms(1)] by blast
  with assms(2,3) show ?thesis
    by (auto simp: register_rpc_def sbind_def deref_def engine_of_def sret_def)
qed

text \<open>What every node does before it takes its role.\<close>

lemma bench_setup:
  assumes "responsive P" "benchmark_init (p_hshm P) argv info0 = Inr info"
    and "server_init (p_hshm P) (p_env P) info (sy_ctx s) = Inr c" "rc_inv c" "rc_config c = Some info"
    and "unat (rc_num_threads c) < 2 ^ 31"
  shows "\<exists>t pre addr pool. bench_main P argv info0 s =
      obind (if rc_node_id c = 1 then obind (bench_test P info) (\<lambda>_. stop_all_daemons P) else olift (run_daemon P))
        (\<lambda>_. olift (sret 0)) t \<and>
    can_call t \<and> sy_ctx t = c \<and> th_server t \<noteq> None \<and> sy_trace t = sy_trace s @ pre \<and>
    get_my_rpc_address (p_hshm P) c = Inr addr \<and>
    requests pre = setup_requests addr pool (unat (rc_num_threads c)) info"
proof -
  let ?s = "s\<lparr>sy_ctx := c\<rparr>"
  obtain addr e pool ess k new where i: "get_my_rpc_address (p_hshm P) c = Inr addr"
    "thallium_server_init P ?s = (Inr (), (extended new ?s)\<lparr>th_rpc := True, th_server := Some e, th_pool := Some pool,
      th_xstreams := th_xstreams ?s @ ess, th_client := Some k\<rparr>)"
    "requests new = server_requests addr pool (unat (rc_num_threads c)) (ri_protocol (sc_rpc info))"
    using thallium_server_init_run[OF assms(1), of ?s info] assms(4-6) by auto
  define t where "t = (extended new ?s)\<lparr>th_rpc := True, th_server := Some e, th_pool := Some pool,
      th_xstreams := th_xstreams ?s @ ess, th_client := Some k\<rparr>"
  have init: "thallium_server_init P ?s = (Inr (), t)"
    using i(2) by (simp only: t_def)
  obtain v where v: "perform P (Sleep_for (sc_sleep info)) t = (Inr v, extended [Asked (Sleep_for (sc_sleep info)) (Inr v)] t)"
    using performs[OF assms(1)] by blast
  define t1 where "t1 = extended [Asked (Sleep_for (sc_sleep info)) (Inr v)] t"
  have pool: "th_pool t1 = Some pool" "th_server t1 \<noteq> None"
    by (simp_all add: t1_def t_def)
  obtain a where a: "register_rpc P ''RpcPing'' t1 = (Inr (), extended [Asked (Define_server ''RpcPing'' pool) (Inr a)] t1)"
    using register_ok[OF assms(1) pool] by blast
  define t2 where "t2 = extended [Asked (Define_server ''RpcPing'' pool) (Inr a)] t1"
  obtain b where b: "register_rpc P ''RpcTaskSubmit'' t2 = (Inr (), extended [Asked (Define_server ''RpcTaskSubmit'' pool) (Inr b)] t2)"
    using register_ok[OF assms(1), of t2 pool] pool unfolding t2_def by fastforce
  define t3 where "t3 = extended [Asked (Define_server ''RpcTaskSubmit'' pool) (Inr b)] t2"
  let ?pre = "new @ [Asked (Sleep_for (sc_sleep info)) (Inr v), Asked (Define_server ''RpcPing'' pool) (Inr a),
    Asked (Define_server ''RpcTaskSubmit'' pool) (Inr b)]"
  have ctx: "sy_ctx t3 = c"
    by (simp add: t3_def t2_def t1_def t_def)
  have reg: "register_handlers P t1 = (Inr (), t3)"
    by (simp add: register_handlers_def sbind_def a b flip: t2_def t3_def)
  have "srpc_init P info s = (Inr (), ?s)"
    by (simp add: srpc_init_def assms(3))
  then have "bench_main P argv info0 s =
      obind (if rc_node_id c = 1 then obind (bench_test P info) (\<lambda>_. stop_all_daemons P) else olift (run_daemon P))
        (\<lambda>_. olift (sret 0)) t3"
    using init v reg by (simp add: bench_main_def slift_def assms(2) sget_def ctx flip: t1_def)
  moreover have "can_call t3"
    using assms(4) by (simp add: can_call_def rc_inv_def t3_def t2_def t1_def t_def)
  moreover have "th_server t3 \<noteq> None" "sy_trace t3 = sy_trace s @ ?pre"
    by (simp_all add: t3_def t2_def t1_def t_def)
  moreover have "requests ?pre = setup_requests addr pool (unat (rc_num_threads c)) info"
    by (simp add: i(3) setup_requests_def)
  ultimately show ?thesis
    using ctx i(1) by blast
qed

lemma run_daemon_waits:
  assumes "responsive P" "can_call t" "th_server t \<noteq> None"
  shows "\<exists>v. run_daemon P t = (Inr (), extended [Asked Wait_for_finalize (Inr v)] t)"
proof -
  obtain v where v: "perform P Wait_for_finalize t = (Inr v, extended [Asked Wait_for_finalize (Inr v)] t)"
    using performs[OF assms(1)] by blast
  have "engine_of Server_engine t = (Inr (the (th_server t)), t)"
    using assms(3) by (auto simp: engine_of_def deref_def)
  then have "run_daemon P t = (Inr (), extended [Asked Wait_for_finalize (Inr v)] t)"
    using v the_rpc_can_call[of "extended [Asked Wait_for_finalize (Inr v)] t"] assms(2)
    by (simp add: run_daemon_def sbind_def sret_def)
  then show ?thesis
    by blast
qed

lemma ping_then_stop:
  assumes "responsive P" "roomy P" "can_call t" "c = sy_ctx t"
  shows "\<exists>ping stop. obind (ping_all P False) (\<lambda>_. stop_all_daemons P) t = Some (Inr (), extended (ping @ stop) t) \<and>
    made False ping = ping_calls c \<and> issued ping = [] \<and> ping \<noteq> [] \<and> last ping = Logged (Log_pinged (num_hosts c)) \<and>
    answered stop = [] \<and> issued stop = map (stop_call c) [0..<length (rc_hosts c)] \<and> waited stop = handles stop"
proof -
  obtain a where a: "ping_all P False t = Some (Inr (), extended a t)" "made False a = ping_calls c"
    "made True a = []" "a \<noteq> []" "last a = Logged (Log_pinged (num_hosts c))"
    using ping_all_run[OF assms(3,2), of False] assms(1,4) by (auto simp: ping_outcome_def)
  have cc: "can_call (extended a t)"
    using assms(3) by simp
  obtain b where b: "stop_all_daemons P (extended a t) = Some (Inr (), extended b (extended a t))"
    "issued b = map (stop_call c) [0..<length (rc_hosts c)]" "answered b = []" "waited b = handles b"
    using stop_all_daemons_run[OF cc assms(2)] assms(1,4) by (auto simp: stop_outcome_def)
  have "issued a = []"
    using a(3) by (simp add: made_def)
  with a b show ?thesis
    by (intro exI[of _ a] exI[of _ b]) (simp add: obind_Some)
qed

text \<open>
  C8: the whole benchmark program, for the ping test over a network that answers, from a fresh
  context. Every node first starts its server at its own address, with \<open>num_threads\<close> streams,
  registers the three handlers and sleeps, and makes no call before. Node 1 then pings all nodes
  in table order, logs their number, asks all nodes to stop in table order and waits for each
  answer; every other node makes no call and waits until it is finalised. All end with exit
  code 0.
\<close>

theorem bench_main_ping:
  assumes "responsive P" "roomy P" "fatal_exits (p_hshm P)" "rc_hosts (sy_ctx s) = []" "sy_trace s = []"
    and "benchmark_init (p_hshm P) argv info0 = Inr info" "sc_test info = ''ping''"
    and "length (ri_host_names (sc_rpc info)) < 2 ^ 31"
    and "server_init (p_hshm P) (p_env P) info (sy_ctx s) = Inr c" "unat (rc_num_threads c) < 2 ^ 31"
  shows "\<exists>t addr pool pre post. bench_main P argv info0 s = Some (Inr 0, t) \<and>
    get_my_rpc_address (p_hshm P) c = Inr addr \<and> sy_trace t = pre @ post \<and>
    requests pre = setup_requests addr pool (unat (rc_num_threads c)) info \<and>
    (if rc_node_id c = 1
     then \<exists>ping stop. post = ping @ stop \<and>
       made False ping = ping_calls c \<and> issued ping = [] \<and> ping \<noteq> [] \<and> last ping = Logged (Log_pinged (num_hosts c)) \<and>
       answered stop = [] \<and> issued stop = map (stop_call c) [0..<length (rc_hosts c)] \<and> waited stop = handles stop
     else requests post = [Wait_for_finalize])"
proof -
  have c: "rc_inv c" "rc_config c = Some info"
    using server_init_Inr[OF assms(3,4,8,9)] initialised_inv[OF _ assms(8)] by (auto simp: initialised_def)
  obtain t pre addr pool where s: "bench_main P argv info0 s =
      obind (if rc_node_id c = 1 then obind (bench_test P info) (\<lambda>_. stop_all_daemons P) else olift (run_daemon P))
        (\<lambda>_. olift (sret 0)) t"
    "can_call t" "sy_ctx t = c" "th_server t \<noteq> None" "sy_trace t = pre"
    "get_my_rpc_address (p_hshm P) c = Inr addr" "requests pre = setup_requests addr pool (unat (rc_num_threads c)) info"
    using bench_setup[OF assms(1,6,9) c assms(10)] assms(5) by auto
  show ?thesis
  proof (cases "rc_node_id c = 1")
    case True
    obtain ping stop where r: "obind (ping_all P False) (\<lambda>_. stop_all_daemons P) t = Some (Inr (), extended (ping @ stop) t)"
      and ends: "made False ping = ping_calls c \<and> issued ping = [] \<and> ping \<noteq> [] \<and>
        last ping = Logged (Log_pinged (num_hosts c)) \<and> answered stop = [] \<and>
        issued stop = map (stop_call c) [0..<length (rc_hosts c)] \<and> waited stop = handles stop"
      using ping_then_stop[OF assms(1,2) s(2) s(3)[symmetric]] by blast
    have "bench_main P argv info0 s = Some (Inr 0, extended (ping @ stop) t)"
      using s(1) r True assms(7) by (simp add: bench_test_def obind_Some olift_def sret_def)
    moreover have "sy_trace (extended (ping @ stop) t) = pre @ ping @ stop"
      using s(5) by simp
    ultimately show ?thesis
      using s(6,7) True ends by metis
  next
    case False
    obtain v where "run_daemon P t = (Inr (), extended [Asked Wait_for_finalize (Inr v)] t)"
      using run_daemon_waits[OF assms(1) s(2,4)] by blast
    then have "bench_main P argv info0 s = Some (Inr 0, extended [Asked Wait_for_finalize (Inr v)] t)"
      using s(1) False by (simp add: olift_def sret_def)
    then show ?thesis
      using s(5-7) False
      by (intro exI[of _ "extended [Asked Wait_for_finalize (Inr v)] t"] exI[of _ addr] exI[of _ pool] exI[of _ pre]
          exI[of _ "[Asked Wait_for_finalize (Inr v)]"]) simp
  qed
qed

lemma sample_server_init:
  assumes "ri_host_names (sc_rpc info) = [''10.0.0.1'', ''10.0.0.2'']" "\<not> sc_local_only info"
    and "0 \<le> ri_num_threads (sc_rpc info)" "ri_num_threads (sc_rpc info) < 2 ^ 31"
  shows "\<exists>c. server_init sample_hshm sample_netenv info empty_context = Inr c \<and> unat (rc_num_threads c) < 2 ^ 31"
proof -
  let ?hosts = "[host_info_make ''10.0.0.1'' ''10.0.0.1'' 1, host_info_make ''10.0.0.2'' ''10.0.0.2'' 2]"
  have "build_hosts sample_hshm sample_netenv [''10.0.0.1'', ''10.0.0.2''] 1 = Inr ?hosts"
    "find_this_host sample_hshm sample_netenv ?hosts = Inr (1 + int 1)"
    by code_simp+
  then have "server_init sample_hshm sample_netenv info empty_context = Inr (initialised info ?hosts 1 empty_context)"
    using assms(1) by (intro server_init_found) (simp_all add: empty_context_def)
  moreover obtain n where n: "ri_num_threads (sc_rpc info) = int n" "n < 2 ^ 31"
    using assms(3,4) by (metis nonneg_int_cases of_nat_less_iff of_nat_numeral of_nat_power)
  moreover have "unat (word_of_int (int n) :: u32) = n"
    using unat_of_nat_u32[of n] n(2) by simp
  ultimately show ?thesis
    by (simp add: initialised_def)
qed

theorem bench_main_ping_witness:
  "\<exists>t. bench_main sample_platform (launch_argv (sample_launch\<lparr>lc_test := ''ping''\<rparr>)) sample_config
      (sample_sys\<lparr>sy_ctx := empty_context\<rparr>) = Some (Inr 0, t)"
proof -
  let ?argv = "launch_argv (sample_launch\<lparr>lc_test := ''ping''\<rparr>)" and ?s = "sample_sys\<lparr>sy_ctx := empty_context\<rparr>"
  obtain info where info: "benchmark_init sample_hshm ?argv sample_config = Inr info" "sc_test info = ''ping''"
    "ri_host_names (sc_rpc info) = [''10.0.0.1'', ''10.0.0.2'']" "\<not> sc_local_only info" "ri_num_threads (sc_rpc info) = 4"
    by (simp add: benchmark_init_def launch_argv_def atoi_to_string_int Let_def sample_launch_def)
      (simp add: sample_hshm_def sample_config_def)
  obtain c where c: "server_init sample_hshm sample_netenv info empty_context = Inr c" "unat (rc_num_threads c) < 2 ^ 31"
    using sample_server_init[of info] info by auto
  have s: "rc_hosts (sy_ctx ?s) = []" "sy_trace ?s = []" "sy_ctx ?s = empty_context"
    "p_hshm sample_platform = sample_hshm" "p_env sample_platform = sample_netenv"
    by (simp_all add: sample_sys_def empty_context_def sample_platform_def)
  show ?thesis
    using bench_main_ping[OF sample_responsive sample_roomy sample_bits(2) s(1,2), of ?argv sample_config info c]
      info c s(3-5) by auto
qed

end
