(* ===== verification/Net_Ping.thy ===== *)
theory Net_Ping
  imports Bench_Runs
begin

text \<open>
  \<open>src/chi_net_ping.cc\<close>: its \<open>TestRunner\<close>, whose \<open>PingAll\<close> gives up at the first failure, and
  \<open>main\<close> with the roles \<open>server\<close>, \<open>touchserver\<close> and \<open>client\<close>. A shared-memory segment named
  after the port tells a client that the server of its machine is up; opening it returns a
  Boolean, here a number. The process leaves by \<open>exit\<close> (the failure \<open>Exits\<close>) or with the value
  of \<open>main\<close>.
\<close>

section \<open>Definitions\<close>

definition np_server_init :: "platform \<Rightarrow> (sys, unit) step" where
  "np_server_init P = register_rpc P ''RpcPing''"

definition np_rpc_task_submit :: "platform \<Rightarrow> int \<Rightarrow> int option \<Rightarrow> segmented_transfer \<Rightarrow> (sys, unit) step" where
  "np_rpc_task_submit P req bulk xfer =
     sbind (salloc_bulks P xfer) (\<lambda>xfer.
     sbind (io_call_server_write P req bulk xfer) (\<lambda>_.
     sbind (perform P (Respond req 0)) (\<lambda>_. sret ())))"

definition np_rpc_ping :: "platform \<Rightarrow> int \<Rightarrow> string \<Rightarrow> (sys, unit) step" where
  "np_rpc_ping P req md = sbind (perform P (Respond req 0)) (\<lambda>_. sret ())"

text \<open>Both \<open>catch\<close> clauses of the loop end in \<open>HELOG(kFatal, ..)\<close>.\<close>

definition np_ping_one :: "platform \<Rightarrow> bool \<Rightarrow> u32 \<Rightarrow> int list \<times> u64 \<Rightarrow> (sys, int list \<times> u64) step" where
  "np_ping_one P ASYNC node_id acc =
     (let (responses, count) = acc in
      scatch
        (if ASYNC
         then sbind (async_call P node_id ''RpcPing'' [Arg_md []]) (\<lambda>ret. sret (responses @ [ret], count))
         else sbind (sync_call P node_id ''RpcPing'' [Arg_md []]) (\<lambda>_. sret (responses, count + 1)))
        (\<lambda>x. if x = Margo_exn then Some (sfatal P (sret (responses, count)))
             else Some (sfatal P (sret (responses, count)))))"

fun np_wait_count :: "platform \<Rightarrow> int list \<Rightarrow> u64 \<Rightarrow> (sys, u64) step" where
  "np_wait_count P [] count = sret count"
| "np_wait_count P (resp # responses) count =
     sbind (scatch (sbind (wait_int P resp) (\<lambda>_. sret True)) (on_margo (sfatal P (sret False)))) (\<lambda>received.
     if received then np_wait_count P responses (count + 1) else sret count)"

definition np_ping_all :: "platform \<Rightarrow> bool \<Rightarrow> (sys, unit) ostep" where
  "np_ping_all P ASYNC =
     obind (olift (sget sy_ctx)) (\<lambda>c.
     obind (olift (reserve P (num_hosts c))) (\<lambda>_.
     obind (node_loop (np_ping_one P ASYNC) (num_hosts c) 1 ([], 0)) (\<lambda>(responses, count).
     obind (olift (if ASYNC then np_wait_count P responses count else sret count)) (\<lambda>_.
     olift (sret ())))))"

text \<open>A request whose answer is not used.\<close>

definition sdo :: "platform \<Rightarrow> request \<Rightarrow> (sys, unit) step" where
  "sdo P q = sbind (perform P q) (\<lambda>_. sret ())"

definition np_server_part :: "platform \<Rightarrow> server_config \<Rightarrow> string \<Rightarrow> (sys, unit) step" where
  "np_server_part P info shm_name =
     (if sc_test info = ''server'' \<or> sc_test info = ''touchserver''
      then sbind (sdo P (Destroy_shm shm_name)) (\<lambda>_.
           sbind (thallium_server_init P) (\<lambda>_.
           sbind (np_server_init P) (\<lambda>_.
           sdo P (Create_shm shm_name (kilobytes (p_hshm P) 1)))))
      else sret ())"

text \<open>The end of a client: stop all nodes (an exception there ends it well), report, clean up.\<close>

definition np_finish :: "platform \<Rightarrow> rpc_context \<Rightarrow> string \<Rightarrow> (sys, unit) ostep" where
  "np_finish P c shm_name =
     obind (ocatch (stop_all_daemons P) (\<lambda>x. Some (olift (sfail (Exits 0))))) (\<lambda>_.
     obind (olift (slift (get_rpc_address (p_hshm P) c 1 (rc_port c)))) (\<lambda>address.
     obind (olift (log_info (Log_complete address))) (\<lambda>_.
     obind (olift (sdo P (Destroy_shm shm_name))) (\<lambda>_.
     olift (sfail (Exits 0))))))"

definition np_client_part :: "platform \<Rightarrow> server_config \<Rightarrow> string \<Rightarrow> (sys, unit) ostep" where
  "np_client_part P info shm_name =
     obind (olift (sget sy_ctx)) (\<lambda>c.
     if sc_test info = ''client'' \<and> rc_node_id c = 1
     then obind (olift (perform P (Open_shm shm_name))) (\<lambda>opened.
          obind (olift (if opened = 0 then sfatal P (sret ()) else sret ())) (\<lambda>_.
          obind (olift (client_init P)) (\<lambda>_.
          obind (np_ping_all P False) (\<lambda>_.
          np_finish P c shm_name))))
     else olift (sret ()))"

definition ping_main :: "platform \<Rightarrow> string list \<Rightarrow> server_config \<Rightarrow> (sys, int) ostep" where
  "ping_main P argv info0 =
     obind (olift (slift (ping_init (p_hshm P) argv info0))) (\<lambda>info.
     obind (olift (srpc_init P info)) (\<lambda>_.
     obind (olift (sget sy_ctx)) (\<lambda>c.
     let shm_name = format_args (p_hshm P) ''nettest_{}'' [to_string_int (rc_port c)] in
     obind
       (ocatch
          (obind (olift (np_server_part P info shm_name)) (\<lambda>_.
           obind (olift (if sc_test info = ''server'' then run_daemon P else sret ())) (\<lambda>_.
           np_client_part P info shm_name)))
          (\<lambda>x. Some (olift (sfail (Exits 1))))) (\<lambda>_.
     olift (sret 0)))))"

section \<open>The ping loop\<close>

text \<open>
  The loop over all nodes makes its calls in order and ends the process at the first that fails.
\<close>

definition np_outcome :: "platform \<Rightarrow> bool \<Rightarrow> (string \<times> string \<times> rpc_arg) list \<Rightarrow>
    int list \<times> u64 \<Rightarrow> failure + int list \<times> u64 \<Rightarrow> event list \<Rightarrow> bool" where
  "np_outcome P A calls acc r new \<longleftrightarrow>
     (if A then answered new = [] else issued new = []) \<and> waited new = [] \<and> prefix (made A new) calls \<and>
     (\<forall>e. r = Inl e \<longrightarrow> e = Exits 1 \<and> made A new \<noteq> calls) \<and>
     (\<forall>acc'. r = Inr acc' \<longrightarrow> made A new = calls) \<and> (responsive P \<longrightarrow> \<not> isl r)"

lemma np_concat:
  "loop_run (\<lambda>i. np_outcome P A [what i]) xs acc r new \<Longrightarrow> np_outcome P A (map what xs) acc r new"
proof (induction rule: loop_run.induct)
  case (loop_next x acc acc' a xs r b)
  then show ?case
    by (auto simp: np_outcome_def)
qed (auto simp: np_outcome_def prefix_Cons)

lemma np_ping_one_emits:
  assumes "fatal_exits (p_hshm P)" "can_call t" "1 \<le> unat i" "unat i \<le> length (rc_hosts (sy_ctx t))"
  shows "\<exists>r new. emits (np_ping_one P A i acc) t r new \<and>
    np_outcome P A [(''RpcPing'', server_name (sy_ctx t) (unat i - 1), Arg_md [])] acc r new"
proof -
  let ?call = "(''RpcPing'', server_name (sy_ctx t) (unat i - 1), Arg_md [])"
  obtain rs n where acc: "acc = (rs, n)"
    by (cases acc)
  define m where "m = (if A then async_call P i ''RpcPing'' [Arg_md []] else sync_call P i ''RpcPing'' [Arg_md []])"
  define k where "k = (\<lambda>v. if A then (rs @ [v], n) else (rs, n + 1 :: u64))"
  have ping: "np_ping_one P A i acc = scatch (sbind m (\<lambda>v. sret (k v))) (\<lambda>_. Some (sfail (Exits 1)))"
    using assms(1) by (simp add: np_ping_one_def acc m_def k_def sfatal_def)
  obtain r new where r: "emits m t r new" "call_done A ?call r new" "responsive P \<longrightarrow> \<not> isl r"
    using sync_call_emits[OF assms(2-4), of P "''RpcPing''" "[Arg_md []]"] async_call_emits[OF assms(2-4), of P "''RpcPing''" "[Arg_md []]"]
      sync_done[of "''RpcPing''" _ "[Arg_md []]"] async_done[of "''RpcPing''" _ "[Arg_md []]"]
    by (cases A) (fastforce simp: m_def)+
  let ?r = "case r of Inl e \<Rightarrow> Inl (Exits 1) | Inr v \<Rightarrow> Inr (k v)"
  have "emits (np_ping_one P A i acc) t ?r new"
    using r(1,2) unfolding ping
    by (cases r) (auto simp: emits_def sbind_def sret_def scatch_def sfail_def call_done_def)
  moreover have "np_outcome P A [?call] acc ?r new"
    using r(2,3) by (cases r) (auto simp: np_outcome_def call_done_def)
  ultimately show ?thesis
    by blast
qed

lemma np_ping_all_run:
  assumes "fatal_exits (p_hshm P)" "can_call s" "roomy P"
  shows "\<exists>r new. np_ping_all P False s = Some (r, extended new s) \<and>
    issued new = [] \<and> prefix (made False new) (ping_calls (sy_ctx s)) \<and>
    (r = Inr () \<and> made False new = ping_calls (sy_ctx s) \<or> r = Inl (Exits 1) \<and> made False new \<noteq> ping_calls (sy_ctx s)) \<and>
    (responsive P \<longrightarrow> r = Inr ())"
proof -
  let ?n = "length (rc_hosts (sy_ctx s))"
  have small: "?n < 2 ^ 32"
    using assms(2) by (simp add: can_call_def rc_table_def)
  have "\<exists>r new. emits (np_ping_one P False i acc) t r new \<and>
      np_outcome P False [ping_call (sy_ctx s) (unat i - 1)] acc r new"
    if "i \<in> set (node_ids ?n)" "can_call t" "sy_ctx t = sy_ctx s" for i acc t
    using np_ping_one_emits[OF assms(1), of t i False acc] that set_node_ids[OF small, of i] by (simp add: ping_call_def)
  then obtain r a where l: "node_loop (np_ping_one P False) (num_hosts (sy_ctx s)) 1 ([], 0) s = Some (r, extended a s)"
    "loop_run (\<lambda>i. np_outcome P False [ping_call (sy_ctx s) (unat i - 1)]) (node_ids ?n) ([], 0) r a"
    using node_loop_emits[OF assms(2), of "np_ping_one P False" "\<lambda>i. np_outcome P False [ping_call (sy_ctx s) (unat i - 1)]" "([], 0)"]
    by blast
  have o: "np_outcome P False (ping_calls (sy_ctx s)) ([], 0) r a"
    using np_concat[OF l(2)] unfolding ping_calls_def map_node_ids[OF small] .
  have run: "np_ping_all P False s = Some (map_sum id (\<lambda>_. ()) r, extended a s)"
    using l(1) reserve_hosts[OF assms(3,2), of s]
    by (cases r) (auto simp: np_ping_all_def sget_def obind_Some olift_def sret_def)
  show ?thesis
    using o unfolding run by (cases r) (auto simp: np_outcome_def)
qed

section \<open>The verdict of a client\<close>

lemma client_init_cases:
  assumes "rc_inv (sy_ctx s)" "rc_config (sy_ctx s) = Some cfg"
  shows "\<exists>reply. let q = Start_client (ri_protocol (sc_rpc cfg)) in
    client_init P s = (case reply of
        Inl x \<Rightarrow> (Inl (Throws x), (extended [Asked q (Inl x)] s)\<lparr>th_rpc := True\<rparr>)
      | Inr c \<Rightarrow> (Inr (), (extended [Asked q (Inr c)] s)\<lparr>th_rpc := True, th_client := Some c\<rparr>)) \<and>
    (responsive P \<longrightarrow> \<not> isl reply)"
proof -
  let ?q = "Start_client (ri_protocol (sc_rpc cfg))"
  define reply where "reply = p_net P (sy_trace (s\<lparr>th_rpc := True\<rparr>)) ?q"
  have v: "perform P ?q (s\<lparr>th_rpc := True\<rparr>) = (map_sum Throws id reply, extended [Asked ?q reply] (s\<lparr>th_rpc := True\<rparr>))"
    by (simp only: perform_eq reply_def)
  obtain a where a: "get_rpc_address (p_hshm P) (sy_ctx s) (rc_node_id (sy_ctx s)) (rc_port (sy_ctx s)) = Inr a"
    using my_address_defined[OF assms] by (auto simp: get_my_rpc_address_def)
  have "client_init P s = (case reply of
        Inl x \<Rightarrow> (Inl (Throws x), (extended [Asked ?q (Inl x)] s)\<lparr>th_rpc := True\<rparr>)
      | Inr c \<Rightarrow> (Inr (), (extended [Asked ?q (Inr c)] s)\<lparr>th_rpc := True, th_client := Some c\<rparr>))"
    using v a assms(2)
    by (cases reply)
      (simp_all add: client_init_def sbind_def supd_def the_rpc_def deref_def slift_def get_protocol_def sret_def)
  moreover have "responsive P \<longrightarrow> \<not> isl reply"
    unfolding responsive_def reply_def by (metis sum.disc(2))
  ultimately show ?thesis
    unfolding Let_def by blast
qed

lemma np_finish_run:
  assumes "roomy P" "can_call s" "rc_inv (sy_ctx s)" "rc_config (sy_ctx s) = Some cfg"
  shows "\<exists>r new. np_finish P (sy_ctx s) name s = Some (r, extended new s) \<and> answered new = [] \<and>
    prefix (issued new) (map (stop_call (sy_ctx s)) [0..<length (rc_hosts (sy_ctx s))]) \<and>
    (r = Inl (Exits 0) \<or> (\<exists>x. r = Inl (Throws x))) \<and>
    (responsive P \<longrightarrow> r = Inl (Exits 0) \<and> issued new = map (stop_call (sy_ctx s)) [0..<length (rc_hosts (sy_ctx s))])"
proof -
  obtain r1 a where a: "stop_all_daemons P s = Some (r1, extended a s)" "stop_outcome P (sy_ctx s) r1 a"
    using stop_all_daemons_run[OF assms(2,1)] by blast
  show ?thesis
  proof (cases r1)
    case (Inl e)
    then obtain x where x: "e = Throws x"
      using a(2) by (auto simp: stop_outcome_def)
    have "np_finish P (sy_ctx s) name s = Some (Inl (Exits 0), extended a s)"
      using a(1) Inl x by (simp add: np_finish_def obind_def ocatch_def olift_def sfail_def)
    with a(2) Inl show ?thesis
      by (intro exI[of _ "Inl (Exits 0)"] exI[of _ a]) (auto simp: stop_outcome_def)
  next
    case (Inr u)
    have "1 \<le> unat (1 :: u32)" "unat (1 :: u32) \<le> length (rc_hosts (sy_ctx s))"
      using assms(3) by (auto simp: rc_inv_def)
    then have "\<exists>n. get_host_name_from_node_id (p_hshm P) (sy_ctx s) 1 = Inr n"
      using name_dir.lookup_known[of "sy_ctx s" 1 "p_hshm P"] assms(3) by (simp add: rc_inv_def)
    then have "\<exists>address. get_rpc_address (p_hshm P) (sy_ctx s) 1 (rc_port (sy_ctx s)) = Inr address"
      using assms(4) by (auto simp: get_rpc_address_def Let_def)
    then obtain address where address: "get_rpc_address (p_hshm P) (sy_ctx s) 1 (rc_port (sy_ctx s)) = Inr address"
      by blast
    define t where "t = extended (a @ [Logged (Log_complete address)]) s"
    define q where "q = p_net P (sy_trace t) (Destroy_shm name)"
    have del: "perform P (Destroy_shm name) t = (map_sum Throws id q, extended [Asked (Destroy_shm name) q] t)"
      by (simp only: perform_eq q_def)
    have "ocatch (stop_all_daemons P) k s = Some (Inr u, extended a s)" for k
      using a(1) Inr by (simp add: ocatch_def)
    moreover have "log_info (Log_complete address) (extended a s) = (Inr (), t)"
      by (simp add: log_info_eq t_def)
    ultimately have run: "np_finish P (sy_ctx s) name s = Some (case q of Inl x \<Rightarrow> Inl (Throws x) | Inr _ \<Rightarrow> Inl (Exits 0),
        extended (a @ [Logged (Log_complete address), Asked (Destroy_shm name) q]) s)"
      using del unfolding np_finish_def
      by (cases q) (simp_all add: obind_Some address slift_def sdo_def sbind_def sret_def sfail_def olift_def t_def)
    have quiet: "answered [Asked (Destroy_shm name) q] = []" "issued [Asked (Destroy_shm name) q] = []"
      by (simp_all add: answered_def issued_def)
    have "responsive P \<longrightarrow> \<not> isl q"
      unfolding responsive_def q_def by (metis sum.disc(2))
    with a(2) Inr quiet show ?thesis
      unfolding run
      by (intro exI[of _ "case q of Inl x \<Rightarrow> Inl (Throws x) | Inr _ \<Rightarrow> Inl (Exits 0)"]
          exI[of _ "a @ [Logged (Log_complete address), Asked (Destroy_shm name) q]"])
        (auto simp: stop_outcome_def trace_views_append(1,2)[of "[Logged (Log_complete address)]" "[Asked (Destroy_shm name) q]", simplified]
          split: sum.splits)
  qed
qed

text \<open>How a client on node 1 ends: the result of its part and the events it adds.\<close>

definition client_outcome :: "platform \<Rightarrow> rpc_context \<Rightarrow> string \<Rightarrow> failure + unit \<Rightarrow> event list \<Rightarrow> bool" where
  "client_outcome P c name r new \<longleftrightarrow>
     (r = Inl (Exits 0) \<or> r = Inl (Exits 1) \<or> (\<exists>x. r = Inl (Throws x))) \<and>
     (r = Inl (Exits 0) \<longrightarrow> made False new = ping_calls c) \<and>
     prefix (made False new) (ping_calls c) \<and>
     prefix (issued new) (map (stop_call c) [0..<length (rc_hosts c)]) \<and>
     (issued new \<noteq> [] \<longrightarrow> made False new = ping_calls c) \<and>
     (responsive P \<longrightarrow>
        r = Inl (Exits 0) \<and> issued new = map (stop_call c) [0..<length (rc_hosts c)] \<or>
        r = Inl (Exits 1) \<and> new = [Asked (Open_shm name) (Inr 0)])"

lemma quiet_asked:
  "quiet q \<Longrightarrow> answered (Asked q r # tr) = answered tr \<and> issued (Asked q r # tr) = issued tr"
  by (cases q) (simp_all add: answered_def issued_def)

lemma client_after_open:
  assumes "fatal_exits (p_hshm P)" "roomy P" "rc_inv (sy_ctx s)" "rc_config (sy_ctx s) = Some cfg"
  shows "\<exists>r t new. obind (olift (client_init P)) (\<lambda>_. obind (np_ping_all P False) (\<lambda>_. np_finish P (sy_ctx s) name)) s = Some (r, t) \<and>
    sy_trace t = sy_trace s @ new \<and>
    (r = Inl (Exits 0) \<or> r = Inl (Exits 1) \<or> (\<exists>x. r = Inl (Throws x))) \<and>
    (r = Inl (Exits 0) \<longrightarrow> made False new = ping_calls (sy_ctx s)) \<and>
    prefix (made False new) (ping_calls (sy_ctx s)) \<and>
    prefix (issued new) (map (stop_call (sy_ctx s)) [0..<length (rc_hosts (sy_ctx s))]) \<and>
    (issued new \<noteq> [] \<longrightarrow> made False new = ping_calls (sy_ctx s)) \<and>
    (responsive P \<longrightarrow> r = Inl (Exits 0) \<and> issued new = map (stop_call (sy_ctx s)) [0..<length (rc_hosts (sy_ctx s))])"
proof -
  let ?q = "Start_client (ri_protocol (sc_rpc cfg))"
  obtain reply where i: "client_init P s = (case reply of
        Inl x \<Rightarrow> (Inl (Throws x), (extended [Asked ?q (Inl x)] s)\<lparr>th_rpc := True\<rparr>)
      | Inr c \<Rightarrow> (Inr (), (extended [Asked ?q (Inr c)] s)\<lparr>th_rpc := True, th_client := Some c\<rparr>))"
    "responsive P \<longrightarrow> \<not> isl reply"
    using client_init_cases[OF assms(3,4), of P] unfolding Let_def by blast
  have quiet: "answered [Asked ?q v] = []" "issued [Asked ?q v] = []" for v
    by (simp_all add: quiet_asked)
  show ?thesis
  proof (cases reply)
    case (Inl x)
    with i quiet show ?thesis
      by (intro exI[of _ "Inl (Throws x)"] exI[of _ "(extended [Asked ?q (Inl x)] s)\<lparr>th_rpc := True\<rparr>"]
          exI[of _ "[Asked ?q (Inl x)]"]) (simp add: made_def)
  next
    case (Inr k)
    define t where "t = (extended [Asked ?q (Inr k)] s)\<lparr>th_rpc := True, th_client := Some k\<rparr>"
    have t: "can_call t" "sy_ctx t = sy_ctx s" "sy_trace t = sy_trace s @ [Asked ?q (Inr k)]"
      using assms(3) by (simp_all add: t_def can_call_def rc_inv_def)
    obtain r1 a where a: "np_ping_all P False t = Some (r1, extended a t)" "issued a = []"
      "prefix (made False a) (ping_calls (sy_ctx s))"
      "r1 = Inr () \<and> made False a = ping_calls (sy_ctx s) \<or> r1 = Inl (Exits 1) \<and> made False a \<noteq> ping_calls (sy_ctx s)"
      "responsive P \<longrightarrow> r1 = Inr ()"
      using np_ping_all_run[OF assms(1) t(1) assms(2)] unfolding t(2) by blast
    have start: "obind (olift (client_init P)) m s = m () t" for m :: "unit \<Rightarrow> (sys, unit) ostep"
      using i(1) Inr by (simp add: t_def)
    from a(4) show ?thesis
    proof (elim disjE conjE)
      assume r1: "r1 = Inl (Exits 1)" and m: "made False a \<noteq> ping_calls (sy_ctx s)"
      have "obind (olift (client_init P)) (\<lambda>_. obind (np_ping_all P False) (\<lambda>_. np_finish P (sy_ctx s) name)) s =
          Some (Inl (Exits 1), extended a t)"
        unfolding start using a(1) r1 by (simp add: obind_Some)
      with a r1 m t(3) quiet show ?thesis
        by (intro exI[of _ "Inl (Exits 1)"] exI[of _ "extended a t"] exI[of _ "Asked ?q (Inr k) # a"])
          (simp add: made_def quiet_asked)
    next
      assume r1: "r1 = Inr ()" and m: "made False a = ping_calls (sy_ctx s)"
      have e: "can_call (extended a t)" "rc_inv (sy_ctx (extended a t))" "rc_config (sy_ctx (extended a t)) = Some cfg"
        using t assms(3,4) by simp_all
      obtain r b where b: "np_finish P (sy_ctx (extended a t)) name (extended a t) = Some (r, extended b (extended a t))"
        "answered b = []" "prefix (issued b) (map (stop_call (sy_ctx s)) [0..<length (rc_hosts (sy_ctx s))])"
        "r = Inl (Exits 0) \<or> (\<exists>x. r = Inl (Throws x))"
        "responsive P \<longrightarrow> r = Inl (Exits 0) \<and> issued b = map (stop_call (sy_ctx s)) [0..<length (rc_hosts (sy_ctx s))]"
        using np_finish_run[OF assms(2) e, of name] t(2) by auto
      have "obind (olift (client_init P)) (\<lambda>_. obind (np_ping_all P False) (\<lambda>_. np_finish P (sy_ctx s) name)) s =
          Some (r, extended (a @ b) t)"
        unfolding start using a(1) r1 b(1) t(2) by (simp add: obind_Some)
      then show ?thesis
        using a(2) b m t(3)
        by (intro exI[of _ r] exI[of _ "extended (a @ b) t"] exI[of _ "Asked ?q (Inr k) # a @ b"])
          (auto simp: made_def quiet_asked)
    qed
  qed
qed

lemma np_client_part_run:
  assumes "fatal_exits (p_hshm P)" "roomy P" "rc_inv (sy_ctx s)" "rc_config (sy_ctx s) = Some cfg"
    and "sc_test info = ''client''" "rc_node_id (sy_ctx s) = 1"
  shows "\<exists>r t new. np_client_part P info name s = Some (r, t) \<and> sy_trace t = sy_trace s @ new \<and>
    client_outcome P (sy_ctx s) name r new"
proof -
  define q where "q = p_net P (sy_trace s) (Open_shm name)"
  define t where "t = extended [Asked (Open_shm name) q] s"
  have first: "perform P (Open_shm name) s = (map_sum Throws id q, t)"
    by (simp only: perform_eq q_def t_def)
  have quiet: "answered (Asked (Open_shm name) q # new) = answered new"
    "issued (Asked (Open_shm name) q # new) = issued new" for new
    by (simp_all add: quiet_asked)
  have resp: "responsive P \<longrightarrow> \<not> isl q"
    unfolding responsive_def q_def by (metis sum.disc(2))
  have part: "np_client_part P info name s =
      obind (olift (perform P (Open_shm name))) (\<lambda>opened.
      obind (olift (if opened = 0 then sfatal P (sret ()) else sret ())) (\<lambda>_.
      obind (olift (client_init P)) (\<lambda>_. obind (np_ping_all P False) (\<lambda>_. np_finish P (sy_ctx s) name)))) s"
    using assms(5,6) by (simp add: np_client_part_def sget_def)
  show ?thesis
  proof (cases q)
    case (Inl x)
    then have "np_client_part P info name s = Some (Inl (Throws x), t)"
      using first unfolding part by simp
    then show ?thesis
      using Inl resp quiet[of "[]"]
      by (intro exI[of _ "Inl (Throws x)"] exI[of _ t] exI[of _ "[Asked (Open_shm name) q]"])
        (simp add: client_outcome_def t_def made_def)
  next
    case (Inr v)
    show ?thesis
    proof (cases "v = 0")
      case True
      then have "np_client_part P info name s = Some (Inl (Exits 1), t)"
        using first Inr assms(1) unfolding part by (simp add: sfatal_def sfail_def)
      then show ?thesis
        using Inr True quiet[of "[]"]
        by (intro exI[of _ "Inl (Exits 1)"] exI[of _ t] exI[of _ "[Asked (Open_shm name) q]"])
          (simp add: client_outcome_def t_def made_def)
    next
      case False
      have same: "np_client_part P info name s =
          obind (olift (client_init P)) (\<lambda>_. obind (np_ping_all P False) (\<lambda>_. np_finish P (sy_ctx t) name)) t"
        using first Inr False unfolding part by (simp add: sret_def t_def)
      have ctx: "sy_ctx t = sy_ctx s"
        by (simp add: t_def)
      obtain r u new where u: "np_client_part P info name s = Some (r, u)" "sy_trace u = sy_trace t @ new"
        "r = Inl (Exits 0) \<or> r = Inl (Exits 1) \<or> (\<exists>x. r = Inl (Throws x))"
        "r = Inl (Exits 0) \<longrightarrow> made False new = ping_calls (sy_ctx s)"
        "prefix (made False new) (ping_calls (sy_ctx s))"
        "prefix (issued new) (map (stop_call (sy_ctx s)) [0..<length (rc_hosts (sy_ctx s))])"
        "issued new \<noteq> [] \<longrightarrow> made False new = ping_calls (sy_ctx s)"
        "responsive P \<longrightarrow> r = Inl (Exits 0) \<and> issued new = map (stop_call (sy_ctx s)) [0..<length (rc_hosts (sy_ctx s))]"
        using client_after_open[OF assms(1,2), of t cfg name] assms(3,4) unfolding same ctx by blast
      then have "client_outcome P (sy_ctx s) name r (Asked (Open_shm name) q # new)"
        using quiet[of new] by (simp add: client_outcome_def made_def)
      with u(1,2) show ?thesis
        by (intro exI[of _ r] exI[of _ u] exI[of _ "Asked (Open_shm name) q # new"]) (simp add: t_def)
    qed
  qed
qed

text \<open>
  C7: the verdict of \<open>chi_net_ping ... client\<close> on node 1, on every network. The process always
  ends by \<open>exit\<close> with 0 or 1, never by an uncaught exception. It ends with 0 only when every
  node answered the ping, in table order; it asks a node to stop only after all nodes have
  answered, and in table order. Over a network that answers, the only way to end with 1 is
  that the shared-memory segment of the server could not be opened, and then that attempt is all it did.
\<close>

theorem ping_client_verdict:
  assumes "fatal_exits (p_hshm P)" "roomy P" "rc_hosts (sy_ctx s) = []"
    and "ping_init (p_hshm P) argv info0 = Inr info" "sc_test info = ''client''"
    and "length (ri_host_names (sc_rpc info)) < 2 ^ 31"
    and "server_init (p_hshm P) (p_env P) info (sy_ctx s) = Inr c" "rc_node_id c = 1"
  shows "\<exists>code t new. ping_main P argv info0 s = Some (Inl (Exits code), t) \<and> sy_trace t = sy_trace s @ new \<and>
    (code = 0 \<or> code = 1) \<and>
    (code = 0 \<longrightarrow> made False new = ping_calls c) \<and>
    prefix (made False new) (ping_calls c) \<and>
    prefix (issued new) (map (stop_call c) [0..<length (rc_hosts c)]) \<and>
    (issued new \<noteq> [] \<longrightarrow> made False new = ping_calls c) \<and>
    (responsive P \<longrightarrow>
      code = 0 \<and> issued new = map (stop_call c) [0..<length (rc_hosts c)] \<or>
      code = 1 \<and> (\<exists>name. new = [Asked (Open_shm name) (Inr 0)]))"
proof -
  let ?s = "s\<lparr>sy_ctx := c\<rparr>"
  let ?name = "format_args (p_hshm P) ''nettest_{}'' [to_string_int (rc_port c)]"
  have c: "rc_inv c" "rc_config c = Some info"
    using server_init_Inr[OF assms(1,3,6,7)] initialised_inv[OF _ assms(6)] by (auto simp: initialised_def)
  obtain r t new where r: "np_client_part P info ?name ?s = Some (r, t)" "sy_trace t = sy_trace ?s @ new"
    "client_outcome P c ?name r new"
    using np_client_part_run[OF assms(1,2), of ?s info info ?name] c assms(5,8) by auto
  have "srpc_init P info s = (Inr (), ?s)"
    by (simp add: srpc_init_def assms(7))
  then have run: "ping_main P argv info0 s =
      obind (ocatch (np_client_part P info ?name) (\<lambda>x. Some (olift (sfail (Exits 1))))) (\<lambda>_. olift (sret 0)) ?s"
    using assms(5) unfolding ping_main_def
    by (simp add: slift_def assms(4) sget_def Let_def np_server_part_def) (simp add: obind_def ocatch_def olift_def sret_def)
  have "\<exists>code. ping_main P argv info0 s = Some (Inl (Exits code), t) \<and> (code = 0 \<or> code = 1) \<and>
      (code = 0 \<longleftrightarrow> r = Inl (Exits 0))"
    using r(1,3) unfolding run by (auto simp: client_outcome_def obind_def ocatch_def olift_def sfail_def)
  with r(2,3) show ?thesis
    unfolding client_outcome_def by auto
qed

theorem ping_client_verdict_witness:
  "\<exists>code t. ping_main sample_platform [''chi_net_ping'', ''/hosts'', ''tcp'', [], to_string_int 4192, ''client'', ''local'']
      sample_config (sample_sys\<lparr>sy_ctx := empty_context\<rparr>) = Some (Inl (Exits code), t) \<and> (code = 0 \<or> code = 1)"
proof -
  let ?argv = "[''chi_net_ping'', ''/hosts'', ''tcp'', [], to_string_int 4192, ''client'', ''local'']"
  let ?s = "sample_sys\<lparr>sy_ctx := empty_context\<rparr>"
  obtain info where info: "ping_init sample_hshm ?argv sample_config = Inr info" "sc_test info = ''client''"
    "ri_host_names (sc_rpc info) = [''10.0.0.1'', ''10.0.0.2'']" "sc_local_only info" "ri_num_threads (sc_rpc info) = 2"
    by (simp add: ping_init_def atoi_to_string_int Let_def) (simp add: sample_hshm_def sample_config_def)
  let ?hosts = "[host_info_make ''10.0.0.1'' ''10.0.0.1'' 1, host_info_make ''10.0.0.2'' ''10.0.0.2'' 2]"
  have "build_hosts sample_hshm sample_netenv [''10.0.0.1'', ''10.0.0.2''] 1 = Inr ?hosts"
    "find_this_host sample_hshm sample_netenv ?hosts = Inr (1 + int 1)"
    by code_simp+
  then have init: "server_init sample_hshm sample_netenv info empty_context = Inr (initialised info ?hosts 1 empty_context)"
    using info by (intro server_init_found) (simp_all add: empty_context_def)
  have node: "rc_node_id (initialised info ?hosts 1 empty_context) = 1"
    using info by (simp add: initialised_def)
  have s: "rc_hosts (sy_ctx ?s) = []" "sy_trace ?s = []" "sy_ctx ?s = empty_context"
    "p_hshm sample_platform = sample_hshm" "p_env sample_platform = sample_netenv"
    by (simp_all add: sample_sys_def empty_context_def sample_platform_def)
  have names: "length (ri_host_names (sc_rpc info)) < 2 ^ 31"
    using info by simp
  have args: "ping_init (p_hshm sample_platform) ?argv sample_config = Inr info"
    "server_init (p_hshm sample_platform) (p_env sample_platform) info (sy_ctx ?s) = Inr (initialised info ?hosts 1 empty_context)"
    using info(1) init s by simp_all
  show ?thesis
    using ping_client_verdict[OF sample_bits(2) sample_roomy s(1) args(1) info(2) names args(2) node] by blast
qed

end
