(* ===== verification/Net_Find.thy ===== *)
theory Net_Find
  imports Rpc_Context
begin

text \<open>
  \<open>src/chi_net_find.cc\<close>: every MPI rank asks libfabric for the address of its machine on a
  fabric, sends it in a record of 16 bytes to rank 0, and rank 0 writes the host file. What
  libfabric and MPI answer are parameters. The list that \<open>fi_getinfo\<close> returns is tracked, to
  see which of its nodes are freed. The last section connects the written file with the
  \<open>ServerInit\<close> that reads it.
\<close>

section \<open>Definitions\<close>

text \<open>
  A node of the list: its source address, and its fabric attributes with their name; \<open>None\<close>
  is a null pointer.
\<close>

record fabric_info =
  fx_src :: "in_addr option"
  fx_fabric :: "string option option"

record find_env =
  fe_alloc_ok :: bool
  fe_getinfo :: "string \<Rightarrow> string \<Rightarrow> int \<times> fabric_info list"

text \<open>
  The loop: the result and the list from the node it stopped at (the null pointer at the end
  is the empty list).
\<close>

fun find_loop :: "string \<Rightarrow> fabric_info list \<Rightarrow> string \<times> fabric_info list" where
  "find_loop fabric [] = ([], [])"
| "find_loop fabric (info # rest) =
     (case (fx_src info, fx_fabric info) of
        (Some a, Some (Some name)) \<Rightarrow> if name = fabric then (ipv4_text a, info # rest) else find_loop fabric rest
      | _ \<Rightarrow> find_loop fabric rest)"

text \<open>
  \<open>find_ip_from_fabric\<close>: its result, the list it got and the part of it that it frees.
\<close>

definition find_ip_from_fabric ::
    "find_env \<Rightarrow> string \<Rightarrow> string \<Rightarrow> string \<Rightarrow> failure + string \<times> fabric_info list \<times> fabric_info list" where
  "find_ip_from_fabric E provider domain fabric =
     (if \<not> fe_alloc_ok E then Inl Undef
      else
        let (ret, info) = fe_getinfo E provider domain
        in if ret \<noteq> 0 then Inr ([], [], [])
           else let (result, cur) = find_loop fabric info in Inr (result, info, cur))"

definition MAX_IP_LEN :: nat where "MAX_IP_LEN = 16"

abbreviation NUL :: char where "NUL \<equiv> CHR 0x00"

definition c_string :: "string \<Rightarrow> string" where
  "c_string s = takeWhile (\<lambda>c. c \<noteq> NUL) s"

text \<open>\<open>strncpy(dst, src, n)\<close> fills all \<open>n\<close> bytes, with zeros after a shorter string.\<close>

definition strncpy :: "string \<Rightarrow> nat \<Rightarrow> string" where
  "strncpy src n = take n (c_string src @ replicate n NUL)"

definition local_record :: "string \<Rightarrow> string" where
  "local_record ip = strncpy ip (MAX_IP_LEN - 1) @ [NUL]"

text \<open>\<open>std::string(p)\<close> reads up to the first zero byte; with none left in the buffer it runs past its end.\<close>

definition string_at :: "string \<Rightarrow> nat \<Rightarrow> failure + string" where
  "string_at buf off = (if NUL \<in> set (drop off buf) then Inr (c_string (drop off buf)) else Inl Undef)"

fun write_ips :: "string \<Rightarrow> nat list \<Rightarrow> failure + string" where
  "write_ips all_ips [] = Inr []"
| "write_ips all_ips (i # is) =
     rbind (string_at all_ips (i * MAX_IP_LEN)) (\<lambda>curr_ip.
     rbind (write_ips all_ips is) (\<lambda>rest.
     Inr ((if curr_ip \<noteq> [] then curr_ip @ [CHR 0x0A] else []) @ rest)))"

text \<open>
  \<open>main\<close> of a job whose rank \<open>i\<close> runs in the \<open>i\<close>th environment: the exit code and the file that
  rank 0 writes. \<open>gather\<close> is \<open>MPI_Gather\<close>: the receive buffer from the records of all ranks.
  The sizes are \<open>int\<close>s.
\<close>

definition find_main ::
    "(string list \<Rightarrow> string) \<Rightarrow> find_env list \<Rightarrow> string list \<Rightarrow> failure + int \<times> (string \<times> string) option" where
  "find_main gather ranks argv =
     (if length argv \<noteq> 5 then Inr (1, None)
      else
        rbind (rmap (\<lambda>E. find_ip_from_fabric E (argv ! 1) (argv ! 2) (argv ! 3)) ranks) (\<lambda>found.
        if 2 ^ 31 \<le> int (length ranks) * int MAX_IP_LEN then Inl Undef
        else
          let all_ips = gather (map (\<lambda>(ip, _). local_record ip) found)
          in rbind (write_ips all_ips [0..<length ranks]) (\<lambda>text. Inr (0, Some (argv ! 4, text)))))"

section \<open>The search\<close>

text \<open>A node on the fabric with an address.\<close>

definition on_fabric :: "string \<Rightarrow> fabric_info \<Rightarrow> bool" where
  "on_fabric fabric info \<longleftrightarrow> fx_src info \<noteq> None \<and> fx_fabric info = Some (Some fabric)"

lemma find_loop_split:
  "find_loop fabric info =
     (case dropWhile (\<lambda>i. \<not> on_fabric fabric i) info of
        [] \<Rightarrow> ([], [])
      | i # rest \<Rightarrow> (ipv4_text (the (fx_src i)), i # rest))"
  by (induction info) (auto simp: on_fabric_def split: option.splits)

text \<open>What a rank finds: the text of the first node on the fabric, or nothing.\<close>

definition found_ip :: "string list \<Rightarrow> find_env \<Rightarrow> string" where
  "found_ip argv E =
     (let (ret, info) = fe_getinfo E (argv ! 1) (argv ! 2)
      in if ret \<noteq> 0 then []
         else case filter (on_fabric (argv ! 3)) info of [] \<Rightarrow> [] | i # _ \<Rightarrow> ipv4_text (the (fx_src i)))"

lemma filter_dropWhile: "filter P xs = (case dropWhile (\<lambda>x. \<not> P x) xs of [] \<Rightarrow> [] | y # ys \<Rightarrow> y # filter P ys)"
  by (induction xs) auto

lemma find_ip_found:
  assumes "fe_alloc_ok E"
  shows "\<exists>got freed. find_ip_from_fabric E (argv ! 1) (argv ! 2) (argv ! 3) = Inr (found_ip argv E, got, freed)"
proof -
  obtain ret info where e: "fe_getinfo E (argv ! Suc 0) (argv ! 2) = (ret, info)"
    by force
  define d where "d = dropWhile (\<lambda>x. \<not> on_fabric (argv ! 3) x) info"
  have "filter (on_fabric (argv ! 3)) info = (case d of [] \<Rightarrow> [] | y # ys \<Rightarrow> y # filter (on_fabric (argv ! 3)) ys)"
    unfolding d_def by (rule filter_dropWhile)
  then show ?thesis
    using assms by (cases d) (simp_all add: find_ip_from_fabric_def found_ip_def find_loop_split e flip: d_def)
qed

lemma found_ip_cases: "found_ip argv E = [] \<or> found_ip argv E \<in> range ipv4_text"
proof -
  obtain ret info where e: "fe_getinfo E (argv ! Suc 0) (argv ! 2) = (ret, info)"
    by force
  show ?thesis
    by (cases "filter (on_fabric (argv ! 3)) info") (simp_all add: found_ip_def e)
qed

section \<open>The records\<close>

lemma length_record: "length (local_record ip) = MAX_IP_LEN"
  by (simp add: local_record_def strncpy_def MAX_IP_LEN_def)

text \<open>A text without zero bytes that is short enough survives the record.\<close>

lemma record_read:
  assumes "NUL \<notin> set ip" "length ip < MAX_IP_LEN"
  shows "NUL \<in> set (local_record ip @ rest) \<and> c_string (local_record ip @ rest) = ip"
proof -
  have ip: "c_string ip = ip"
    using assms(1) by (auto simp: c_string_def takeWhile_eq_all_conv)
  have "local_record ip = ip @ replicate (MAX_IP_LEN - 1 - length ip) NUL @ [NUL]"
    using assms(2) by (simp add: local_record_def strncpy_def ip MAX_IP_LEN_def min_def)
  moreover have "\<exists>zs. replicate (MAX_IP_LEN - 1 - length ip) NUL @ [NUL] = NUL # zs"
    by (cases "MAX_IP_LEN - 1 - length ip") auto
  ultimately obtain zs where r: "local_record ip @ rest = ip @ NUL # zs @ rest"
    by auto
  have "takeWhile (\<lambda>c. c \<noteq> NUL) (ip @ NUL # zs @ rest) = ip"
    using assms(1) by (induction ip) auto
  then show ?thesis
    by (simp add: r c_string_def)
qed

lemma drop_records:
  "i \<le> length ips \<Longrightarrow> drop (i * MAX_IP_LEN) (concat (map local_record ips)) = concat (map local_record (drop i ips))"
proof (induction ips arbitrary: i)
  case (Cons ip ips)
  then show ?case
    by (cases i) (simp_all add: length_record)
qed simp

lemma string_at_record:
  assumes "i < length ips" "NUL \<notin> set (ips ! i)" "length (ips ! i) < MAX_IP_LEN"
  shows "string_at (concat (map local_record ips)) (i * MAX_IP_LEN) = Inr (ips ! i)"
proof -
  have "drop (i * MAX_IP_LEN) (concat (map local_record ips)) =
      local_record (ips ! i) @ concat (map local_record (drop (Suc i) ips))"
    using assms(1) drop_records[of i ips] by (simp add: Cons_nth_drop_Suc[symmetric])
  then show ?thesis
    using record_read[OF assms(2,3), of "concat (map local_record (drop (Suc i) ips))"] by (simp only: string_at_def if_True)
qed

definition host_lines :: "string list \<Rightarrow> string" where
  "host_lines ips = concat (map (\<lambda>ip. ip @ [CHR 0x0A]) (filter (\<lambda>ip. ip \<noteq> []) ips))"

lemma write_ips_lines:
  assumes "\<forall>i \<in> set is. string_at buf (i * MAX_IP_LEN) = Inr (f i)"
  shows "write_ips buf is = Inr (host_lines (map f is))"
  using assms by (induction "is") (simp_all add: host_lines_def)

lemma found_ip_fits: "NUL \<notin> set (found_ip argv E) \<and> length (found_ip argv E) < MAX_IP_LEN"
proof -
  have "NUL \<notin> set (ipv4_text a) \<and> length (ipv4_text a) < MAX_IP_LEN" for a
    using ipv4_text_no_nul[of a] length_ipv4_text[of a] by (simp add: MAX_IP_LEN_def INET_ADDRSTRLEN_def)
  then show ?thesis
    using found_ip_cases[of argv E] by (auto simp: MAX_IP_LEN_def)
qed

lemma find_main_writes:
  assumes "length argv = 5" "\<forall>E \<in> set ranks. fe_alloc_ok E" "int (length ranks) * 16 < 2 ^ 31"
    and "\<forall>records. gather records = concat records"
  shows "find_main gather ranks argv = Inr (0, Some (argv ! 4, host_lines (map (found_ip argv) ranks))) \<and>
    (\<forall>args. length args \<noteq> 5 \<longrightarrow> find_main gather ranks args = Inr (1, None))"
proof -
  let ?find = "\<lambda>E. find_ip_from_fabric E (argv ! 1) (argv ! 2) (argv ! 3)"
  let ?ips = "map (found_ip argv) ranks"
  define g where "g = (\<lambda>E. projr (?find E))"
  have ok: "?find E = Inr (g E) \<and> fst (g E) = found_ip argv E" if "E \<in> set ranks" for E
    using find_ip_found[of E argv] assms(2) that by (auto simp: g_def)
  have all: "rmap ?find ranks = Inr (map g ranks)"
    using ok by (intro rmap_Inr_all) blast
  have records: "map (\<lambda>(ip, _). local_record ip) (map g ranks) = map local_record ?ips"
    using ok by (auto simp: case_prod_unfold)
  have "\<forall>i \<in> set [0..<length ranks]. string_at (concat (map local_record ?ips)) (i * MAX_IP_LEN) = Inr (?ips ! i)"
    using found_ip_fits by (intro ballI string_at_record) auto
  then have "write_ips (concat (map local_record ?ips)) [0..<length ranks] = Inr (host_lines (map (\<lambda>i. ?ips ! i) [0..<length ranks]))"
    by (rule write_ips_lines)
  moreover have "map (\<lambda>i. ?ips ! i) [0..<length ranks] = ?ips"
    by (metis length_map map_nth)
  ultimately have written: "write_ips (gather (map (\<lambda>(ip, _). local_record ip) (map g ranks))) [0..<length ranks] = Inr (host_lines ?ips)"
    using assms(4) by (simp only: records)
  have small: "\<not> 2 ^ 31 \<le> int (length ranks) * int MAX_IP_LEN"
    using assms(3) by (simp add: MAX_IP_LEN_def)
  show ?thesis
    unfolding find_main_def all rbind_Inr Let_def written using assms(1) small by simp
qed

section \<open>Properties\<close>

text \<open>
  C23: the file that \<open>chi_net_find\<close> writes. With the four arguments, libfabric objects that can
  be allocated and an \<open>MPI_Gather\<close> that concatenates the records in rank order, the job ends
  with code 0 and the file has, in rank order, one line per rank whose machine has an address
  on the fabric, each line being the whole text of the first such address (no address is
  longer than a record), and nothing for the other ranks; with another number of arguments
  nothing is written and the code is 1.
\<close>

theorem find_main_writes_addresses:
  assumes "length argv = 5" "\<forall>E \<in> set ranks. fe_alloc_ok E" "int (length ranks) * 16 < 2 ^ 31"
    and "\<forall>records. gather records = concat records"
  shows "find_main gather ranks argv = Inr (0, Some (argv ! 4, host_lines (map (found_ip argv) ranks))) \<and>
    (\<forall>args. length args \<noteq> 5 \<longrightarrow> find_main gather ranks args = Inr (1, None))"
  by (rule find_main_writes[OF assms])

definition sample_find :: "in_addr option \<Rightarrow> find_env" where
  "sample_find a =
     \<lparr>fe_alloc_ok = True,
      fe_getinfo = (\<lambda>provider domain. (0, [\<lparr>fx_src = None, fx_fabric = Some (Some ''10.0.0.0/24'')\<rparr>,
        \<lparr>fx_src = Some (127, 0, 0, 1), fx_fabric = Some (Some ''lo'')\<rparr>,
        \<lparr>fx_src = a, fx_fabric = Some (Some ''10.0.0.0/24'')\<rparr>]))\<rparr>"

theorem find_main_writes_addresses_witness:
  "find_main concat [sample_find (Some (10, 0, 0, 1)), sample_find None, sample_find (Some (10, 0, 0, 2))]
     [''chi_net_find'', ''tcp'', ''lo'', ''10.0.0.0/24'', ''/hosts''] =
   Inr (0, Some (''/hosts'', ''10.0.0.1'' @ [CHR 0x0A] @ ''10.0.0.2'' @ [CHR 0x0A]))"
proof -
  let ?ranks = "[sample_find (Some (10, 0, 0, 1)), sample_find None, sample_find (Some (10, 0, 0, 2))]"
  let ?argv = "[''chi_net_find'', ''tcp'', ''lo'', ''10.0.0.0/24'', ''/hosts'']"
  have "host_lines (map (found_ip ?argv) ?ranks) = ''10.0.0.1'' @ [CHR 0x0A] @ ''10.0.0.2'' @ [CHR 0x0A]"
    by code_simp
  moreover have "find_main concat ?ranks ?argv = Inr (0, Some (?argv ! 4, host_lines (map (found_ip ?argv) ?ranks)))"
    using find_main_writes_addresses[of ?argv ?ranks concat] by (simp add: sample_find_def)
  ultimately show ?thesis
    by simp
qed

text \<open>
  C29: what \<open>find_ip_from_fabric\<close> frees. The list is walked with the pointer that is freed
  afterwards, so only the nodes from the one that matched on are freed: the nodes before it are
  lost, and when no node matches the whole list is.
\<close>

theorem find_ip_frees_tail:
  assumes "find_ip_from_fabric E provider domain fabric = Inr (ip, got, freed)"
  shows "got = takeWhile (\<lambda>i. \<not> on_fabric fabric i) got @ freed \<and>
    (freed = [] \<or> on_fabric fabric (hd freed)) \<and>
    ((\<forall>i \<in> set got. \<not> on_fabric fabric i) \<longrightarrow> freed = [] \<and> ip = [])"
proof -
  define d where "d = dropWhile (\<lambda>i. \<not> on_fabric fabric i) got"
  have "freed = d" "freed = [] \<longrightarrow> ip = []"
    using assms
    by (auto simp: find_ip_from_fabric_def find_loop_split Let_def d_def[symmetric] split: if_splits prod.splits list.splits)
      (auto simp: d_def)
  then have "freed = dropWhile (\<lambda>i. \<not> on_fabric fabric i) got" "freed = [] \<longrightarrow> ip = []"
    by (simp_all add: d_def)
  then show ?thesis
    using hd_dropWhile[of "\<lambda>i. \<not> on_fabric fabric i" got] by auto
qed

theorem find_ip_frees_tail_witness:
  "\<exists>ip got freed. find_ip_from_fabric (sample_find (Some (10, 0, 0, 1))) ''tcp'' ''lo'' ''10.0.0.0/24'' = Inr (ip, got, freed) \<and>
     length got = 3 \<and> length freed = 1"
proof -
  let ?r = "find_ip_from_fabric (sample_find (Some (10, 0, 0, 1))) ''tcp'' ''lo'' ''10.0.0.0/24''"
  have "(case ?r of Inr (ip, got, freed) \<Rightarrow> length got = 3 \<and> length (takeWhile (\<lambda>i. \<not> on_fabric ''10.0.0.0/24'' i) got) = 2
    | Inl _ \<Rightarrow> False)"
    by code_simp
  then obtain ip got freed where r: "?r = Inr (ip, got, freed)" "length got = 3"
    "length (takeWhile (\<lambda>i. \<not> on_fabric ''10.0.0.0/24'' i) got) = 2"
    by (auto split: sum.splits)
  have "length got = length (takeWhile (\<lambda>i. \<not> on_fabric ''10.0.0.0/24'' i) got) + length freed"
    using find_ip_frees_tail[OF r(1)] by (metis length_append)
  with r show ?thesis
    by auto
qed

section \<open>From the written file to the cluster\<close>

text \<open>The names that a reader of one name per line gets from the file.\<close>

definition host_names :: "string list \<Rightarrow> string list" where
  "host_names ips = filter (\<lambda>ip. ip \<noteq> []) ips"

text \<open>The lines of a text; the last one may lack its newline.\<close>

fun split_lines :: "string \<Rightarrow> string \<Rightarrow> string list" where
  "split_lines line [] = (if line = [] then [] else [line])"
| "split_lines line (ch # text) =
     (if ch = CHR 0x0A then line # split_lines [] text else split_lines (line @ [ch]) text)"

lemma looks_like_ip_text: "looks_like_ip (ipv4_text a)"
  using ipv4_text_dots[of a] ipv4_text_chars[of _ a] by (auto simp: looks_like_ip_def list_all_iff)

lemma found_names_resolve: "\<forall>n \<in> set (host_names (map (found_ip argv) ranks)). get_ip_address H E n = Inr n"
  using found_ip_cases looks_like_ip_text by (fastforce simp: host_names_def get_ip_address_def)

lemma found_names_initialise:
  assumes "ri_host_names (sc_rpc cfg) = host_names (map (found_ip argv) ranks)" "int (length ranks) + 1 < 2 ^ 31"
    and "F \<in> set ranks" "found_ip argv F \<noteq> []" "local_ip E (found_ip argv F)"
    and "fi_alloc_ok E" "fi_getinfo_ret E = 0" "rc_hosts c = []" "\<not> sc_local_only cfg"
  shows "\<exists>c' k. server_init H E cfg c = Inr c' \<and> rc_inv c' \<and>
    map hi_ip_addr (rc_hosts c') = ri_host_names (sc_rpc cfg) \<and>
    k < length (rc_hosts c') \<and> rc_node_id c' = of_nat (k + 1) \<and>
    local_ip E (hi_ip_addr (rc_hosts c' ! k)) \<and> (\<forall>j < k. \<not> local_ip E (hi_ip_addr (rc_hosts c' ! j)))"
proof -
  let ?names = "ri_host_names (sc_rpc cfg)"
  have small: "length ?names + 1 < 2 ^ 31"
  proof -
    have "length ?names \<le> length ranks"
      using length_filter_le[of "\<lambda>ip. ip \<noteq> []" "map (found_ip argv) ranks"] by (simp add: assms(1) host_names_def)
    moreover have "length ranks + 1 < 2 ^ 31"
      using assms(2) by simp
    ultimately show ?thesis
      by simp
  qed
  have self: "get_ip_address H E n = Inr n" if "n \<in> set ?names" for n
    using that found_names_resolve unfolding assms(1) by blast
  then have names: "rmap (get_ip_address H E) ?names = Inr ?names"
    using rmap_Inr_all[of ?names "get_ip_address H E" "\<lambda>n. n"] by simp
  have "found_ip argv F \<in> set ?names"
    using assms(1,3,4) by (auto simp: host_names_def)
  then have "\<exists>k < length ?names. local_ip E (?names ! k)"
    using assms(5) by (metis in_set_conv_nth)
  then obtain k where k: "k < length ?names" "local_ip E (?names ! k)" "\<forall>j < k. \<not> local_ip E (?names ! j)"
    using exists_least_iff[of "\<lambda>k. k < length ?names \<and> local_ip E (?names ! k)"] by (metis order.strict_trans)
  obtain hosts where h: "build_hosts H E ?names 1 = Inr hosts" "map hi_ip_addr hosts = ?names"
    using rmap_build_hosts[OF names] by blast
  have len: "length hosts = length ?names"
    using h(2) by (metis length_map)
  have at: "hi_ip_addr (hosts ! j) = ?names ! j" if "j < length hosts" for j
    using h(2) that by (metis nth_map)
  have "find_this_host H E hosts = Inr (1 + int k)"
    unfolding find_this_host_def
    using find_this_host_from_first[OF assms(6,7), of k hosts 1 H] k small len at by simp
  then have "server_init H E cfg c = Inr (initialised cfg hosts k c)"
    using server_init_found[OF assms(8) _ h(1)] k(1) small len by simp
  moreover have "rc_inv (initialised cfg hosts k c)"
    using initialised_inv[OF h(1)] small k(1) len by simp
  moreover have "rc_hosts (initialised cfg hosts k c) = hosts" "rc_node_id (initialised cfg hosts k c) = of_nat (k + 1)"
    using assms(9) by (simp_all add: initialised_def)
  ultimately show ?thesis
    using h(2) k len at by (intro exI[of _ "initialised cfg hosts k c"] exI[of _ k]) simp
qed

lemma split_lines_line: "CHR 0x0A \<notin> set ip \<Longrightarrow> split_lines pre (ip @ CHR 0x0A # rest) = (pre @ ip) # split_lines [] rest"
  by (induction ip arbitrary: pre) auto

lemma split_lines_host_lines: "\<forall>ip \<in> set ips. CHR 0x0A \<notin> set ip \<Longrightarrow> split_lines [] (host_lines ips) = host_names ips"
  by (induction ips) (simp_all add: host_lines_def host_names_def split_lines_line)

lemma found_ip_one_line: "CHR 0x0A \<notin> set (found_ip argv E)"
proof -
  have "CHR 0x0A \<notin> set (ipv4_text a)" for a
    using ipv4_text_chars[of "CHR 0x0A" a] by (auto simp: is_digit_def)
  then show ?thesis
    using found_ip_cases[of argv E] by auto
qed

text \<open>
  C24: a host file made by \<open>chi_net_find\<close> brings up the cluster. When the configuration lists
  the lines of the written file, every name is taken as an address without asking the resolver,
  and on every machine whose search found an address that its libfabric also reports to
  \<open>RpcContext\<close>, \<open>ServerInit\<close> returns and the node it identifies as itself is the first entry
  of the file with an address of this machine.
\<close>

theorem found_hosts_initialise:
  assumes "length argv = 5" "\<forall>E \<in> set ranks. fe_alloc_ok E" "int (length ranks) * 16 < 2 ^ 31"
    and "\<forall>records. gather records = concat records"
    and "find_main gather ranks argv = Inr (0, Some (path, text))" "ri_host_names (sc_rpc cfg) = split_lines [] text"
    and "F \<in> set ranks" "found_ip argv F \<noteq> []" "local_ip E (found_ip argv F)"
    and "fi_alloc_ok E" "fi_getinfo_ret E = 0" "rc_hosts c = []" "\<not> sc_local_only cfg"
  shows "\<exists>c' k. server_init H E cfg c = Inr c' \<and> rc_inv c' \<and>
    map hi_ip_addr (rc_hosts c') = split_lines [] text \<and>
    k < length (rc_hosts c') \<and> rc_node_id c' = of_nat (k + 1) \<and>
    local_ip E (hi_ip_addr (rc_hosts c' ! k)) \<and> (\<forall>j < k. \<not> local_ip E (hi_ip_addr (rc_hosts c' ! j)))"
proof -
  have "text = host_lines (map (found_ip argv) ranks)"
    using find_main_writes[OF assms(1-4)] assms(5) by simp
  then have names: "ri_host_names (sc_rpc cfg) = host_names (map (found_ip argv) ranks)"
    using assms(6) found_ip_one_line split_lines_host_lines[of "map (found_ip argv) ranks"] by simp
  have "int (length ranks) + 1 < 2 ^ 31"
    using assms(3) by simp
  from found_names_initialise[OF names this assms(7-13), of H] show ?thesis
    unfolding assms(6) .
qed

theorem found_hosts_initialise_witness:
  "\<exists>c'. server_init sample_hshm sample_netenv (sample_cluster [''10.0.0.1'', ''10.0.0.2''] False) empty_context = Inr c' \<and>
     map hi_ip_addr (rc_hosts c') = [''10.0.0.1'', ''10.0.0.2'']"
proof -
  let ?argv = "[''chi_net_find'', ''tcp'', ''lo'', ''10.0.0.0/24'', ''/hosts'']"
  let ?F = "sample_find (Some (10, 0, 0, 2))"
  let ?ranks = "[sample_find (Some (10, 0, 0, 1)), sample_find None, ?F]"
  let ?cfg = "sample_cluster [''10.0.0.1'', ''10.0.0.2''] False"
  have names: "host_names (map (found_ip ?argv) ?ranks) = [''10.0.0.1'', ''10.0.0.2'']" "found_ip ?argv ?F = ''10.0.0.2''"
    by code_simp+
  have "any_src_addr ''10.0.0.2'' (fi_src_addrs sample_netenv)"
    by code_simp
  then have "local_ip sample_netenv (found_ip ?argv ?F)"
    unfolding names local_ip_def any_src_addr_iff .
  moreover have cfg: "ri_host_names (sc_rpc ?cfg) = [''10.0.0.1'', ''10.0.0.2'']" "\<not> sc_local_only ?cfg" "rc_hosts empty_context = []"
    "fi_alloc_ok sample_netenv" "fi_getinfo_ret sample_netenv = 0"
    by (simp_all add: sample_netenv_def empty_context_def sample_cluster_def)
  moreover have "host_lines (map (found_ip ?argv) ?ranks) = ''10.0.0.1'' @ [CHR 0x0A] @ ''10.0.0.2'' @ [CHR 0x0A]"
    "split_lines [] (''10.0.0.1'' @ [CHR 0x0A] @ ''10.0.0.2'' @ [CHR 0x0A]) = [''10.0.0.1'', ''10.0.0.2'']"
    by code_simp+
  moreover have "find_main concat ?ranks ?argv = Inr (0, Some (?argv ! 4, host_lines (map (found_ip ?argv) ?ranks)))"
    using find_main_writes[of ?argv ?ranks concat] by (simp add: sample_find_def)
  ultimately have "\<exists>c' k. server_init sample_hshm sample_netenv ?cfg empty_context = Inr c' \<and> rc_inv c' \<and>
      map hi_ip_addr (rc_hosts c') = split_lines [] (host_lines (map (found_ip ?argv) ?ranks)) \<and>
      k < length (rc_hosts c') \<and> rc_node_id c' = of_nat (k + 1) \<and>
      local_ip sample_netenv (hi_ip_addr (rc_hosts c' ! k)) \<and>
      (\<forall>j < k. \<not> local_ip sample_netenv (hi_ip_addr (rc_hosts c' ! j)))"
    using names
    by (intro found_hosts_initialise[of ?argv ?ranks concat "?argv ! 4" _ ?cfg ?F]) (simp_all add: sample_find_def)
  moreover have "split_lines [] (host_lines (map (found_ip ?argv) ?ranks)) = [''10.0.0.1'', ''10.0.0.2'']"
    by code_simp
  ultimately show ?thesis
    by (elim exE conjE) (intro exI conjI, assumption, simp)
qed

end
