(* ===== verification/Full_Ping.thy ===== *)
theory Full_Ping
  imports Hshm_Lib
begin

text \<open>
  \<open>src/fullping.cc\<close>, the ping over plain libfabric. libfabric is a parameter: what a call
  returns may depend on all that happened before it. Every call is an event of the log, and
  the objects that are allocated or open are a function of the log, so what a run leaves
  behind is a statement about its log. Using an object that is not live is undefined.
\<close>

section \<open>The library\<close>

datatype fi_kind = K_info | K_fabric | K_domain | K_ep | K_pep

text \<open>An object: its kind and its number, the length of the log when it was made.\<close>

type_synonym fi_obj = "fi_kind \<times> nat"

text \<open>
  The arguments of \<open>fi_getinfo\<close> with the two attributes of the hints that the program sets;
  \<open>None\<close> is a null pointer.
\<close>

record fi_query =
  fq_version :: "nat \<times> nat"
  fq_node :: "string option"
  fq_service :: "string option"
  fq_source :: bool
  fq_prov_name :: "string option"
  fq_domain_name :: "string option"

datatype fi_call =
    Fi_allocinfo
  | Fi_getinfo fi_query fi_obj
  | Fi_fabric fi_obj
  | Fi_domain fi_obj fi_obj
  | Fi_endpoint fi_obj fi_obj
  | Fi_passive_ep fi_obj fi_obj
  | Fi_listen fi_obj
  | Fi_send fi_obj string
  | Fi_recv fi_obj nat
  | Fi_close fi_obj
  | Fi_freeinfo fi_obj

text \<open>A call and its result (0 for an object, when the call gives a pointer), or a
  written line, without its newline.\<close>

datatype fi_event = Called fi_call int | Out_line string | Err_line string

text \<open>
  A node of the list of \<open>fi_getinfo\<close>, for the listing: \<open>fabric_attr\<close> with its \<open>prov_name\<close> and
  \<open>name\<close>, and \<open>domain_attr\<close> with its \<open>name\<close>; \<open>None\<close> is null.
\<close>

record fi_attrs =
  fa_fabric :: "(string option \<times> string option) option"
  fa_domain :: "string option option"

text \<open>The log has the newest event first.\<close>

record libfabric =
  lf_reply :: "fi_event list \<Rightarrow> fi_call \<Rightarrow> int"
  lf_infos :: "fi_event list \<Rightarrow> fi_attrs list"
  lf_strerror :: "int \<Rightarrow> string"

fun call_args :: "fi_call \<Rightarrow> fi_obj list" where
  "call_args Fi_allocinfo = []"
| "call_args (Fi_getinfo q hints) = [hints]"
| "call_args (Fi_fabric info) = [info]"
| "call_args (Fi_domain fabric info) = [fabric, info]"
| "call_args (Fi_endpoint domain info) = [domain, info]"
| "call_args (Fi_passive_ep fabric info) = [fabric, info]"
| "call_args (Fi_listen pep) = [pep]"
| "call_args (Fi_send ep buf) = [ep]"
| "call_args (Fi_recv ep n) = [ep]"
| "call_args (Fi_close x) = [x]"
| "call_args (Fi_freeinfo x) = [x]"

text \<open>What a successful call makes.\<close>

fun call_makes :: "fi_call \<Rightarrow> fi_kind option" where
  "call_makes Fi_allocinfo = Some K_info"
| "call_makes (Fi_getinfo q hints) = Some K_info"
| "call_makes (Fi_fabric info) = Some K_fabric"
| "call_makes (Fi_domain fabric info) = Some K_domain"
| "call_makes (Fi_endpoint domain info) = Some K_ep"
| "call_makes (Fi_passive_ep fabric info) = Some K_pep"
| "call_makes _ = None"

text \<open>The live objects after a log, newest first. \<open>fi_freeinfo\<close> returns nothing and always frees.\<close>

fun live_objs :: "fi_event list \<Rightarrow> fi_obj list" where
  "live_objs [] = []"
| "live_objs (Called (Fi_freeinfo x) r # es) = remove1 x (live_objs es)"
| "live_objs (Called (Fi_close x) r # es) = (if r = 0 then remove1 x (live_objs es) else live_objs es)"
| "live_objs (Called c r # es) =
     (case call_makes c of
        Some k \<Rightarrow> if r = 0 then (k, length es) # live_objs es else live_objs es
      | None \<Rightarrow> live_objs es)"
| "live_objs (Out_line s # es) = live_objs es"
| "live_objs (Err_line s # es) = live_objs es"

section \<open>Steps\<close>

text \<open>A call: its result and the object it made, if it made one.\<close>

definition fi_call_step :: "libfabric \<Rightarrow> fi_call \<Rightarrow> (fi_event list, int \<times> fi_obj) step" where
  "fi_call_step L c log =
     (if list_all (\<lambda>x. x \<in> set (live_objs log)) (call_args c)
      then let r = lf_reply L log c
           in (Inr (r, (case call_makes c of Some k \<Rightarrow> (k, length log) | None \<Rightarrow> (K_info, 0))), Called c r # log)
      else (Inl Undef, log))"

definition out_line :: "string \<Rightarrow> (fi_event list, unit) step" where
  "out_line s log = (Inr (), Out_line s # log)"

definition err_line :: "string \<Rightarrow> (fi_event list, unit) step" where
  "err_line s log = (Inr (), Err_line s # log)"

text \<open>\<open>fprintf(stderr, "<what>: %s\\n", fi_strerror(-ret))\<close>; the negation of the least \<open>int\<close> overflows.\<close>

definition err_code :: "libfabric \<Rightarrow> string \<Rightarrow> int \<Rightarrow> (fi_event list, unit) step" where
  "err_code L what ret =
     (if ret = - (2 ^ 31) then sfail Undef else err_line (what @ '': '' @ lf_strerror L (- ret)))"

text \<open>Statements in sequence: a call for its effect only.\<close>

definition fi_do :: "libfabric \<Rightarrow> fi_call \<Rightarrow> (fi_event list, 'a) step \<Rightarrow> (fi_event list, 'a) step" where
  "fi_do L c k = sbind (fi_call_step L c) (\<lambda>_. k)"

text \<open>The result of \<open>fi_send\<close> and \<open>fi_recv\<close> is an \<open>ssize_t\<close> that is stored in an \<open>int\<close>.\<close>

definition to_int :: "int \<Rightarrow> int" where
  "to_int r = signed_take_bit 31 r"

section \<open>\<open>PrintInfo\<close>\<close>

definition print_attrs :: "fi_attrs \<Rightarrow> (fi_event list, unit) step" where
  "print_attrs cur =
     (case (fa_fabric cur, fa_domain cur) of
        (Some (Some prov_name, Some fabric_name), Some (Some domain_name)) \<Rightarrow>
          sbind (out_line ('' Fabric: '' @ fabric_name)) (\<lambda>_.
          sbind (out_line (''  Provider: '' @ prov_name)) (\<lambda>_.
          out_line (''  Domain: '' @ domain_name)))
      | _ \<Rightarrow> sfail Undef)"

fun print_loop :: "fi_attrs list \<Rightarrow> (fi_event list, unit) step" where
  "print_loop [] = sret ()"
| "print_loop (cur # rest) = sbind (print_attrs cur) (\<lambda>_. print_loop rest)"

text \<open>The list is the one that the last call of the log returned.\<close>

definition print_list :: "libfabric \<Rightarrow> (fi_event list, unit) step" where
  "print_list L log = print_loop (lf_infos L log) log"

definition any_query :: fi_query where
  "any_query =
     \<lparr>fq_version = (1, 14), fq_node = None, fq_service = None, fq_source = False,
      fq_prov_name = None, fq_domain_name = None\<rparr>"

definition print_info :: "libfabric \<Rightarrow> string list \<Rightarrow> string \<Rightarrow> (fi_event list, int) step" where
  "print_info L hosts port =
     sbind (fi_call_step L Fi_allocinfo) (\<lambda>(r, hints).
     if r \<noteq> 0 then sbind (err_line ''Failed to allocate hints'') (\<lambda>_. sret 1)
     else
       sbind (fi_call_step L (Fi_getinfo any_query hints)) (\<lambda>(ret, info).
       if ret \<noteq> 0 then
         sbind (err_code L ''fi_getinfo failed'' ret) (\<lambda>_.
         fi_do L (Fi_freeinfo hints) (sret 1))
       else
         sbind (print_list L) (\<lambda>_.
         fi_do L (Fi_freeinfo hints) (fi_do L (Fi_freeinfo info) (sret 0)))))"

section \<open>\<open>PingAll\<close>\<close>

definition send_buf :: string where
  "send_buf = ''ping'' @ replicate 1020 (CHR 0x00)"

definition host_query :: "string \<Rightarrow> string \<Rightarrow> string \<Rightarrow> string \<Rightarrow> fi_query" where
  "host_query domain provider port host =
     \<lparr>fq_version = (1, 14), fq_node = Some host, fq_service = Some port, fq_source = False,
      fq_prov_name = Some provider, fq_domain_name = Some domain\<rparr>"

text \<open>The part of the body with an open endpoint: send, receive, close everything.\<close>

definition ping_endpoint :: "libfabric \<Rightarrow> fi_obj \<Rightarrow> fi_obj \<Rightarrow> fi_obj \<Rightarrow> fi_obj \<Rightarrow> (fi_event list, unit) step" where
  "ping_endpoint L info fabric domain_id ep =
     sbind (fi_call_step L (Fi_send ep send_buf)) (\<lambda>(sent, _).
     sbind (if to_int sent \<noteq> 0 then err_code L ''fi_send failed'' (to_int sent) else sret ()) (\<lambda>_.
     sbind (fi_call_step L (Fi_recv ep 1024)) (\<lambda>(got, _).
     sbind (if to_int got \<noteq> 0 then err_code L ''fi_recv failed'' (to_int got) else sret ()) (\<lambda>_.
     fi_do L (Fi_close ep) (fi_do L (Fi_close domain_id) (fi_do L (Fi_close fabric) (fi_do L (Fi_freeinfo info) (sret ()))))))))"

text \<open>The body of the loop over the hosts; each \<open>continue\<close> is the end of a branch.\<close>

definition ping_host :: "libfabric \<Rightarrow> string \<Rightarrow> string \<Rightarrow> string \<Rightarrow> fi_obj \<Rightarrow> string \<Rightarrow> (fi_event list, unit) step" where
  "ping_host L domain provider port hints host =
     sbind (fi_call_step L (Fi_getinfo (host_query domain provider port host) hints)) (\<lambda>(ret, info).
     if ret \<noteq> 0 then err_code L (''fi_getinfo failed for host '' @ host) ret
     else
       sbind (fi_call_step L (Fi_fabric info)) (\<lambda>(ret, fabric).
       if ret \<noteq> 0 then
         sbind (err_code L ''fi_fabric failed'' ret) (\<lambda>_. fi_do L (Fi_freeinfo info) (sret ()))
       else
         sbind (fi_call_step L (Fi_domain fabric info)) (\<lambda>(ret, domain_id).
         if ret \<noteq> 0 then
           sbind (err_code L ''fi_domain failed'' ret) (\<lambda>_.
           fi_do L (Fi_close fabric) (fi_do L (Fi_freeinfo info) (sret ())))
         else
           sbind (fi_call_step L (Fi_endpoint domain_id info)) (\<lambda>(ret, ep).
           if ret \<noteq> 0 then
             sbind (err_code L ''fi_endpoint failed'' ret) (\<lambda>_.
             fi_do L (Fi_close domain_id) (fi_do L (Fi_close fabric) (fi_do L (Fi_freeinfo info) (sret ()))))
           else ping_endpoint L info fabric domain_id ep))))"

fun ping_hosts :: "libfabric \<Rightarrow> string \<Rightarrow> string \<Rightarrow> string \<Rightarrow> fi_obj \<Rightarrow> string list \<Rightarrow> (fi_event list, unit) step" where
  "ping_hosts L domain provider port hints [] = sret ()"
| "ping_hosts L domain provider port hints (host # hosts) =
     sbind (ping_host L domain provider port hints host) (\<lambda>_. ping_hosts L domain provider port hints hosts)"

definition fabric_ping_all ::
    "libfabric \<Rightarrow> string list \<Rightarrow> string \<Rightarrow> string \<Rightarrow> string \<Rightarrow> (fi_event list, int) step" where
  "fabric_ping_all L hosts domain provider port =
     sbind (fi_call_step L Fi_allocinfo) (\<lambda>(r, hints).
     if r \<noteq> 0 then sbind (err_line ''Failed to allocate hints'') (\<lambda>_. sret 1)
     else
       sbind (ping_hosts L domain provider port hints hosts) (\<lambda>_.
       fi_do L (Fi_freeinfo hints) (sret 0)))"

section \<open>\<open>LaunchServer\<close>\<close>

definition source_query :: "string \<Rightarrow> string \<Rightarrow> string \<Rightarrow> fi_query" where
  "source_query domain provider port =
     \<lparr>fq_version = (1, 14), fq_node = None, fq_service = Some port, fq_source = True,
      fq_prov_name = Some provider, fq_domain_name = Some domain\<rparr>"

definition launch_server ::
    "libfabric \<Rightarrow> string list \<Rightarrow> string \<Rightarrow> string \<Rightarrow> string \<Rightarrow> (fi_event list, int) step" where
  "launch_server L hosts domain provider port =
     sbind (fi_call_step L Fi_allocinfo) (\<lambda>(r, hints).
     if r \<noteq> 0 then sbind (err_line ''Failed to allocate hints'') (\<lambda>_. sret 1)
     else
       sbind (fi_call_step L (Fi_getinfo (source_query domain provider port) hints)) (\<lambda>(ret, info).
       if ret \<noteq> 0 then
         sbind (err_code L ''fi_getinfo failed'' ret) (\<lambda>_.
         fi_do L (Fi_freeinfo hints) (sret 1))
       else
         sbind (fi_call_step L (Fi_fabric info)) (\<lambda>(ret, fabric).
         if ret \<noteq> 0 then
           sbind (err_code L ''fi_fabric failed'' ret) (\<lambda>_.
           fi_do L (Fi_freeinfo info) (fi_do L (Fi_freeinfo hints) (sret 1)))
         else
           sbind (fi_call_step L (Fi_domain fabric info)) (\<lambda>(ret, domain_id).
           if ret \<noteq> 0 then
             sbind (err_code L ''fi_domain failed'' ret) (\<lambda>_.
             fi_do L (Fi_close fabric) (fi_do L (Fi_freeinfo info) (fi_do L (Fi_freeinfo hints) (sret 1))))
           else
             sbind (fi_call_step L (Fi_passive_ep fabric info)) (\<lambda>(ret, pep).
             if ret \<noteq> 0 then
               sbind (err_code L ''fi_passive_ep failed'' ret) (\<lambda>_.
               fi_do L (Fi_close domain_id) (fi_do L (Fi_close fabric)
                 (fi_do L (Fi_freeinfo info) (fi_do L (Fi_freeinfo hints) (sret 1)))))
             else
               sbind (fi_call_step L (Fi_listen pep)) (\<lambda>(ret, _).
               if ret \<noteq> 0 then
                 sbind (err_code L ''fi_listen failed'' ret) (\<lambda>_.
                 fi_do L (Fi_close pep) (fi_do L (Fi_close domain_id) (fi_do L (Fi_close fabric)
                   (fi_do L (Fi_freeinfo info) (fi_do L (Fi_freeinfo hints) (sret 1))))))
               else sret 0))))))"

section \<open>\<open>main\<close>\<close>

text \<open>
  What \<open>ParseHostfile\<close> returns is dropped. Without a known mode control reaches the end of
  \<open>main\<close>, which returns 0.
\<close>

definition full_hosts :: "hshm \<Rightarrow> string \<Rightarrow> string list" where
  "full_hosts H hostfile_path =
     (let hosts = [];
          _ = (if hostfile_path \<noteq> [] then Some (parse_hostfile H hostfile_path) else None)
      in if length hosts = 0 then hosts @ [''localhost''] else hosts)"

definition full_main :: "hshm \<Rightarrow> libfabric \<Rightarrow> string list \<Rightarrow> (fi_event list, int) step" where
  "full_main H L argv =
     (if length argv < 6 then
        sbind (slift (if argv = [] then Inl Undef else Inr (argv ! 0))) (\<lambda>prog.
        sbind (err_line (''Usage: '' @ prog @ '' <hostfile> <domain> <provider> <port> <mode>'')) (\<lambda>_. sret 1))
      else
        let domain = argv ! 2; provider = argv ! 3; port = argv ! 4; mode = argv ! 5;
            hosts = full_hosts H (argv ! 1)
        in if mode = ''server'' then launch_server L hosts domain provider port
           else if mode = ''client'' then fabric_ping_all L hosts domain provider port
           else sret 0)"

section \<open>Evaluating a run\<close>

text \<open>
  \<open>runs m log Q\<close>: the step returns a value, and value and log satisfy \<open>Q\<close>. The equations
  below evaluate it over the statements.
\<close>

definition runs :: "(fi_event list, 'a) step \<Rightarrow> fi_event list \<Rightarrow> ('a \<Rightarrow> fi_event list \<Rightarrow> bool) \<Rightarrow> bool" where
  "runs m log Q \<longleftrightarrow> (case m log of (Inr x, log') \<Rightarrow> Q x log' | _ \<Rightarrow> False)"

lemma runs_iff: "runs m log Q \<longleftrightarrow> (\<exists>x log'. m log = (Inr x, log') \<and> Q x log')"
  by (auto simp: runs_def split: prod.splits sum.splits)

lemma runs_mono: "runs m log Q \<Longrightarrow> (\<And>x log'. Q x log' \<Longrightarrow> Q' x log') \<Longrightarrow> runs m log Q'"
  by (auto simp: runs_iff)

named_theorems run_simps \<open>evaluation of \<open>runs\<close>\<close>

lemma runs_sbind [run_simps]: "runs (sbind m f) log Q \<longleftrightarrow> runs m log (\<lambda>x log'. runs (f x) log' Q)"
  by (auto simp: runs_def sbind_def split: prod.splits sum.splits)

lemma runs_sret [run_simps]: "runs (sret x) log Q \<longleftrightarrow> Q x log"
  by (simp add: runs_def sret_def)

lemma runs_if [run_simps]: "runs (if b then m else m') log Q \<longleftrightarrow> (if b then runs m log Q else runs m' log Q)"
  by simp

lemma runs_split [run_simps]: "runs (case p of (x, y) \<Rightarrow> f x y) log Q \<longleftrightarrow> (case p of (x, y) \<Rightarrow> runs (f x y) log Q)"
  by (simp add: case_prod_unfold)

lemma runs_print_list [run_simps]: "runs (print_list L) log Q \<longleftrightarrow> runs (print_loop (lf_infos L log)) log Q"
  by (simp add: runs_def print_list_def)

lemma runs_out [run_simps]: "runs (out_line s) log Q \<longleftrightarrow> Q () (Out_line s # log)"
  by (simp add: runs_def out_line_def)

lemma runs_err [run_simps]: "runs (err_line s) log Q \<longleftrightarrow> Q () (Err_line s # log)"
  by (simp add: runs_def err_line_def)

lemma runs_err_code [run_simps]:
  "ret \<noteq> - (2 ^ 31) \<Longrightarrow> runs (err_code L what ret) log Q \<longleftrightarrow> Q () (Err_line (what @ '': '' @ lf_strerror L (- ret)) # log)"
  by (simp add: err_code_def runs_err)

lemma runs_call [run_simps]:
  "list_all (\<lambda>x. x \<in> set (live_objs log)) (call_args c) \<Longrightarrow>
   runs (fi_call_step L c) log Q \<longleftrightarrow>
   Q (lf_reply L log c, (case call_makes c of Some k \<Rightarrow> (k, length log) | None \<Rightarrow> (K_info, 0)))
     (Called c (lf_reply L log c) # log)"
  by (simp add: runs_def fi_call_step_def Let_def)

lemma runs_do [run_simps]: "runs (fi_do L c k) log Q \<longleftrightarrow> runs (fi_call_step L c) log (\<lambda>_ log'. runs k log' Q)"
  by (simp add: fi_do_def runs_sbind)

text \<open>
  What libfabric documents: results are 0 or small codes, and closing the object that was
  opened last succeeds (an object with others opened from it is busy).
\<close>

definition libfabric_laws :: "libfabric \<Rightarrow> bool" where
  "libfabric_laws L \<longleftrightarrow>
     (\<forall>log c. - (2 ^ 31) < lf_reply L log c \<and> lf_reply L log c < 2 ^ 31) \<and>
     (\<forall>log x rest. live_objs log = x # rest \<longrightarrow> lf_reply L log (Fi_close x) = 0)"

lemma reply_int:
  assumes "libfabric_laws L"
  shows "lf_reply L log c \<noteq> - (2 ^ 31)" "to_int (lf_reply L log c) = lf_reply L log c"
proof -
  have "- (2 ^ 31) < lf_reply L log c \<and> lf_reply L log c < 2 ^ 31"
    using assms by (simp add: libfabric_laws_def)
  then show "lf_reply L log c \<noteq> - (2 ^ 31)" "to_int (lf_reply L log c) = lf_reply L log c"
    by (simp_all add: to_int_def signed_take_bit_int_eq_self_iff)
qed

lemma close_newest:
  "libfabric_laws L \<Longrightarrow> live_objs log \<noteq> [] \<Longrightarrow> hd (live_objs log) = x \<Longrightarrow> lf_reply L log (Fi_close x) = 0"
  by (cases "live_objs log") (auto simp: libfabric_laws_def)

text \<open>The \<open>fi_getinfo\<close> calls of a log, in order.\<close>

fun queries :: "fi_event list \<Rightarrow> fi_query list" where
  "queries [] = []"
| "queries (Called (Fi_getinfo q hints) r # es) = queries es @ [q]"
| "queries (_ # es) = queries es"

lemma ping_host_releases:
  assumes "libfabric_laws L" "hints \<in> set (live_objs log)"
  shows "runs (ping_host L domain provider port hints host) log
    (\<lambda>_ log'. live_objs log' = live_objs log \<and> queries log' = queries log @ [host_query domain provider port host])"
  using assms(2) reply_int[OF assms(1)] close_newest[OF assms(1)]
  by (simp add: ping_host_def ping_endpoint_def run_simps)

lemma ping_hosts_releases:
  assumes "libfabric_laws L" "hints \<in> set (live_objs log)"
  shows "runs (ping_hosts L domain provider port hints hosts) log
    (\<lambda>_ log'. live_objs log' = live_objs log \<and>
       queries log' = queries log @ map (host_query domain provider port) hosts)"
  using assms(2)
proof (induction hosts arbitrary: log)
  case (Cons host hosts)
  show ?case
    unfolding ping_hosts.simps runs_sbind
    by (rule runs_mono[OF ping_host_releases[OF assms(1) Cons.prems]], rule runs_mono[OF Cons.IH])
      (use Cons.prems in auto)
qed (simp add: run_simps)

lemma fabric_ping_all_runs:
  assumes "libfabric_laws L"
  shows "runs (fabric_ping_all L hosts domain provider port) log
    (\<lambda>r log'. live_objs log' = live_objs log \<and>
       (if lf_reply L log Fi_allocinfo = 0
        then r = 0 \<and> queries log' = queries log @ map (host_query domain provider port) hosts
        else r = 1 \<and> queries log' = queries log))"
proof (cases "lf_reply L log Fi_allocinfo = 0")
  case True
  let ?log = "Called Fi_allocinfo 0 # log"
  have "runs (ping_hosts L domain provider port (K_info, length log) hosts) ?log
      (\<lambda>_ log'. live_objs log' = (K_info, length log) # live_objs log \<and>
         queries log' = queries log @ map (host_query domain provider port) hosts)"
    using ping_hosts_releases[OF assms, of "(K_info, length log)" ?log] by simp
  then have "runs (ping_hosts L domain provider port (K_info, length log) hosts) ?log
      (\<lambda>_ log'. runs (fi_do L (Fi_freeinfo (K_info, length log)) (sret 0)) log'
         (\<lambda>r log'. live_objs log' = live_objs log \<and> r = (0::int) \<and>
            queries log' = queries log @ map (host_query domain provider port) hosts))"
    by (rule runs_mono) (simp add: run_simps)
  with True show ?thesis
    by (simp add: fabric_ping_all_def runs_sbind runs_call)
qed (simp add: fabric_ping_all_def run_simps)

section \<open>Properties\<close>

text \<open>
  C25: \<open>PingAll\<close> of \<open>fullping.cc\<close> leaks nothing on any of its paths. Whatever libfabric
  replies to the calls, the run never uses or closes an object that is not live, asks for every
  host once and in order (an error with one host does not stop the loop), and leaves exactly the
  objects live that were before; the code is 1 only when the hints could not be allocated,
  so it is 0 also when no host answered.
\<close>

theorem fabric_ping_all_releases:
  assumes "libfabric_laws L"
  shows "\<exists>r log'. fabric_ping_all L hosts domain provider port log = (Inr r, log') \<and>
    live_objs log' = live_objs log \<and>
    (if lf_reply L log Fi_allocinfo = 0
     then r = 0 \<and> queries log' = queries log @ map (host_query domain provider port) hosts
     else r = 1 \<and> queries log' = queries log)"
  using fabric_ping_all_runs[OF assms] unfolding runs_iff .

text \<open>A library in which everything succeeds except the call of one kind.\<close>

definition sample_fabric :: "fi_kind option \<Rightarrow> libfabric" where
  "sample_fabric bad =
     \<lparr>lf_reply = (\<lambda>log c. if bad \<noteq> None \<and> call_makes c = bad \<and> live_objs log \<noteq> [] then - 22 else 0),
      lf_infos = (\<lambda>log. [\<lparr>fa_fabric = Some (Some ''tcp'', Some ''lan''), fa_domain = Some (Some ''eth0'')\<rparr>]),
      lf_strerror = (\<lambda>e. ''error'')\<rparr>"

lemma sample_fabric_laws: "libfabric_laws (sample_fabric bad)"
  by (auto simp: libfabric_laws_def sample_fabric_def)

theorem fabric_ping_all_releases_witness:
  "\<exists>log'. fabric_ping_all (sample_fabric (Some K_ep)) [''a'', ''b''] ''eth0'' ''tcp'' ''8080'' [] = (Inr 0, log') \<and>
     live_objs log' = [] \<and> length (queries log') = 2"
proof -
  have "lf_reply (sample_fabric (Some K_ep)) [] Fi_allocinfo = 0"
    by (simp add: sample_fabric_def)
  then show ?thesis
    using fabric_ping_all_releases[OF sample_fabric_laws, of "Some K_ep" "[''a'', ''b'']" "''eth0''" "''tcp''" "''8080''" "[]"]
    by auto
qed

text \<open>
  C26: \<open>LaunchServer\<close>. Every failure path (code 1) has released everything. On success the code is 0
  right after \<open>fi_listen\<close>: the last call is the listen, no connection is ever accepted, and
  the endpoint, the domain, the fabric, the info list and the hints are all still live.
\<close>

theorem launch_server_outcome:
  assumes "libfabric_laws L"
  shows "\<exists>r log'. launch_server L hosts domain provider port log = (Inr r, log') \<and>
    (r = 1 \<and> live_objs log' = live_objs log \<or>
     r = 0 \<and> (\<exists>pep rest. log' = Called (Fi_listen pep) 0 # rest) \<and>
       map fst (live_objs log') = [K_pep, K_domain, K_fabric, K_info, K_info] @ map fst (live_objs log))"
proof -
  have "runs (launch_server L hosts domain provider port) log
    (\<lambda>r log'. r = 1 \<and> live_objs log' = live_objs log \<or>
     r = 0 \<and> (\<exists>pep rest. log' = Called (Fi_listen pep) 0 # rest) \<and>
       map fst (live_objs log') = [K_pep, K_domain, K_fabric, K_info, K_info] @ map fst (live_objs log))"
    using reply_int[OF assms] close_newest[OF assms] by (simp add: launch_server_def run_simps)
  then show ?thesis
    unfolding runs_iff .
qed

theorem launch_server_outcome_witness:
  "\<exists>log'. launch_server (sample_fabric (Some K_pep)) [''localhost''] ''eth0'' ''tcp'' ''8080'' [] = (Inr 1, log') \<and>
     live_objs log' = []"
proof -
  let ?run = "launch_server (sample_fabric (Some K_pep)) [''localhost''] ''eth0'' ''tcp'' ''8080'' []"
  have "fst ?run = Inr 1"
    by code_simp
  then show ?thesis
    using launch_server_outcome[OF sample_fabric_laws, of "Some K_pep" "[''localhost'']" "''eth0''" "''tcp''" "''8080''" "[]"]
    by auto
qed

text \<open>The three lines of one provider of the listing, when all its names are there.\<close>

definition provider_lines :: "fi_attrs \<Rightarrow> string list" where
  "provider_lines a =
     (case (fa_fabric a, fa_domain a) of
        (Some (Some p, Some f), Some (Some d)) \<Rightarrow> ['' Fabric: '' @ f, ''  Provider: '' @ p, ''  Domain: '' @ d]
      | _ \<Rightarrow> [])"

fun out_lines :: "fi_event list \<Rightarrow> string list" where
  "out_lines [] = []"
| "out_lines (Out_line s # es) = out_lines es @ [s]"
| "out_lines (_ # es) = out_lines es"

definition named :: "fi_attrs \<Rightarrow> bool" where
  "named a \<longleftrightarrow> (\<exists>p f d. fa_fabric a = Some (Some p, Some f) \<and> fa_domain a = Some (Some d))"

lemma print_loop_lines:
  assumes "\<forall>a \<in> set infos. named a"
  shows "runs (print_loop infos) log (\<lambda>_ log'. live_objs log' = live_objs log \<and> queries log' = queries log \<and>
    out_lines log' = out_lines log @ concat (map provider_lines infos))"
  using assms
proof (induction infos arbitrary: log)
  case (Cons a infos)
  obtain p f d where a: "fa_fabric a = Some (Some p, Some f)" "fa_domain a = Some (Some d)"
    using Cons.prems by (auto simp: named_def)
  show ?case
    unfolding print_loop.simps runs_sbind print_attrs_def
    using Cons.prems by (simp add: a run_simps) (rule runs_mono[OF Cons.IH]; simp add: provider_lines_def[of a] a)
qed (simp add: run_simps)

lemma print_loop_null:
  assumes "\<not> (\<forall>a \<in> set infos. named a)"
  shows "fst (print_loop infos log) = Inl Undef"
  using assms
proof (induction infos arbitrary: log)
  case (Cons a infos)
  show ?case
  proof (cases "named a")
    case True
    then obtain p f d where "fa_fabric a = Some (Some p, Some f)" "fa_domain a = Some (Some d)"
      by (auto simp: named_def)
    with True Cons show ?thesis
      by (simp add: print_attrs_def sbind_def out_line_def)
  next
    case False
    then show ?thesis
      by (auto simp: named_def print_attrs_def sbind_def sfail_def split: option.splits)
  qed
qed simp

lemma print_info_runs:
  assumes "libfabric_laws L" and "lf_reply L log Fi_allocinfo = 0"
    and "q = Fi_getinfo any_query (K_info, length log)" and "lf_reply L (Called Fi_allocinfo 0 # log) q = 0"
    and "infos = lf_infos L (Called q 0 # Called Fi_allocinfo 0 # log)" and "\<forall>a \<in> set infos. named a"
  shows "runs (print_info L hosts port) log (\<lambda>r log'. r = 0 \<and> live_objs log' = live_objs log \<and>
    out_lines log' = out_lines log @ concat (map provider_lines infos))"
proof -
  let ?h = "(K_info, length log)" and ?i = "(K_info, Suc (length log))" and ?log = "Called q 0 # Called Fi_allocinfo 0 # log"
  have "runs (print_loop infos) ?log (\<lambda>_ log'. live_objs log' = ?i # ?h # live_objs log \<and>
      out_lines log' = out_lines log @ concat (map provider_lines infos))"
    by (rule runs_mono[OF print_loop_lines[OF assms(6)]]) (simp add: assms(3))
  then have "runs (print_loop infos) ?log (\<lambda>_ log'. runs (fi_do L (Fi_freeinfo ?h) (fi_do L (Fi_freeinfo ?i) (sret 0))) log'
      (\<lambda>r log'. r = (0::int) \<and> live_objs log' = live_objs log \<and>
         out_lines log' = out_lines log @ concat (map provider_lines infos)))"
    by (rule runs_mono) (simp add: run_simps)
  then show ?thesis
    using assms(2,4) by (simp add: print_info_def run_simps assms(3,5))
qed

text \<open>
  C28: the listing of \<open>PrintInfo\<close>. When libfabric returns a list whose entries all have a
  provider, a fabric and a domain name, the run prints the three lines of every entry in list
  order, returns 0 and leaves nothing behind; one entry with a null name or a null attribute
  makes it undefined (a \<open>std::string\<close> of a null pointer).
\<close>

theorem print_info_lists:
  assumes "libfabric_laws L" and "lf_reply L log Fi_allocinfo = 0"
    and "q = Fi_getinfo any_query (K_info, length log)" and "lf_reply L (Called Fi_allocinfo 0 # log) q = 0"
    and "infos = lf_infos L (Called q 0 # Called Fi_allocinfo 0 # log)"
  shows "if \<forall>a \<in> set infos. named a
    then \<exists>log'. print_info L hosts port log = (Inr 0, log') \<and> live_objs log' = live_objs log \<and>
      out_lines log' = out_lines log @ concat (map provider_lines infos)
    else fst (print_info L hosts port log) = Inl Undef"
proof (cases "\<forall>a \<in> set infos. named a")
  case True
  then show ?thesis
    using print_info_runs[OF assms True, of hosts port] by (auto simp: runs_iff)
next
  case False
  let ?log = "Called q 0 # Called Fi_allocinfo 0 # log"
  obtain log' where "print_loop infos ?log = (Inl Undef, log')"
    using print_loop_null[OF False, of ?log] by (metis prod.collapse)
  then show ?thesis
    using False assms(2-5) by (simp add: print_info_def print_list_def sbind_def fi_call_step_def)
qed

theorem print_info_lists_witness:
  "\<exists>log'. print_info (sample_fabric None) [] [] [] = (Inr 0, log') \<and> live_objs log' = [] \<and>
     out_lines log' = ['' Fabric: lan'', ''  Provider: tcp'', ''  Domain: eth0'']"
  using print_info_lists[OF sample_fabric_laws, of None "[]" _ _ "[]" "[]"]
  by (simp add: sample_fabric_def named_def provider_lines_def)

text \<open>
  C27: what a client of \<open>fullping\<close> asks. Whatever the host file holds (the result of
  \<open>ParseHostfile\<close> is dropped), the only host that is asked is \<open>localhost\<close>, and the exit code does
  not say whether it answered; too few arguments give 1 and any other mode than server and
  client gives 0, without a call to libfabric.
\<close>

theorem full_main_ignores_hostfile:
  assumes "libfabric_laws L"
  shows "(length argv \<ge> 6 \<and> argv ! 5 = ''client'' \<longrightarrow>
      (\<exists>r log'. full_main H L argv [] = (Inr r, log') \<and> live_objs log' = [] \<and>
         (if lf_reply L [] Fi_allocinfo = 0
          then r = 0 \<and> queries log' = [host_query (argv ! 2) (argv ! 3) (argv ! 4) ''localhost'']
          else r = 1 \<and> queries log' = []))) \<and>
    (length argv \<ge> 6 \<and> argv ! 5 \<notin> {''client'', ''server''} \<longrightarrow> full_main H L argv [] = (Inr 0, [])) \<and>
    (argv \<noteq> [] \<and> length argv < 6 \<longrightarrow> (\<exists>usage. full_main H L argv [] = (Inr 1, [Err_line usage])))"
proof (intro conjI impI)
  assume "length argv \<ge> 6 \<and> argv ! 5 = ''client''"
  then have "full_main H L argv = fabric_ping_all L [''localhost''] (argv ! 2) (argv ! 3) (argv ! 4)"
    by (simp add: full_main_def full_hosts_def Let_def)
  then show "\<exists>r log'. full_main H L argv [] = (Inr r, log') \<and> live_objs log' = [] \<and>
      (if lf_reply L [] Fi_allocinfo = 0
       then r = 0 \<and> queries log' = [host_query (argv ! 2) (argv ! 3) (argv ! 4) ''localhost'']
       else r = 1 \<and> queries log' = [])"
    using fabric_ping_all_runs[OF assms, of "[''localhost'']" "argv ! 2" "argv ! 3" "argv ! 4" "[]"]
    unfolding runs_iff live_objs.simps queries.simps list.map append_Nil by metis
qed (auto simp: full_main_def Let_def sret_def sbind_def err_line_def)

theorem full_main_ignores_hostfile_witness:
  "\<exists>log'. full_main sample_hshm (sample_fabric (Some K_info)) [''fullping'', ''/hosts'', ''eth0'', ''tcp'', ''8080'', ''client''] [] =
     (Inr 0, log') \<and> length (queries log') = 1"
  using full_main_ignores_hostfile[OF sample_fabric_laws, of "[''fullping'', ''/hosts'', ''eth0'', ''tcp'', ''8080'', ''client'']"
      sample_hshm "Some K_info"]
  by (auto simp: sample_fabric_def)

end
