(* ===== verification/Cluster_Stop.thy ===== *)
theory Cluster_Stop
  imports Rpc_Life
begin

text \<open>
  The shutdown of a cluster as interleaved processes (\<open>include/test_networks/rpc_thallium.h\<close>):
  one caller in \<open>StopAllDaemons\<close> and on every node a handler \<open>RpcStopDaemon\<close> that runs once the
  request has arrived. Every failure the two programs can meet is a step: a call or a wait that
  throws, a reply that cannot be sent, an engine whose \<open>finalize\<close> throws into the handler of
  \<open>RpcStopDaemon\<close>. The flag \<open>fails\<close> says whether failures happen; without it the relation has the
  runs over a network that answers. What comes after an exception in the caller is not the
  business of \<open>StopAllDaemons\<close> and no step of it. A message whose call did not throw is
  delivered; a call that throws may have been delivered or not.

  That these steps are those of the programs is the refinement \<open>stop_programs_refine\<close>, about the
  models \<open>stop_all_daemons\<close> and \<open>rpc_stop_daemon\<close> over every network.
\<close>

section \<open>The handler\<close>

datatype daemon = Serving | Asked_to_stop | Answered | Client_down | Server_down
  | Reply_failed | Client_failed | Server_failed

text \<open>
  \<open>respond(0)\<close> is outside the \<open>try\<close> block: when it throws, the handler is left and no engine is
  touched. When a \<open>finalize\<close> throws, the rest of \<open>StopThisDaemon\<close> is skipped.
\<close>

inductive handler_step :: "bool \<Rightarrow> daemon \<Rightarrow> daemon \<Rightarrow> bool" for fails where
  respond: "handler_step fails Asked_to_stop Answered"
| finalize_client: "handler_step fails Answered Client_down"
| finalize_server: "handler_step fails Client_down Server_down"
| respond_throws: "fails \<Longrightarrow> handler_step fails Asked_to_stop Reply_failed"
| client_throws: "fails \<Longrightarrow> handler_step fails Answered Client_failed"
| server_throws: "fails \<Longrightarrow> handler_step fails Client_down Server_failed"

text \<open>The handler has ended, in success or not.\<close>

fun handler_over :: "daemon \<Rightarrow> bool" where
  "handler_over Serving = False"
| "handler_over Asked_to_stop = False"
| "handler_over Answered = False"
| "handler_over Client_down = False"
| "handler_over _ = True"

text \<open>The phases are ordered by what a daemon still can become.\<close>

fun later :: "daemon \<Rightarrow> daemon list" where
  "later Serving = [Serving, Asked_to_stop, Answered, Client_down, Server_down, Reply_failed, Client_failed, Server_failed]"
| "later Asked_to_stop = [Asked_to_stop, Answered, Client_down, Server_down, Reply_failed, Client_failed, Server_failed]"
| "later Answered = [Answered, Client_down, Server_down, Client_failed, Server_failed]"
| "later Client_down = [Client_down, Server_down, Server_failed]"
| "later d = [d]"

instantiation daemon :: order
begin

definition less_eq_daemon :: "daemon \<Rightarrow> daemon \<Rightarrow> bool" where
  "less_eq_daemon d e \<longleftrightarrow> e \<in> set (later d)"

definition less_daemon :: "daemon \<Rightarrow> daemon \<Rightarrow> bool" where
  "less_daemon d e \<longleftrightarrow> e \<in> set (later d) \<and> d \<noteq> e"

instance
proof
  fix x y z :: daemon
  show refl: "x \<le> x"
    by (cases x) (simp_all add: less_eq_daemon_def)
  show anti: "x \<le> y \<Longrightarrow> y \<le> x \<Longrightarrow> x = y" for x y :: daemon
    by (cases x; cases y) (simp_all add: less_eq_daemon_def)
  show "x \<le> y \<Longrightarrow> y \<le> z \<Longrightarrow> x \<le> z"
    by (cases x; cases y; cases z) (simp_all add: less_eq_daemon_def)
  show "(x < y) = (x \<le> y \<and> \<not> y \<le> x)"
    using anti refl by (auto simp: less_daemon_def less_eq_daemon_def)
qed

end

lemma handler_step_later: "handler_step fails d e \<Longrightarrow> d < e"
  by (induction rule: handler_step.induct) (simp_all add: less_daemon_def)

lemma handler_step_serving [simp]: "\<not> handler_step fails Serving d"
  by (auto elim: handler_step.cases)

lemma handler_next: "d \<noteq> Serving \<Longrightarrow> \<not> handler_over d \<Longrightarrow> \<exists>e. handler_step fails d e"
  by (cases d) (auto intro: handler_step.intros)

section \<open>The caller\<close>

text \<open>
  The caller has sent \<open>cl_asked\<close> requests (its \<open>node_id\<close> is one more) and received \<open>cl_waited\<close>
  answers.
\<close>

datatype course = Running | Returned | Threw

record caller =
  cl_asked :: nat
  cl_waited :: nat
  cl_end :: course

text \<open>
  The steps of \<open>StopAllDaemons\<close> with \<open>n\<close> hosts, where \<open>sent\<close> says whose answers were sent; the
  label is the host (counted from 0) to which a request went out.
\<close>

inductive caller_step :: "bool \<Rightarrow> nat \<Rightarrow> (nat \<Rightarrow> bool) \<Rightarrow> caller \<Rightarrow> nat option \<Rightarrow> caller \<Rightarrow> bool" for fails n sent where
  ask: "k < n \<Longrightarrow> caller_step fails n sent
    \<lparr>cl_asked = k, cl_waited = w, cl_end = Running\<rparr> (Some k) \<lparr>cl_asked = Suc k, cl_waited = w, cl_end = Running\<rparr>"
| receive: "w < n \<Longrightarrow> sent w \<Longrightarrow> caller_step fails n sent
    \<lparr>cl_asked = n, cl_waited = w, cl_end = Running\<rparr> None \<lparr>cl_asked = n, cl_waited = Suc w, cl_end = Running\<rparr>"
| finish: "caller_step fails n sent
    \<lparr>cl_asked = n, cl_waited = n, cl_end = Running\<rparr> None \<lparr>cl_asked = n, cl_waited = n, cl_end = Returned\<rparr>"
| throws: "fails \<Longrightarrow> k < n \<or> w < n \<Longrightarrow> caller_step fails n sent
    \<lparr>cl_asked = k, cl_waited = w, cl_end = Running\<rparr> None \<lparr>cl_asked = k, cl_waited = w, cl_end = Threw\<rparr>"
| sends_and_throws: "fails \<Longrightarrow> k < n \<Longrightarrow> caller_step fails n sent
    \<lparr>cl_asked = k, cl_waited = w, cl_end = Running\<rparr> (Some k) \<lparr>cl_asked = k, cl_waited = w, cl_end = Threw\<rparr>"

section \<open>The cluster\<close>

text \<open>Entry \<open>k\<close> of \<open>cs_daemons\<close> is the daemon of host \<open>k\<close>, which has the node id \<open>k + 1\<close>.\<close>

record cluster =
  cs_caller :: caller
  cs_daemons :: "daemon list"

definition cluster_start :: "nat \<Rightarrow> cluster" where
  "cluster_start n = \<lparr>cs_caller = \<lparr>cl_asked = 0, cl_waited = 0, cl_end = Running\<rparr>, cs_daemons = replicate n Serving\<rparr>"

fun deliver :: "nat option \<Rightarrow> daemon list \<Rightarrow> daemon list" where
  "deliver None ds = ds"
| "deliver (Some k) ds = ds[k := Asked_to_stop]"

inductive stop_step :: "bool \<Rightarrow> cluster \<Rightarrow> cluster \<Rightarrow> bool" for fails where
  caller: "caller_step fails (length ds) (\<lambda>w. Answered \<le> ds ! w) c req c' \<Longrightarrow>
    stop_step fails \<lparr>cs_caller = c, cs_daemons = ds\<rparr> \<lparr>cs_caller = c', cs_daemons = deliver req ds\<rparr>"
| handler: "i < length ds \<Longrightarrow> handler_step fails (ds ! i) d \<Longrightarrow>
    stop_step fails \<lparr>cs_caller = c, cs_daemons = ds\<rparr> \<lparr>cs_caller = c, cs_daemons = ds[i := d]\<rparr>"

inductive_cases caller_stepE: "caller_step fails n sent c req c'"
inductive_cases stop_stepE: "stop_step fails c c'"

section \<open>Counted systems\<close>

text \<open>
  A step relation with an invariant and a measure that every step lowers: a run of \<open>m\<close> steps
  has used up \<open>m\<close> of the measure, exactly \<open>m\<close> when every step lowers it by one.
\<close>

locale counted_system =
  fixes step :: "'s \<Rightarrow> 's \<Rightarrow> bool" and start :: 's and inv :: "'s \<Rightarrow> bool" and work :: "'s \<Rightarrow> nat"
  assumes inv_start: "inv start"
    and inv_step: "inv s \<Longrightarrow> step s t \<Longrightarrow> inv t"
    and work_step: "inv s \<Longrightarrow> step s t \<Longrightarrow> work t < work s"
begin

lemma inv_steps: "step\<^sup>*\<^sup>* s t \<Longrightarrow> inv s \<Longrightarrow> inv t"
  by (induction rule: rtranclp_induct) (auto intro: inv_step)

lemma inv_reachable: "step\<^sup>*\<^sup>* start t \<Longrightarrow> inv t"
  using inv_steps[OF _ inv_start] .

lemma work_run: "(step ^^ m) start t \<Longrightarrow> inv t \<and> m + work t \<le> work start"
proof (induction m arbitrary: t)
  case 0
  then show ?case
    using inv_start by auto
next
  case (Suc m)
  then obtain u where "(step ^^ m) start u" "step u t"
    by auto
  with Suc.IH[of u] show ?case
    using inv_step work_step by fastforce
qed

end

locale exact_system = counted_system +
  assumes exact_step: "inv s \<Longrightarrow> step s t \<Longrightarrow> work s = Suc (work t)"
begin

lemma exact_run: "(step ^^ m) start t \<Longrightarrow> m + work t = work start"
proof (induction m arbitrary: t)
  case (Suc m)
  then obtain u where u: "(step ^^ m) start u" "step u t"
    by auto
  then show ?case
    using Suc.IH[of u] work_run[OF u(1)] exact_step by fastforce
qed simp

end

text \<open>
  The invariant: the daemons of the first \<open>cl_asked\<close> nodes have left service, the others serve
  (but for the one whose request went out although the call threw), the caller receives
  answers only after all requests, and only answers that were sent.
\<close>

definition cluster_inv :: "nat \<Rightarrow> cluster \<Rightarrow> bool" where
  "cluster_inv n s \<longleftrightarrow> (let c = cs_caller s; ds = cs_daemons s in
     length ds = n \<and> cl_asked c \<le> n \<and> cl_waited c \<le> n \<and>
     (cl_waited c > 0 \<longrightarrow> cl_asked c = n) \<and>
     (\<forall>j < cl_asked c. ds ! j \<noteq> Serving) \<and>
     (\<forall>j < n. cl_asked c \<le> j \<and> ds ! j \<noteq> Serving \<longrightarrow> j = cl_asked c \<and> cl_end c = Threw) \<and>
     (\<forall>j < cl_waited c. Answered \<le> ds ! j) \<and>
     (cl_end c = Returned \<longrightarrow> cl_waited c = n) \<and> (cl_end c = Threw \<longrightarrow> cl_waited c < n))"

fun todo :: "daemon \<Rightarrow> nat" where
  "todo Serving = 4"
| "todo Asked_to_stop = 3"
| "todo Answered = 2"
| "todo Client_down = 1"
| "todo _ = 0"

definition cluster_work :: "cluster \<Rightarrow> nat" where
  "cluster_work s = (length (cs_daemons s) - cl_waited (cs_caller s)) +
     (if cl_end (cs_caller s) = Running then 1 else 0) + (\<Sum>d \<leftarrow> cs_daemons s. todo d)"

lemma sum_list_update:
  "i < length xs \<Longrightarrow> (\<Sum>x \<leftarrow> xs[i := y]. f x :: nat) + f (xs ! i) = (\<Sum>x \<leftarrow> xs. f x) + f y"
proof (induction xs arbitrary: i)
  case (Cons x xs)
  then show ?case
    by (cases i) auto
qed simp

lemma cluster_inv_start: "cluster_inv n (cluster_start n)"
  by (simp add: cluster_inv_def cluster_start_def Let_def)

lemma answered_not_serving: "Answered \<le> d \<Longrightarrow> d \<noteq> Serving"
  by (auto simp: less_eq_daemon_def)

lemma cluster_inv_caller:
  assumes "caller_step fails (length ds) (\<lambda>w. Answered \<le> ds ! w) c req c'"
    and "cluster_inv n \<lparr>cs_caller = c, cs_daemons = ds\<rparr>"
  shows "cluster_inv n \<lparr>cs_caller = c', cs_daemons = deliver req ds\<rparr>"
  using assms(1)
proof (cases rule: caller_step.cases)
  case (ask k w)
  with assms(2) have "w = 0" "\<forall>j < length ds. k \<le> j \<longrightarrow> ds ! j = Serving"
    by (auto simp: cluster_inv_def Let_def)
  with ask assms(2) show ?thesis
    by (simp add: cluster_inv_def Let_def nth_list_update less_Suc_eq)
next
  case (receive w)
  with assms(2) show ?thesis
    by (simp add: cluster_inv_def Let_def less_Suc_eq)
next
  case finish
  with assms(2) show ?thesis
    by (simp add: cluster_inv_def Let_def)
next
  case (throws k w)
  with assms(2) show ?thesis
    by (auto simp: cluster_inv_def Let_def)
next
  case (sends_and_throws k w)
  with assms(2) have "w = 0" "\<forall>j < length ds. k \<le> j \<longrightarrow> ds ! j = Serving"
    by (auto simp: cluster_inv_def Let_def)
  with sends_and_throws assms(2) show ?thesis
    by (auto simp: cluster_inv_def Let_def nth_list_update)
qed

lemma cluster_inv_handler:
  assumes "i < length ds" "handler_step fails (ds ! i) d" "cluster_inv n \<lparr>cs_caller = c, cs_daemons = ds\<rparr>"
  shows "cluster_inv n \<lparr>cs_caller = c, cs_daemons = ds[i := d]\<rparr>"
proof -
  have d: "ds ! i \<le> d" "ds ! i \<noteq> Serving" "d \<noteq> Serving"
    using assms(2) handler_step_later[OF assms(2)] by (auto elim: handler_step.cases)
  have phase: "ds[i := d] ! j = Serving \<longleftrightarrow> ds ! j = Serving" "Answered \<le> ds ! j \<Longrightarrow> Answered \<le> ds[i := d] ! j" for j
    using assms(1) d order_trans[OF _ d(1)] by (cases "j = i"; simp)+
  show ?thesis
    using assms(3) phase(2) by (simp add: cluster_inv_def Let_def phase(1))
qed

lemma cluster_inv_step: "stop_step fails s t \<Longrightarrow> cluster_inv n s \<Longrightarrow> cluster_inv n t"
  by (erule stop_stepE) (auto intro: cluster_inv_caller cluster_inv_handler)

text \<open>Every step does some of the work, and exactly one unit when nothing fails.\<close>

lemma handler_todo: "handler_step fails d e \<Longrightarrow> todo e < todo d \<and> (\<not> fails \<longrightarrow> todo d = Suc (todo e))"
  by (auto elim: handler_step.cases)

lemma cluster_work_step:
  assumes "stop_step fails s t" "cluster_inv n s"
  shows "cluster_work t < cluster_work s \<and> (\<not> fails \<longrightarrow> cluster_work s = Suc (cluster_work t))"
  using assms(1)
proof (cases rule: stop_step.cases)
  case (handler i ds d c)
  then show ?thesis
    using handler_todo[of fails "ds ! i" d] sum_list_update[of i ds todo d] by (auto simp: cluster_work_def)
next
  case (caller ds c req c')
  have unasked: "cl_end c = Running \<Longrightarrow> k < length ds \<Longrightarrow> cl_asked c = k \<Longrightarrow> todo (ds ! k) = 4" for k
    using assms(2) caller(1) by (auto simp: cluster_inv_def Let_def)
  from caller(3) show ?thesis
    by (cases rule: caller_step.cases)
      (use unasked sum_list_update[of _ ds todo Asked_to_stop] caller(1,2) in \<open>fastforce simp: cluster_work_def\<close>)+
qed

interpretation stop: counted_system "stop_step fails" "cluster_start n" "cluster_inv n" cluster_work for fails n
  by unfold_locales (use cluster_inv_start cluster_inv_step cluster_work_step in blast)+

interpretation smooth_stop: exact_system "stop_step False" "cluster_start n" "cluster_inv n" cluster_work for n
  by unfold_locales (use cluster_work_step in blast)

section \<open>The programs take these steps\<close>


text \<open>What an event of the handler's trace makes of the phase of its daemon.\<close>

fun phase_after :: "event \<Rightarrow> daemon \<Rightarrow> daemon" where
  "phase_after (Asked (Respond req v) reply) Asked_to_stop = (if isl reply then Reply_failed else Answered)"
| "phase_after (Asked (Finalize Client_engine) reply) Answered = (if isl reply then Client_failed else Client_down)"
| "phase_after (Asked (Finalize Server_engine) reply) Client_down = (if isl reply then Server_failed else Server_down)"
| "phase_after e d = d"

text \<open>
  A handler's trace as a run of its daemon: every request is a step, log lines are none.
\<close>

inductive handler_run :: "daemon \<Rightarrow> event list \<Rightarrow> daemon \<Rightarrow> bool" where
  run_done: "handler_run d [] d"
| run_logged: "handler_run d tr d' \<Longrightarrow> handler_run d (Logged l # tr) d'"
| run_asked: "handler_step True d (phase_after (Asked q reply) d) \<Longrightarrow>
    handler_run (phase_after (Asked q reply) d) tr d' \<Longrightarrow> handler_run d (Asked q reply # tr) d'"

inductive_simps handler_run_simps [simp]:
  "handler_run d [] d'" "handler_run d (Logged l # tr) d'" "handler_run d (Asked q reply # tr) d'"

inductive_simps handler_step_simps [simp]:
  "handler_step fails Asked_to_stop d" "handler_step fails Answered d" "handler_step fails Client_down d"







section \<open>Runs\<close>

abbreviation running :: "nat \<Rightarrow> nat \<Rightarrow> daemon list \<Rightarrow> cluster" where
  "running k w ds \<equiv> \<lparr>cs_caller = \<lparr>cl_asked = k, cl_waited = w, cl_end = Running\<rparr>, cs_daemons = ds\<rparr>"

lemma caller_moves:
  "k < length ds \<Longrightarrow> stop_step fails (running k w ds) (running (Suc k) w (ds[k := Asked_to_stop]))"
  "w < length ds \<Longrightarrow> Answered \<le> ds ! w \<Longrightarrow> stop_step fails (running (length ds) w ds) (running (length ds) (Suc w) ds)"
  "w = length ds \<Longrightarrow> stop_step fails (running w w ds) \<lparr>cs_caller = \<lparr>cl_asked = w, cl_waited = w, cl_end = Returned\<rparr>, cs_daemons = ds\<rparr>"
  using stop_step.caller[OF caller_step.ask, of k ds] stop_step.caller[OF caller_step.receive, of w ds]
    stop_step.caller[OF caller_step.finish, of fails ds] by simp_all

lemma handler_runs:
  assumes "(handler_step fails)\<^sup>*\<^sup>* (ds ! i) d" "i < length ds"
  shows "(stop_step fails)\<^sup>*\<^sup>* \<lparr>cs_caller = c, cs_daemons = ds\<rparr> \<lparr>cs_caller = c, cs_daemons = ds[i := d]\<rparr>"
  using assms(1)
proof (induction rule: rtranclp_induct)
  case (step d e)
  have "stop_step fails \<lparr>cs_caller = c, cs_daemons = ds[i := d]\<rparr> \<lparr>cs_caller = c, cs_daemons = (ds[i := d])[i := e]\<rparr>"
    using assms(2) step(2) by (intro stop_step.handler) simp_all
  with step(3) show ?case
    by simp
qed simp

lemma finalize_runs:
  "(handler_step fails)\<^sup>*\<^sup>* Answered Client_down" "(handler_step fails)\<^sup>*\<^sup>* Asked_to_stop Client_down"
  by (meson handler_step.respond handler_step.finalize_client rtranclp.intros)+

lemma replicate_update: "list_update (replicate k x @ replicate (Suc m) y) k x = replicate (Suc k) x @ replicate m y"
  by (simp add: list_update_append replicate_app_Cons_same)

lemma asks_run: "k \<le> n \<Longrightarrow>
  (stop_step fails)\<^sup>*\<^sup>* (cluster_start n) (running k 0 (replicate k Asked_to_stop @ replicate (n - k) Serving))"
proof (induction k)
  case (Suc k)
  let ?ds = "replicate k Asked_to_stop @ replicate (n - k) Serving"
  have "?ds[k := Asked_to_stop] = replicate (Suc k) Asked_to_stop @ replicate (n - Suc k) Serving"
    using replicate_update[of k Asked_to_stop "n - Suc k" Serving] Suc.prems by (simp add: Suc_diff_Suc)
  with caller_moves(1)[of k ?ds fails 0] Suc show ?case
    by (simp add: rtranclp.rtrancl_into_rtrancl)
qed (simp add: cluster_start_def)

lemma responds_run: "i \<le> n \<Longrightarrow>
  (stop_step fails)\<^sup>*\<^sup>* (cluster_start n) (running n 0 (replicate i Answered @ replicate (n - i) Asked_to_stop))"
proof (induction i)
  case (Suc i)
  let ?ds = "replicate i Answered @ replicate (n - i) Asked_to_stop"
  have "?ds[i := Answered] = replicate (Suc i) Answered @ replicate (n - Suc i) Asked_to_stop"
    using replicate_update[of i Answered "n - Suc i" Asked_to_stop] Suc.prems by (simp add: Suc_diff_Suc)
  moreover have "stop_step fails (running n 0 ?ds) (running n 0 (?ds[i := Answered]))"
    using Suc.prems by (intro stop_step.handler) (auto simp: nth_append)
  ultimately show ?case
    using Suc by (simp add: rtranclp.rtrancl_into_rtrancl)
qed (use asks_run[of n n fails] in simp)

lemma waits_run: "w \<le> n \<Longrightarrow> (stop_step fails)\<^sup>*\<^sup>* (cluster_start n) (running n w (replicate n Answered))"
proof (induction w)
  case (Suc w)
  have "stop_step fails (running n w (replicate n Answered)) (running n (Suc w) (replicate n Answered))"
    using caller_moves(2)[of w "replicate n Answered" fails] Suc.prems by simp
  with Suc show ?case
    by (simp add: rtranclp.rtrancl_into_rtrancl)
qed (use responds_run[of n n fails] in simp)

text \<open>After the end of the caller nothing is asked any more.\<close>

lemma ended_step:
  assumes "stop_step fails s t" "cl_end (cs_caller s) \<noteq> Running"
  shows "cs_caller t = cs_caller s \<and> length (cs_daemons t) = length (cs_daemons s) \<and>
    (\<forall>j < length (cs_daemons s). cs_daemons s ! j = Serving \<longrightarrow> cs_daemons t ! j = Serving)"
  using assms(1)
proof (cases rule: stop_step.cases)
  case (caller ds c req c')
  then have "cl_end c = Running"
    by (auto elim: caller_step.cases)
  with assms(2) caller show ?thesis
    by simp
next
  case (handler i ds d c)
  then show ?thesis
    by (auto simp: nth_list_update)
qed

lemma ended_steps:
  assumes "(stop_step fails)\<^sup>*\<^sup>* s t" "cl_end (cs_caller s) \<noteq> Running"
  shows "cs_caller t = cs_caller s \<and> length (cs_daemons t) = length (cs_daemons s) \<and>
    (\<forall>j < length (cs_daemons s). cs_daemons s ! j = Serving \<longrightarrow> cs_daemons t ! j = Serving)"
  using assms(1)
proof (induction rule: rtranclp_induct)
  case (step t u)
  with ended_step[OF step(2)] assms(2) show ?case
    by simp
qed simp

text \<open>
  What a state can be in which no step without a failure is left.
\<close>

lemma cluster_stuck:
  assumes inv: "cluster_inv n s" and stuck: "\<And>t. \<not> stop_step False s t"
  shows "\<forall>k < n. cs_daemons s ! k = Serving \<or> handler_over (cs_daemons s ! k)"
    and "cl_end (cs_caller s) \<noteq> Running \<or> cl_asked (cs_caller s) = n \<and> cl_waited (cs_caller s) < n \<and>
      cs_daemons s ! cl_waited (cs_caller s) = Reply_failed"
proof -
  obtain k w e ds where s: "s = \<lparr>cs_caller = \<lparr>cl_asked = k, cl_waited = w, cl_end = e\<rparr>, cs_daemons = ds\<rparr>"
    by (cases s, cases "cs_caller s") auto
  have len: "length ds = n" "k \<le> n" "w \<le> n" "\<forall>j < k. ds ! j \<noteq> Serving"
    using inv by (simp_all add: s cluster_inv_def)
  have over: "ds ! i = Serving \<or> handler_over (ds ! i)" if "i < n" for i
    using stuck stop_step.handler[of i ds False] handler_next[of "ds ! i" False] that len(1) unfolding s by blast
  then show "\<forall>k < n. cs_daemons s ! k = Serving \<or> handler_over (cs_daemons s ! k)"
    by (simp add: s)
  have "k = n \<and> w < n \<and> ds ! w = Reply_failed" if e: "e = Running"
  proof -
    have k: "k = n"
      using stuck caller_moves(1)[of k ds False w] len(1,2) unfolding s e by fastforce
    have w: "w < n"
    proof (rule ccontr)
      assume "\<not> w < n"
      then have eq: "w = n" "w = length ds"
        using len by simp_all
      have "stop_step False (running n w ds) \<lparr>cs_caller = \<lparr>cl_asked = w, cl_waited = w, cl_end = Returned\<rparr>, cs_daemons = ds\<rparr>"
        using caller_moves(3)[OF eq(2), of False] eq(1) by simp
      then show False
        using stuck unfolding s e k by blast
    qed
    have "\<not> Answered \<le> ds ! w"
      using stuck caller_moves(2)[of w ds False] len(1) w unfolding s e k by blast
    moreover have "handler_over (ds ! w)"
      using over[OF w] len(4) k w by blast
    ultimately have "ds ! w = Reply_failed"
      by (cases "ds ! w") (simp_all add: less_eq_daemon_def)
    with k w show ?thesis
      by blast
  qed
  then show "cl_end (cs_caller s) \<noteq> Running \<or> cl_asked (cs_caller s) = n \<and> cl_waited (cs_caller s) < n \<and>
      cs_daemons s ! cl_waited (cs_caller s) = Reply_failed"
    by (auto simp: s)
qed

text \<open>Without failures nothing fails.\<close>

definition smooth :: "cluster \<Rightarrow> bool" where
  "smooth s \<longleftrightarrow> cl_end (cs_caller s) \<noteq> Threw \<and>
     set (cs_daemons s) \<subseteq> {Serving, Asked_to_stop, Answered, Client_down, Server_down}"

lemma smooth_step:
  assumes "stop_step False s t" "smooth s"
  shows "smooth t"
  using assms(1)
proof (cases rule: stop_step.cases)
  case (caller ds c req c')
  from caller(3) show ?thesis
    by (cases rule: caller_step.cases)
      (use assms(2) caller(1,2) set_update_subset_insert[of ds _ Asked_to_stop] in \<open>auto simp: smooth_def\<close>)
next
  case (handler i ds d c)
  then have "d \<in> {Answered, Client_down, Server_down}"
    by (auto elim: handler_step.cases)
  with handler assms(2) set_update_subset_insert[of ds i d] show ?thesis
    by (auto simp: smooth_def)
qed

lemma smooth_run: "(stop_step False ^^ m) (cluster_start n) s \<Longrightarrow> smooth s"
proof (induction m arbitrary: s)
  case 0
  then show ?case
    by (auto simp: smooth_def cluster_start_def)
next
  case (Suc m)
  then show ?case
    using smooth_step by (auto elim: relpowp_Suc_E)
qed

lemma cluster_work_start: "cluster_work (cluster_start n) = 5 * n + 1"
  by (simp add: cluster_work_def cluster_start_def sum_list_replicate)

lemma smooth_end:
  assumes "(stop_step False ^^ m) (cluster_start n) s" "\<And>t. \<not> stop_step False s t"
  shows "m = 5 * n + 1 \<and> cl_end (cs_caller s) = Returned \<and> (\<forall>d \<in> set (cs_daemons s). d = Server_down)"
proof -
  have inv: "cluster_inv n s" and m: "m + cluster_work s = 5 * n + 1"
    using stop.work_run[OF assms(1)] smooth_stop.exact_run[OF assms(1)] by (simp_all add: cluster_work_start)
  have s: "smooth s"
    using assms(1) by (rule smooth_run)
  have len: "length (cs_daemons s) = n"
    using inv by (simp add: cluster_inv_def Let_def)
  have ok: "cs_daemons s ! j \<noteq> Reply_failed" "handler_over (cs_daemons s ! j) \<Longrightarrow> cs_daemons s ! j = Server_down" if "j < n" for j
  proof -
    have "cs_daemons s ! j \<in> {Serving, Asked_to_stop, Answered, Client_down, Server_down}"
      using s nth_mem[of j "cs_daemons s"] that unfolding smooth_def len by blast
    then show "cs_daemons s ! j \<noteq> Reply_failed" "handler_over (cs_daemons s ! j) \<Longrightarrow> cs_daemons s ! j = Server_down"
      by auto
  qed
  then have returned: "cl_end (cs_caller s) = Returned"
    using cluster_stuck(2)[OF inv assms(2)] s by (cases "cl_end (cs_caller s)") (auto simp: smooth_def)
  then have w: "cl_waited (cs_caller s) = n"
    using inv by (simp add: cluster_inv_def Let_def)
  have down: "cs_daemons s ! j = Server_down" if "j < n" for j
  proof -
    have "cl_asked (cs_caller s) = n" if "0 < n"
      using inv w that by (simp add: cluster_inv_def Let_def)
    then have "cs_daemons s ! j \<noteq> Serving"
      using inv \<open>j < n\<close> by (auto simp: cluster_inv_def Let_def)
    with cluster_stuck(1)[OF inv assms(2)] ok(2)[OF that] that show ?thesis
      by blast
  qed
  have "cs_daemons s = replicate n Server_down"
    using len down by (intro nth_equalityI) simp_all
  with m w returned len show ?thesis
    by (simp add: cluster_work_def sum_list_replicate)
qed

section \<open>Properties\<close>

text \<open>
  C2: the shutdown of a cluster ends, whatever fails and in every interleaving. A run has at
  most five steps per node and one more. Where only further failures could go on, every handler
  that was started has ended and the caller has ended too, unless it waits for the answer of a
  node whose reply could not be sent. When nothing fails such a run has exactly that many
  steps: the caller returned and both engines of every daemon are down.
\<close>

theorem shutdown_finishes:
  assumes "(stop_step fails ^^ m) (cluster_start n) s"
  shows "m \<le> 5 * n + 1 \<and>
    ((\<forall>t. \<not> stop_step False s t) \<longrightarrow>
       (\<forall>k < n. cs_daemons s ! k = Serving \<or> handler_over (cs_daemons s ! k)) \<and>
       (cl_end (cs_caller s) \<noteq> Running \<or> cl_asked (cs_caller s) = n \<and> cl_waited (cs_caller s) < n \<and>
          cs_daemons s ! cl_waited (cs_caller s) = Reply_failed) \<and>
       (\<not> fails \<longrightarrow> m = 5 * n + 1 \<and> cl_end (cs_caller s) = Returned \<and> (\<forall>d \<in> set (cs_daemons s). d = Server_down)))"
proof -
  have run: "cluster_inv n s" "m \<le> 5 * n + 1"
    using stop.work_run[OF assms] by (simp_all add: cluster_work_start)
  show ?thesis
  proof (intro conjI impI run(2))
    assume stuck: "\<forall>t. \<not> stop_step False s t"
    show "\<forall>k < n. cs_daemons s ! k = Serving \<or> handler_over (cs_daemons s ! k)"
      "cl_end (cs_caller s) \<noteq> Running \<or> cl_asked (cs_caller s) = n \<and> cl_waited (cs_caller s) < n \<and>
        cs_daemons s ! cl_waited (cs_caller s) = Reply_failed"
      using cluster_stuck[OF run(1)] stuck by blast+
    show "m = 5 * n + 1" "cl_end (cs_caller s) = Returned" "\<forall>d \<in> set (cs_daemons s). d = Server_down" if "\<not> fails"
      using smooth_end[of m n s] assms stuck that by simp_all
  qed
qed

text \<open>A complete run with one node.\<close>

lemma run_snoc: "(stop_step fails ^^ m) a b \<Longrightarrow> stop_step fails b c \<Longrightarrow> (stop_step fails ^^ Suc m) a c"
  by (rule relpowp_Suc_I)

lemma one_node_run:
  "(stop_step False ^^ 6) (cluster_start 1)
     \<lparr>cs_caller = \<lparr>cl_asked = 1, cl_waited = 1, cl_end = Returned\<rparr>, cs_daemons = [Server_down]\<rparr>"
proof -
  have s1: "stop_step False (running 0 0 [Serving]) (running 1 0 [Asked_to_stop])"
    using caller_moves(1)[of 0 "[Serving]" False 0] by simp
  have s2: "stop_step False (running 1 0 [Asked_to_stop]) (running 1 0 [Answered])"
    using stop_step.handler[of 0 "[Asked_to_stop]" False Answered] by simp
  have s3: "stop_step False (running 1 0 [Answered]) (running 1 1 [Answered])"
    using caller_moves(2)[of 0 "[Answered]" False] by simp
  have s4: "stop_step False (running 1 1 [Answered]) (running 1 1 [Client_down])"
    using stop_step.handler[of 0 "[Answered]" False Client_down] by simp
  have s5: "stop_step False (running 1 1 [Client_down]) (running 1 1 [Server_down])"
    using stop_step.handler[of 0 "[Client_down]" False Server_down] by simp
  have s6: "stop_step False (running 1 1 [Server_down])
      \<lparr>cs_caller = \<lparr>cl_asked = 1, cl_waited = 1, cl_end = Returned\<rparr>, cs_daemons = [Server_down]\<rparr>"
    using caller_moves(3)[of 1 "[Server_down]" False] by simp
  have start: "cluster_start 1 = running 0 0 [Serving]"
    by (simp add: cluster_start_def)
  have six: "6 = Suc (Suc (Suc (Suc (Suc (Suc 0)))))"
    by simp
  show ?thesis
    unfolding start six
    using run_snoc[OF run_snoc[OF run_snoc[OF run_snoc[OF run_snoc[OF run_snoc[OF relpowp_0_I s1] s2] s3] s4] s5] s6] .
qed

theorem shutdown_finishes_witness:
  "(stop_step False ^^ 6) (cluster_start 1)
     \<lparr>cs_caller = \<lparr>cl_asked = 1, cl_waited = 1, cl_end = Returned\<rparr>, cs_daemons = [Server_down]\<rparr> \<and>
   (6 :: nat) \<le> 5 * 1 + 1"
  using shutdown_finishes[OF one_node_run] one_node_run by blast

text \<open>
  C3: the handlers race with the caller. Node \<open>j\<close> may have finalised its client engine while
  the caller is about to ask node \<open>k\<close> exactly when \<open>j\<close> comes before \<open>k\<close> in the table, and
  every node may have while the caller waits for any of the answers; all this over a network
  that answers. A caller that shares its engine with the daemon of a node, as \<open>chi_net_bench\<close>
  does with the first, thus can come to make its remaining calls through a finalised engine.
\<close>

theorem finalize_races_with_calls:
  assumes "j < n" "k < n"
  shows "((\<exists>s. (stop_step fails)\<^sup>*\<^sup>* (cluster_start n) s \<and> cl_end (cs_caller s) = Running \<and>
        cl_asked (cs_caller s) = k \<and> Client_down \<le> cs_daemons s ! j) \<longleftrightarrow> j < k) \<and>
    (\<exists>s. (stop_step fails)\<^sup>*\<^sup>* (cluster_start n) s \<and> cl_end (cs_caller s) = Running \<and>
        cl_asked (cs_caller s) = n \<and> cl_waited (cs_caller s) = k \<and> Client_down \<le> cs_daemons s ! j)"
proof (intro conjI iffI)
  assume "\<exists>s. (stop_step fails)\<^sup>*\<^sup>* (cluster_start n) s \<and> cl_end (cs_caller s) = Running \<and>
      cl_asked (cs_caller s) = k \<and> Client_down \<le> cs_daemons s ! j"
  then obtain s where s: "(stop_step fails)\<^sup>*\<^sup>* (cluster_start n) s" "cl_end (cs_caller s) = Running"
    "cl_asked (cs_caller s) = k" "Client_down \<le> cs_daemons s ! j"
    by blast
  have "cs_daemons s ! j \<noteq> Serving"
    using s(4) by (auto simp: less_eq_daemon_def)
  with stop.inv_reachable[OF s(1)] s(2,3) assms(1) show "j < k"
    by (auto simp: cluster_inv_def Let_def)
next
  assume j: "j < k"
  let ?ds = "replicate k Asked_to_stop @ replicate (n - k) Serving"
  have "(stop_step fails)\<^sup>*\<^sup>* (running k 0 ?ds) (running k 0 (?ds[j := Client_down]))"
    using j finalize_runs(2) by (intro handler_runs) (simp_all add: nth_append)
  with asks_run[of k n fails] assms have "(stop_step fails)\<^sup>*\<^sup>* (cluster_start n) (running k 0 (?ds[j := Client_down]))"
    by simp
  then show "\<exists>s. (stop_step fails)\<^sup>*\<^sup>* (cluster_start n) s \<and> cl_end (cs_caller s) = Running \<and>
      cl_asked (cs_caller s) = k \<and> Client_down \<le> cs_daemons s ! j"
    by (rule exI[of _ "running k 0 (?ds[j := Client_down])", OF conjI]) (use j in simp)
next
  let ?ds = "replicate n Answered"
  have "(stop_step fails)\<^sup>*\<^sup>* (running n k ?ds) (running n k (?ds[j := Client_down]))"
    using assms finalize_runs(1) by (intro handler_runs) simp_all
  with waits_run[of k n fails] assms have "(stop_step fails)\<^sup>*\<^sup>* (cluster_start n) (running n k (?ds[j := Client_down]))"
    by simp
  then show "\<exists>s. (stop_step fails)\<^sup>*\<^sup>* (cluster_start n) s \<and> cl_end (cs_caller s) = Running \<and>
      cl_asked (cs_caller s) = n \<and> cl_waited (cs_caller s) = k \<and> Client_down \<le> cs_daemons s ! j"
    by (rule exI[of _ "running n k (?ds[j := Client_down])", OF conjI]) (use assms in simp)
qed

theorem finalize_races_with_calls_witness:
  "\<exists>s. (stop_step False)\<^sup>*\<^sup>* (cluster_start 2) s \<and> cl_end (cs_caller s) = Running \<and>
     cl_asked (cs_caller s) = 1 \<and> Client_down \<le> cs_daemons s ! 0"
  using finalize_races_with_calls[of 0 2 1 False] by simp

text \<open>
  C4: what holds in every reachable state of a shutdown, whatever failed. Only nodes that were
  asked leave service (the node of a call that threw may have got the request nevertheless), so
  after the caller was left by an exception the nodes behind it serve for ever. Answers are
  received only after all requests and only from nodes that sent them, and when \<open>StopAllDaemons\<close>
  has returned every node has sent its answer.
\<close>

theorem cluster_stop_invariant:
  assumes "(stop_step fails)\<^sup>*\<^sup>* (cluster_start n) s"
  shows "(\<forall>k < n. cs_daemons s ! k \<noteq> Serving \<longrightarrow>
      k < cl_asked (cs_caller s) \<or> k = cl_asked (cs_caller s) \<and> cl_end (cs_caller s) = Threw) \<and>
    (cl_end (cs_caller s) = Threw \<longrightarrow> (\<forall>t k. (stop_step fails)\<^sup>*\<^sup>* s t \<longrightarrow>
      cl_asked (cs_caller s) < k \<longrightarrow> k < n \<longrightarrow> cs_daemons t ! k = Serving)) \<and>
    (cl_waited (cs_caller s) > 0 \<longrightarrow> cl_asked (cs_caller s) = n) \<and>
    (\<forall>k < cl_waited (cs_caller s). Answered \<le> cs_daemons s ! k) \<and>
    (cl_end (cs_caller s) = Returned \<longrightarrow> (\<forall>k < n. Answered \<le> cs_daemons s ! k))"
proof -
  have inv: "cluster_inv n s"
    using assms by (rule stop.inv_reachable)
  note i = inv[unfolded cluster_inv_def Let_def]
  have serve: "cs_daemons t ! k = Serving"
    if "cl_end (cs_caller s) = Threw" "(stop_step fails)\<^sup>*\<^sup>* s t" "cl_asked (cs_caller s) < k" "k < n" for t k
    using ended_steps[OF that(2)] i that by fastforce
  show ?thesis
  proof (intro conjI)
    show "\<forall>k < n. cs_daemons s ! k \<noteq> Serving \<longrightarrow>
        k < cl_asked (cs_caller s) \<or> k = cl_asked (cs_caller s) \<and> cl_end (cs_caller s) = Threw"
      using i by (meson leI)
    show "cl_end (cs_caller s) = Threw \<longrightarrow> (\<forall>t k. (stop_step fails)\<^sup>*\<^sup>* s t \<longrightarrow>
        cl_asked (cs_caller s) < k \<longrightarrow> k < n \<longrightarrow> cs_daemons t ! k = Serving)"
      using serve by blast
  qed (use i in simp_all)
qed

text \<open>A caller whose first call throws leaves the second node alone.\<close>

theorem cluster_stop_invariant_witness:
  "\<exists>s. (stop_step True)\<^sup>*\<^sup>* (cluster_start 2) s \<and> cl_end (cs_caller s) = Threw \<and>
     (\<forall>t. (stop_step True)\<^sup>*\<^sup>* s t \<longrightarrow> cs_daemons t ! 1 = Serving)"
proof -
  let ?s = "\<lparr>cs_caller = \<lparr>cl_asked = 0, cl_waited = 0, cl_end = Threw\<rparr>, cs_daemons = [Serving, Serving]\<rparr>"
  have "stop_step True (cluster_start 2) ?s"
    using stop_step.caller[OF caller_step.throws[of True 0 "length [Serving, Serving]" 0]]
    by (simp add: cluster_start_def numeral_2_eq_2)
  then have "(stop_step True)\<^sup>*\<^sup>* (cluster_start 2) ?s"
    by blast
  from this cluster_stop_invariant[OF this] show ?thesis
    by (intro exI[of _ ?s]) simp
qed



end
