(* ===== verification/Spec2Isabelle.thy ===== *)
theory Spec2Isabelle
  imports Chi_Serial Cache_Timer Net_Ping Net_Find Full_Ping Cluster_Stop
begin

text \<open>
  A verification library for chi_nettest, the network tests of the Chimaera runtime: a small
  RPC layer over thallium (\<open>include/test_networks/\<close>) and four programs that use it or libfabric
  directly (\<open>src/\<close>).

  The parts and how they interact. A program reads its settings into a \<open>ServerConfig\<close> (command
  line or launcher), \<open>RpcContext::ServerInit\<close> resolves the host names and finds this node in the
  list, \<open>ThalliumRpc\<close> starts a server at the address of this node and a client, and node 1 runs a
  test against all nodes (ping, I/O or metadata calls) and stops all daemons. An I/O call sends
  a \<open>SegmentedTransfer\<close>, whose segments the server pulls into fresh buffers. \<open>chi_net_find\<close> writes
  the host list that \<open>ServerInit\<close> reads. \<open>fullping\<close> pings over plain libfabric.

  Theories, in the order of the imports:
  \<^item> \<open>Net_Prelude\<close>: machine words, failures (exception, exit, undefined behaviour), the sequencing
    of fallible and stateful steps, decimal text and \<open>atoi\<close>.
  \<^item> \<open>Hshm_Lib\<close>: what is called of the submodule cte-hermes-shm, as a record of parameters.
  \<^item> \<open>Chi_Ids\<close>, \<open>Chi_Domain\<close>, \<open>Cache_Timer\<close>: \<open>chimaera_types.h\<close>. Ids with their equality, hash and
    text (locale \<open>printed_key\<close>); domain queries and updates, with \<open>DomainSelection\<close> as the two halves
    of its eight bytes, so that what a factory leaves unset is visible; the timer, refined
    from a stopwatch over the integers.
  \<^item> \<open>Chi_Serial\<close>: the \<open>serialize\<close> members of \<open>chimaera_types.h\<close> against any pair of archives that
    inverts itself (locale \<open>codec\<close>).
  \<^item> \<open>Data_Transfer\<close>: \<open>serialize_defn.h\<close>; the heap maps addresses to block sizes.
  \<^item> \<open>Server_Config\<close>: \<open>config_server.h\<close> and the argument list that
    \<open>test/jarvis_chi_nettest/jarvis_chi_nettest/chi_net_bench/pkg.py\<close> passes.
  \<^item> \<open>Ipv4_Text\<close>, \<open>Rpc_Context\<close>: \<open>rpc.h\<close>; the host table and its invariant \<open>rc_inv\<close>, and the
    directory interface \<open>node_directory\<close> the RPC layer relies on.
  \<^item> \<open>Machine_Loops\<close>: the loops over \<open>u32\<close> node ids and \<open>int\<close> repetitions as partial functions, with
    the lemmas that make them return.
  \<^item> \<open>Thallium_Rpc\<close>, \<open>Rpc_Calls\<close>, \<open>Rpc_Life\<close>: \<open>rpc_thallium.h\<close>; the definitions, then what the calls
    and the bulk transfers do over every network, then starting and stopping.
  \<^item> \<open>Net_Bench\<close>, \<open>Bench_Runs\<close>: \<open>chi_net_bench.cc\<close>; the benchmark loops, then whole runs.
  \<^item> \<open>Net_Ping\<close>: \<open>chi_net_ping.cc\<close>, with the exit code of a client.
  \<^item> \<open>Net_Find\<close>: \<open>chi_net_find.cc\<close>, and the way from the file it writes to \<open>ServerInit\<close>.
  \<^item> \<open>Full_Ping\<close>: \<open>fullping.cc\<close>; the live libfabric objects are a function of the log of calls.
  \<^item> \<open>Cluster_Stop\<close>: \<open>StopAllDaemons\<close> and the handlers \<open>RpcStopDaemon\<close> of all nodes interleaved,
    with their failures, and the refinement that ties these steps to the sequential models.
  \<^item> this theory: an I/O call from the sender's descriptor to the receiver's buffers.

  What the model keeps. A process is the record \<open>sys\<close> (the trace of requests to the outside
  with their replies, the context, the engines, the heap); an operation is a function from
  state to outcome and state. Every throw, \<open>HELOG(kFatal, ..)\<close>, early return, unchecked access
  and signed overflow of the sources is a branch. The network is a function from the trace so
  far and a request to a reply or an exception, so a theorem over every network covers every
  order and kind of failure. The lemma groups are, per component: the invariant and its
  preservation, the outcome of every operation (\<open>_run\<close>, \<open>_emits\<close>, \<open>_outcome\<close>), and the properties
  \<open>C1\<close>, \<open>C2\<close>, .. with concrete witnesses.

  Bounds. A host table has fewer than \<open>2^31\<close> entries (\<open>rc_inv\<close>): the \<open>int\<close> counter of
  \<open>_FindThisHost\<close> overflows beyond that, and a loop \<open>u32 node_id <= NumHosts()\<close> would not end
  with \<open>2^32 - 1\<close> hosts or more. \<open>roomy\<close> says that a vector of responses can hold one per host;
  below \<open>max_size()\<close> the standard containers are taken to get their memory. No theorem uses
  fuel: loops that may not end are partial functions and returning is proved.

  Not modelled. The code behind the parameters: cte-hermes-shm (logging, configuration
  parsing, formatting, bit fields, shared memory), cereal and thallium (archives, engines,
  handler scheduling), libfabric, the resolver, MPI and the address that \<open>malloc\<close> chooses.
  The text and the time values of log lines other than those named in \<open>log_line\<close>; the timer
  around the benchmark loops. A stream that cannot open its file. The templates of
  \<open>std::hash\<close> that call \<open>Hash()\<close>, and type aliases without use. The handlers of a node run one at a time
  except in \<open>Cluster_Stop\<close>; there a caller whose client engine was finalised is taken to make no
  further step, since thallium gives no meaning to one. The rest of \<open>pkg.py\<close>, the pipelines,
  CMake and CI files are deployment glue.
\<close>

section \<open>The way of a payload\<close>

text \<open>Which segments are selected, and their sizes, depend only on flags and sizes.\<close>

lemma filter_same_flags:
  "map dt_flags xs = map dt_flags ys \<Longrightarrow> map dt_data_size xs = map dt_data_size ys \<Longrightarrow>
   map dt_data_size (filter (\<lambda>x. P (dt_flags x)) xs) = map dt_data_size (filter (\<lambda>x. P (dt_flags x)) ys)"
proof (induction xs arbitrary: ys)
  case (Cons x xs)
  then show ?case
    by (cases ys) auto
qed simp

lemma bulk_segments_sizes:
  assumes "map dt_flags xs = map dt_flags ys" "map dt_data_size xs = map dt_data_size ys"
  shows "map snd (fst (bulk_segments H flag xs [] 0)) = map snd (fst (bulk_segments H flag ys [] 0))"
    and "snd (bulk_segments H flag xs [] 0) = snd (bulk_segments H flag ys [] 0)"
  using filter_same_flags[OF assms, of "\<lambda>fl. bf_any H fl flag"] by (simp_all add: bulk_segments_filter comp_def)

lemma distinct_filtered:
  "distinct (filter P (map f xs)) \<Longrightarrow> distinct (filter P (map f (filter Q xs)))"
  by (induction xs) auto

text \<open>
  C12: sender and receiver of an I/O call agree on the payload. A descriptor is sent with its
  metadata, loaded by the server into any object, and given buffers by
  \<open>AllocateBulksServer\<close>. Then the segments that the server exposes for its pull are, in number,
  order and size, the segments that the client exposed, the planned byte counts are equal,
  and one side is exposed for reading and the other for writing. Every segment of the server
  is what a call of \<open>malloc\<close> for its size returned; the blocks are distinct, were free before,
  have the size of their segment, and, as long as the allocator has room, none is null.
\<close>

theorem io_payload_fits:
  assumes "hshm_bits H" "archive_pair Out In" "vec_pair Out In vout vin" "malloc_fresh M"
    and "st_serialize vout Out [] xfer = Inr (buf, sent)"
    and "st_serialize vin In (buf @ rest) y = Inr (left, arrived)"
    and "allocate_bulks_server M h arrived = (h', ready)"
    and "bulk_segments H (DT_WRITE H) (st_bulk xfer) [] 0 = (client_segs, client_bytes)"
    and "bulk_segments H (DT_WRITE H) (st_bulk ready) [] 0 = (server_segs, server_bytes)"
  shows "left = rest \<and> st_md ready = st_md xfer \<and>
    map snd server_segs = map snd client_segs \<and> server_bytes = client_bytes \<and>
    client_mode H (DT_WRITE H) = Bulk_read_only \<and> server_mode H (DT_WRITE H) = Bulk_write_only \<and>
    (\<forall>(a, n) \<in> set server_segs. (\<exists>g g'. malloc M g n = (g', a)) \<and> (a \<noteq> 0 \<longrightarrow> h' a = Some n \<and> h a = None)) \<and>
    distinct (filter (\<lambda>a. a \<noteq> 0) (map fst server_segs)) \<and>
    (malloc_room M h (length (st_bulk xfer)) \<longrightarrow>
       distinct (map fst server_segs) \<and> (\<forall>(a, n) \<in> set server_segs. a \<noteq> 0 \<and> h' a = Some n \<and> h a = None))"
proof -
  let ?xs = "st_bulk xfer" and ?ptrs = "own_pointers (length (st_bulk xfer)) y"
  obtain buf' where wire: "st_serialize vout Out [] xfer = Inr (buf', xfer)"
    "st_serialize vin In (buf' @ rest) y = Inr (rest, xfer\<lparr>st_bulk := with_pointers ?xs ?ptrs\<rparr>)"
    using st_wire[OF assms(2,3)] by blast
  then have arrived: "left = rest" "arrived = xfer\<lparr>st_bulk := with_pointers ?xs ?ptrs\<rparr>"
    using assms(5,6) by simp_all
  obtain ys where ys: "allocate_bulks M h (st_bulk arrived) = (h', ys)" "ready = arrived\<lparr>st_bulk := ys\<rparr>"
    using assms(7) by (auto simp: allocate_bulks_server_def split: prod.splits)
  have same: "map dt_flags ys = map dt_flags ?xs" "map dt_data_size ys = map dt_data_size ?xs" "length ys = length ?xs"
    using allocate_bulks_keeps[OF ys(1)] with_pointers_fields[of ?ptrs ?xs]
    by (auto simp: arrived(2) dest: map_eq_imp_length_eq)
  have sizes: "map snd server_segs = map snd client_segs" "server_bytes = client_bytes"
    using bulk_segments_sizes[OF same(1,2), of H "DT_WRITE H"] assms(8,9) by (simp_all add: ys(2))
  have segs: "server_segs = map (\<lambda>x. (dt_data x, dt_data_size x)) (filter (\<lambda>x. bf_any H (dt_flags x) (DT_WRITE H)) ys)"
    using assms(9) by (simp add: bulk_segments_filter ys(2))
  have live: "\<forall>(a, n) \<in> set server_segs. a \<noteq> 0 \<longrightarrow> h' a = Some n \<and> h a = None"
    using allocate_bulks_live[OF assms(4) ys(1)] by (auto simp: segs)
  have made: "\<forall>(a, n) \<in> set server_segs. \<exists>g g'. malloc M g n = (g', a)"
    using allocate_bulks_mallocs[OF ys(1)] by (auto simp: segs)
  have dist: "distinct (filter (\<lambda>a. a \<noteq> 0) (map fst server_segs))"
    using distinct_filtered[OF allocate_bulks_distinct[OF assms(4) ys(1)]] by (simp add: segs comp_def)
  have room: "\<forall>(a, n) \<in> set server_segs. a \<noteq> 0" if "malloc_room M h (length ?xs)"
    using allocate_bulks_nonnull[OF ys(1)] that by (auto simp: segs arrived(2) with_pointers_def)
  then have "distinct (map fst server_segs)" if "malloc_room M h (length ?xs)"
    using dist that filter_True[of "map fst server_segs" "\<lambda>a. a \<noteq> 0"] by fastforce
  with room live made dist sizes show ?thesis
    unfolding mode_values[OF assms(1)] dt_flag_values[OF assms(1)] by (fastforce simp: arrived ys(2))
qed

theorem io_payload_fits_witness:
  "\<exists>buf (ready :: segmented_transfer) h'. st_serialize token_vec_out token_out [] sample_transfer = Inr (buf, sample_transfer) \<and>
     map snd (fst (bulk_segments sample_hshm 3 (st_bulk ready) [] 0)) = [10, 20] \<and> st_md ready = ''md'' \<and>
     distinct (map fst (fst (bulk_segments sample_hshm 3 (st_bulk ready) [] 0))) \<and>
     (\<forall>(a, n) \<in> set (fst (bulk_segments sample_hshm 3 (st_bulk ready) [] 0)). a \<noteq> 0 \<and> h' a = Some n)"
proof -
  obtain buf where w: "st_serialize token_vec_out token_out [] sample_transfer = Inr (buf, sample_transfer)"
    "st_serialize token_vec_in token_in (buf @ []) sample_transfer =
       Inr ([], sample_transfer\<lparr>st_bulk := with_pointers (st_bulk sample_transfer)
         (own_pointers (length (st_bulk sample_transfer)) sample_transfer)\<rparr>)"
    using st_wire[OF token_pair token_vec_pair] by blast
  obtain h' ready where r: "allocate_bulks_server two_blocks (\<lambda>_. None)
      (sample_transfer\<lparr>st_bulk := with_pointers (st_bulk sample_transfer)
         (own_pointers (length (st_bulk sample_transfer)) sample_transfer)\<rparr>) = (h', ready)"
    by force
  have flag: "DT_WRITE sample_hshm = 3"
    using dt_flag_values[OF sample_hshm_bits] by simp
  obtain cs cb where c: "bulk_segments sample_hshm 3 (st_bulk sample_transfer) [] 0 = (cs, cb)"
    by force
  obtain ss sb where s: "bulk_segments sample_hshm 3 (st_bulk ready) [] 0 = (ss, sb)"
    by force
  have "map snd (fst (bulk_segments sample_hshm 3 (st_bulk sample_transfer) [] 0)) = [10, 20]" "st_md sample_transfer = ''md''"
    by code_simp+
  moreover have "malloc_room two_blocks (\<lambda>_. None) (length (st_bulk sample_transfer))"
    using two_blocks_room by (simp add: sample_transfer_def numeral_2_eq_2)
  ultimately have "st_md ready = ''md'' \<and> map snd ss = [10, 20] \<and> distinct (map fst ss) \<and>
      (\<forall>(a, n) \<in> set ss. a \<noteq> 0 \<and> h' a = Some n)"
    using io_payload_fits[OF sample_hshm_bits token_pair token_vec_pair two_blocks_fresh w r, unfolded flag, OF c s] c by auto
  then have "map snd (fst (bulk_segments sample_hshm 3 (st_bulk ready) [] 0)) = [10, 20] \<and> st_md ready = ''md'' \<and>
      distinct (map fst (fst (bulk_segments sample_hshm 3 (st_bulk ready) [] 0))) \<and>
      (\<forall>(a, n) \<in> set (fst (bulk_segments sample_hshm 3 (st_bulk ready) [] 0)). a \<noteq> 0 \<and> h' a = Some n)"
    unfolding s fst_conv by blast
  with w(1) show ?thesis
    by (intro exI[of _ buf] exI[of _ ready] exI[of _ h']) simp
qed

end
